theory Spec2Isabelle
  imports Complex_Main "HOL-Library.Multiset"
begin

section \<open>Python values of the two Lambda handlers\<close>

text \<open>
  The repository holds two AWS Lambda handlers: \<^verbatim>\<open>customer-analytics-api/lambda_function.py\<close>
  (the query engine) and \<^verbatim>\<open>customer-analytics-processor/lambda_function.py\<close> (the
  aggregator). Both work on dynamically typed values: the JSON-decoded event, and the items
  that the DynamoDB resource client returns (numbers as \<^verbatim>\<open>Decimal\<close>, plus binary and set
  attributes). One datatype of Python values covers both.
\<close>

subsection \<open>Floats\<close>

text \<open>
  A Python float is an IEEE 754 double. A finite double is kept as \<open>Fin m e\<close>, the number
  \<open>m * 2 ^ e\<close> with \<open>m\<close> odd (zero is \<open>Fin 0 0\<close>; the sign of zero is not kept, the only
  place where it shows is the text \<^verbatim>\<open>-0.0\<close>). All arithmetic is integer arithmetic and is
  rounded to nearest, ties to even, with 53 bits of precision, gradual underflow below
  \<open>2 ^ - 1022\<close> and overflow to infinity from \<open>2 ^ 1024\<close>.
\<close>

datatype pyfloat = Fin int int | PInf | NInf | NaN

function bit_length :: "int \<Rightarrow> int" where
  "bit_length n = (if n \<le> 0 then 0 else 1 + bit_length (n div 2))"
  by pat_completeness auto
termination
  by (relation "measure nat") auto

declare bit_length.simps [simp del]

text \<open>The integer nearest to \<open>n / d\<close> for \<open>d > 0\<close>, a tie going to the even neighbour.\<close>

definition round_half_even :: "int \<Rightarrow> int \<Rightarrow> int" where
  "round_half_even n d =
     (let k = n div d; r = n mod d
      in if 2 * r < d then k
         else if d < 2 * r then k + 1
         else if even k then k else k + 1)"

text \<open>The exponent of the leading bit of \<open>a / d\<close>, for \<open>a > 0\<close> and \<open>d > 0\<close>.\<close>

definition floor_log2 :: "int \<Rightarrow> int \<Rightarrow> int" where
  "floor_log2 a d =
     (let e0 = bit_length a - bit_length d
      in if (if 0 \<le> e0 then d * 2 ^ nat e0 \<le> a else d \<le> a * 2 ^ nat (- e0))
         then e0 else e0 - 1)"

function normalize :: "int \<Rightarrow> int \<Rightarrow> pyfloat" where
  "normalize m e =
     (if m = 0 then Fin 0 0
      else if even m then normalize (m div 2) (e + 1)
      else Fin m e)"
  by pat_completeness auto
termination
  by (relation "measure (\<lambda>(m, e). nat \<bar>m\<bar>)") auto

declare normalize.simps [simp del]

text \<open>The double nearest to the rational \<open>p / d\<close>, for \<open>d > 0\<close>.\<close>

definition round_double :: "int \<Rightarrow> int \<Rightarrow> pyfloat" where
  "round_double p d =
     (if p = 0 then Fin 0 0
      else
        let a = \<bar>p\<bar>;
            e = floor_log2 a d;
            q = max (e - 52) (- 1074);
            m = (if 0 \<le> q then round_half_even a (d * 2 ^ nat q)
                 else round_half_even (a * 2 ^ nat (- q)) d)
        in if 0 \<le> q \<and> 2 ^ 1024 \<le> m * 2 ^ nat q
           then (if 0 < p then PInf else NInf)
           else normalize (sgn p * m) q)"

definition round_dyadic :: "int \<Rightarrow> int \<Rightarrow> pyfloat" where
  "round_dyadic m e =
     (if 0 \<le> e then round_double (m * 2 ^ nat e) 1 else round_double m (2 ^ nat (- e)))"

text \<open>\<^verbatim>\<open>x + y\<close> on floats.\<close>

fun fadd :: "pyfloat \<Rightarrow> pyfloat \<Rightarrow> pyfloat" where
  "fadd (Fin m1 e1) (Fin m2 e2) =
     (let e = min e1 e2
      in round_dyadic (m1 * 2 ^ nat (e1 - e) + m2 * 2 ^ nat (e2 - e)) e)"
| "fadd NaN _ = NaN"
| "fadd _ NaN = NaN"
| "fadd PInf NInf = NaN"
| "fadd NInf PInf = NaN"
| "fadd PInf _ = PInf"
| "fadd _ PInf = PInf"
| "fadd NInf _ = NInf"
| "fadd _ NInf = NInf"

text \<open>
  \<^verbatim>\<open>float(Decimal)\<close> for the finite decimal \<open>c * 10 ^ e\<close>: the nearest double. DynamoDB numbers
  are finite decimals of up to 38 digits, so the special values of \<^verbatim>\<open>Decimal\<close> do not occur.
\<close>

definition dec_float :: "int \<Rightarrow> int \<Rightarrow> pyfloat" where
  "dec_float c e =
     (if 0 \<le> e then round_double (c * 10 ^ nat e) 1 else round_double c (10 ^ nat (- e)))"

text \<open>
  \<^verbatim>\<open>round(x, 2)\<close> on a float: the exact binary value is rounded to two decimal places, ties
  to even, and the resulting decimal is converted back to the nearest double. Infinities and
  NaN round to themselves.
\<close>

fun round2 :: "pyfloat \<Rightarrow> pyfloat" where
  "round2 (Fin m e) =
     round_double
       (if 0 \<le> e then m * 2 ^ nat e * 100
        else round_half_even (m * 100) (2 ^ nat (- e))) 100"
| "round2 x = x"

subsection \<open>Exceptions and values\<close>

text \<open>An exception is kept as its class name and the text \<^verbatim>\<open>str(e)\<close>.\<close>

datatype exn = Exn string string

fun str_exn :: "exn \<Rightarrow> string" where
  "str_exn (Exn cls msg) = msg"

datatype pyval =
    VNone
  | VBool bool
  | VInt int
  | VFloat pyfloat
  | VDec int int
  | VStr string
  | VBin string
  | VList "pyval list"
  | VDict "(string \<times> pyval) list"
  | VSet "pyval list"

type_synonym item = "(string \<times> pyval) list"

fun type_name :: "pyval \<Rightarrow> string" where
  "type_name VNone = ''NoneType''"
| "type_name (VBool _) = ''bool''"
| "type_name (VInt _) = ''int''"
| "type_name (VFloat _) = ''float''"
| "type_name (VDec _ _) = ''decimal.Decimal''"
| "type_name (VStr _) = ''str''"
| "type_name (VBin _) = ''Binary''"
| "type_name (VList _) = ''list''"
| "type_name (VDict _) = ''dict''"
| "type_name (VSet _) = ''set''"

text \<open>Truth value testing, as \<^verbatim>\<open>if x:\<close> and \<^verbatim>\<open>not x\<close> do it.\<close>

fun truthy :: "pyval \<Rightarrow> bool" where
  "truthy VNone = False"
| "truthy (VBool b) = b"
| "truthy (VInt n) = (n \<noteq> 0)"
| "truthy (VFloat x) = (x \<noteq> Fin 0 0)"
| "truthy (VDec c e) = (c \<noteq> 0)"
| "truthy (VStr s) = (s \<noteq> [])"
| "truthy (VBin b) = True"
| "truthy (VList xs) = (xs \<noteq> [])"
| "truthy (VDict kvs) = (kvs \<noteq> [])"
| "truthy (VSet xs) = (xs \<noteq> [])"

text \<open>\<^verbatim>\<open>d.get(k, default)\<close> on a dictionary.\<close>

definition dict_get :: "(string \<times> pyval) list \<Rightarrow> string \<Rightarrow> pyval \<Rightarrow> pyval" where
  "dict_get kvs k dflt = (case map_of kvs k of None \<Rightarrow> dflt | Some v \<Rightarrow> v)"

text \<open>\<^verbatim>\<open>x.get(k, default)\<close> on any value: only a dictionary has the method.\<close>

fun py_get :: "pyval \<Rightarrow> string \<Rightarrow> pyval \<Rightarrow> exn + pyval" where
  "py_get (VDict kvs) k dflt = Inr (dict_get kvs k dflt)"
| "py_get v k dflt =
     Inl (Exn ''AttributeError''
            ([CHR 0x27] @ type_name v @ [CHR 0x27] @ '' object has no attribute '' @
             [CHR 0x27] @ ''get'' @ [CHR 0x27]))"

fun starts_with :: "string \<Rightarrow> string \<Rightarrow> bool" where
  "starts_with [] s = True"
| "starts_with (p # ps) [] = False"
| "starts_with (p # ps) (c # cs) = (p = c \<and> starts_with ps cs)"

fun contains_str :: "string \<Rightarrow> string \<Rightarrow> bool" where
  "contains_str p [] = (p = [])"
| "contains_str p (c # cs) = (starts_with p (c # cs) \<or> contains_str p cs)"

text \<open>
  \<^verbatim>\<open>k in x\<close> for a string \<open>k\<close>: key membership on a dictionary, element membership on a
  list or set, substring test on a string, a \<^verbatim>\<open>TypeError\<close> on everything else.
\<close>

fun py_contains :: "string \<Rightarrow> pyval \<Rightarrow> exn + bool" where
  "py_contains k (VDict kvs) = Inr (map_of kvs k \<noteq> None)"
| "py_contains k (VList xs) = Inr (VStr k \<in> set xs)"
| "py_contains k (VSet xs) = Inr (VStr k \<in> set xs)"
| "py_contains k (VStr s) = Inr (contains_str k s)"
| "py_contains k v =
     Inl (Exn ''TypeError''
            (''argument of type '' @ [CHR 0x27] @ type_name v @ [CHR 0x27] @ '' is not iterable''))"

text \<open>\<^verbatim>\<open>x[k]\<close> for a string \<open>k\<close>. The text of a \<^verbatim>\<open>KeyError\<close> is the quoted key.\<close>

fun py_getitem :: "pyval \<Rightarrow> string \<Rightarrow> exn + pyval" where
  "py_getitem (VDict kvs) k =
     (case map_of kvs k of
        None \<Rightarrow> Inl (Exn ''KeyError'' ([CHR 0x27] @ k @ [CHR 0x27]))
      | Some v \<Rightarrow> Inr v)"
| "py_getitem (VList xs) k =
     Inl (Exn ''TypeError'' ''list indices must be integers or slices, not str'')"
| "py_getitem (VStr s) k =
     Inl (Exn ''TypeError''
            (''string indices must be integers, not '' @ [CHR 0x27] @ ''str'' @ [CHR 0x27]))"
| "py_getitem v k =
     Inl (Exn ''TypeError''
            ([CHR 0x27] @ type_name v @ [CHR 0x27] @ '' object is not subscriptable''))"

text \<open>
  The elements a \<^verbatim>\<open>for\<close> loop visits: those of a list or set, the keys of a dictionary, the
  characters of a string.
\<close>

fun py_iter :: "pyval \<Rightarrow> exn + pyval list" where
  "py_iter (VList xs) = Inr xs"
| "py_iter (VSet xs) = Inr xs"
| "py_iter (VDict kvs) = Inr (map (\<lambda>kv. VStr (fst kv)) kvs)"
| "py_iter (VStr s) = Inr (map (\<lambda>c. VStr [c]) s)"
| "py_iter v =
     Inl (Exn ''TypeError''
            ([CHR 0x27] @ type_name v @ [CHR 0x27] @ '' object is not iterable''))"

text \<open>
  \<^verbatim>\<open>float(x)\<close>. The conversion of a string is the float-literal parser of the Python
  runtime, a library function; it is the parameter \<open>strtod\<close>, which returns the parsed
  float or the \<^verbatim>\<open>ValueError\<close> the runtime raises.
\<close>

fun py_float :: "(string \<Rightarrow> exn + pyfloat) \<Rightarrow> pyval \<Rightarrow> exn + pyfloat" where
  "py_float strtod (VBool b) = Inr (if b then Fin 1 0 else Fin 0 0)"
| "py_float strtod (VInt n) =
     (case round_double n 1 of
        Fin m e \<Rightarrow> Inr (Fin m e)
      | _ \<Rightarrow> Inl (Exn ''OverflowError'' ''int too large to convert to float''))"
| "py_float strtod (VFloat x) = Inr x"
| "py_float strtod (VDec c e) = Inr (dec_float c e)"
| "py_float strtod (VStr s) = strtod s"
| "py_float strtod v =
     Inl (Exn ''TypeError''
            (''float() argument must be a string or a real number, not '' @
             [CHR 0x27] @ type_name v @ [CHR 0x27]))"

subsection \<open>Arithmetic of the metrics\<close>

text \<open>
  The numbers in a metrics dictionary are ints or floats: \<^verbatim>\<open>sum\<close> of no terms and the
  \<^verbatim>\<open>else 0\<close> branches are the int \<open>0\<close>, everything else is a float.
\<close>

datatype pynum = NInt int | NFloat pyfloat

fun num_val :: "pynum \<Rightarrow> pyval" where
  "num_val (NInt n) = VInt n"
| "num_val (NFloat x) = VFloat x"

text \<open>\<^verbatim>\<open>round(x, 2)\<close>: an int is returned unchanged.\<close>

fun py_round2 :: "pynum \<Rightarrow> pynum" where
  "py_round2 (NInt n) = NInt n"
| "py_round2 (NFloat x) = NFloat (round2 x)"

text \<open>\<^verbatim>\<open>a / b\<close> on ints: the correctly rounded quotient.\<close>

definition int_truediv :: "int \<Rightarrow> int \<Rightarrow> exn + pyfloat" where
  "int_truediv a b =
     (if b = 0 then Inl (Exn ''ZeroDivisionError'' ''division by zero'')
      else case round_double (sgn b * a) \<bar>b\<bar> of
             Fin m e \<Rightarrow> Inr (Fin m e)
           | _ \<Rightarrow> Inl (Exn ''OverflowError'' ''integer division result too large for a float''))"

fun fmul :: "pyfloat \<Rightarrow> pyfloat \<Rightarrow> pyfloat" where
  "fmul (Fin m1 e1) (Fin m2 e2) = round_dyadic (m1 * m2) (e1 + e2)"
| "fmul NaN _ = NaN"
| "fmul _ NaN = NaN"
| "fmul PInf (Fin m e) = (if m = 0 then NaN else if 0 < m then PInf else NInf)"
| "fmul NInf (Fin m e) = (if m = 0 then NaN else if 0 < m then NInf else PInf)"
| "fmul (Fin m e) PInf = (if m = 0 then NaN else if 0 < m then PInf else NInf)"
| "fmul (Fin m e) NInf = (if m = 0 then NaN else if 0 < m then NInf else PInf)"
| "fmul PInf PInf = PInf"
| "fmul NInf NInf = PInf"
| "fmul PInf NInf = NInf"
| "fmul NInf PInf = NInf"

text \<open>\<^verbatim>\<open>x * n\<close> for a float and an int: the int is converted to a float first.\<close>

definition float_mul_int :: "pyfloat \<Rightarrow> int \<Rightarrow> exn + pyfloat" where
  "float_mul_int x n =
     (case round_double n 1 of
        Fin m e \<Rightarrow> Inr (fmul x (Fin m e))
      | _ \<Rightarrow> Inl (Exn ''OverflowError'' ''int too large to convert to float''))"

text \<open>A float divided by the nonzero finite double \<open>m2 * 2 ^ e2\<close>.\<close>

fun fdiv_fin :: "pyfloat \<Rightarrow> int \<Rightarrow> int \<Rightarrow> pyfloat" where
  "fdiv_fin (Fin m1 e1) m2 e2 =
     round_double (sgn m2 * m1 * 2 ^ nat (e1 - e2)) (\<bar>m2\<bar> * 2 ^ nat (e2 - e1))"
| "fdiv_fin PInf m2 e2 = (if 0 < m2 then PInf else NInf)"
| "fdiv_fin NInf m2 e2 = (if 0 < m2 then NInf else PInf)"
| "fdiv_fin NaN m2 e2 = NaN"

text \<open>\<^verbatim>\<open>x / n\<close> for a float and an int.\<close>

definition float_div_int :: "pyfloat \<Rightarrow> int \<Rightarrow> exn + pyfloat" where
  "float_div_int x n =
     (if n = 0 then Inl (Exn ''ZeroDivisionError'' ''float division by zero'')
      else case round_double n 1 of
             Fin m e \<Rightarrow> Inr (fdiv_fin x m e)
           | _ \<Rightarrow> Inl (Exn ''OverflowError'' ''int too large to convert to float''))"

fun num_div_int :: "pynum \<Rightarrow> int \<Rightarrow> exn + pyfloat" where
  "num_div_int (NInt a) n = int_truediv a n"
| "num_div_int (NFloat x) n = float_div_int x n"

text \<open>
  \<^verbatim>\<open>sum(...)\<close> over floats, as Python 3.11 (the runtime both functions are deployed on)
  computes it: it starts from the int \<open>0\<close> and adds the terms from left to right, each
  addition rounded.
\<close>

fun py_sum :: "pyfloat list \<Rightarrow> pynum" where
  "py_sum [] = NInt 0"
| "py_sum (x # xs) = NFloat (foldl fadd (fadd (Fin 0 0) x) xs)"

section \<open>Aggregation\<close>

text \<open>
  \<^verbatim>\<open>sum(1 for item in items if item.get('converted'))\<close>, in both handlers (API line 57,
  processor line 49).
\<close>

definition count_converted :: "item list \<Rightarrow> int" where
  "count_converted items =
     int (length (filter (\<lambda>item. truthy (dict_get item ''converted'' VNone)) items))"

text \<open>
  The terms of \<^verbatim>\<open>sum(float(item.get('cart_value', 0)) for item in items)\<close> (API line 58):
  the first conversion that raises ends the sum.
\<close>

fun cart_values :: "(string \<Rightarrow> exn + pyfloat) \<Rightarrow> item list \<Rightarrow> exn + pyfloat list" where
  "cart_values strtod [] = Inr []"
| "cart_values strtod (item # items) =
     (case py_float strtod (dict_get item ''cart_value'' (VInt 0)) of
        Inl e \<Rightarrow> Inl e
      | Inr x \<Rightarrow> (case cart_values strtod items of
                    Inl e \<Rightarrow> Inl e
                  | Inr xs \<Rightarrow> Inr (x # xs)))"

definition revenue_sum :: "(string \<Rightarrow> exn + pyfloat) \<Rightarrow> item list \<Rightarrow> exn + pynum" where
  "revenue_sum strtod items =
     (case cart_values strtod items of Inl e \<Rightarrow> Inl e | Inr xs \<Rightarrow> Inr (py_sum xs))"

text \<open>
  \<^verbatim>\<open>(conversions / total_sessions * 100) if total_sessions > 0 else 0\<close>, in both handlers.
\<close>

definition conversion_rate :: "int \<Rightarrow> int \<Rightarrow> exn + pynum" where
  "conversion_rate conversions total_sessions =
     (if 0 < total_sessions
      then (case int_truediv conversions total_sessions of
              Inl e \<Rightarrow> Inl e
            | Inr x \<Rightarrow> (case float_mul_int x 100 of Inl e \<Rightarrow> Inl e | Inr y \<Rightarrow> Inr (NFloat y)))
      else Inr (NInt 0))"

text \<open>\<^verbatim>\<open>(total_revenue / conversions) if conversions > 0 else 0\<close> (API line 65).\<close>

definition avg_cart_value :: "pynum \<Rightarrow> int \<Rightarrow> exn + pynum" where
  "avg_cart_value total_revenue conversions =
     (if 0 < conversions
      then (case num_div_int total_revenue conversions of
              Inl e \<Rightarrow> Inl e
            | Inr x \<Rightarrow> Inr (NFloat x))
      else Inr (NInt 0))"

text \<open>
  The dictionary literal \<^verbatim>\<open>metrics\<close> of the API handler (lines 59 to 66); its entries are
  evaluated in the order written.
\<close>

definition api_metrics_dict :: "string \<Rightarrow> int \<Rightarrow> int \<Rightarrow> pynum \<Rightarrow> exn + item" where
  "api_metrics_dict timestamp total_sessions conversions total_revenue =
     (case conversion_rate conversions total_sessions of
        Inl e \<Rightarrow> Inl e
      | Inr rate \<Rightarrow>
          (case avg_cart_value total_revenue conversions of
             Inl e \<Rightarrow> Inl e
           | Inr avg \<Rightarrow>
               Inr [(''timestamp'', VStr timestamp),
                    (''total_sessions'', VInt total_sessions),
                    (''conversions'', VInt conversions),
                    (''conversion_rate'', num_val (py_round2 rate)),
                    (''total_revenue'', num_val (py_round2 total_revenue)),
                    (''avg_cart_value'', num_val (py_round2 avg))]))"

text \<open>
  The aggregation of the API handler's \<^verbatim>\<open>/metrics\<close> branch (lines 55 to 66), from the
  scanned items to the metrics dictionary.
\<close>

definition api_metrics :: "(string \<Rightarrow> exn + pyfloat) \<Rightarrow> string \<Rightarrow> item list \<Rightarrow> exn + item" where
  "api_metrics strtod timestamp items =
     (case revenue_sum strtod items of
        Inl e \<Rightarrow> Inl e
      | Inr total_revenue \<Rightarrow>
          api_metrics_dict timestamp (int (length items)) (count_converted items) total_revenue)"

text \<open>
  The aggregation of the processor's \<^verbatim>\<open>aggregate\<close> action (lines 46 to 56): no revenue is
  summed and the rate is not rounded.
\<close>

definition processor_metrics :: "string \<Rightarrow> item list \<Rightarrow> exn + item" where
  "processor_metrics timestamp items =
     (let total_sessions = int (length items);
          total_conversions = count_converted items
      in case conversion_rate total_conversions total_sessions of
           Inl e \<Rightarrow> Inl e
         | Inr rate \<Rightarrow>
             Inr [(''timestamp'', VStr timestamp),
                  (''total_sessions'', VInt total_sessions),
                  (''total_conversions'', VInt total_conversions),
                  (''conversion_rate'', num_val rate)])"

section \<open>JSON serialisation\<close>

text \<open>
  The text \<^verbatim>\<open>json.dumps\<close> returns is kept as the JSON value it denotes. What is modelled of
  the serialiser is the traversal, in order, and the hook it calls on a value that is not
  of a JSON type: a Decimal, a Binary or a set. The value the hook returns is taken as it
  is (the hook of this repository returns a float).
\<close>

datatype json_text = Dumps pyval

fun class_name :: "pyval \<Rightarrow> string" where
  "class_name (VDec c e) = ''Decimal''"
| "class_name v = type_name v"

fun json_encode :: "(pyval \<Rightarrow> exn + pyval) \<Rightarrow> pyval \<Rightarrow> exn + pyval"
  and json_encode_list :: "(pyval \<Rightarrow> exn + pyval) \<Rightarrow> pyval list \<Rightarrow> exn + pyval list"
  and json_encode_items :: "(pyval \<Rightarrow> exn + pyval) \<Rightarrow> (string \<times> pyval) list \<Rightarrow> exn + (string \<times> pyval) list"
where
  "json_encode hook (VList xs) =
     (case json_encode_list hook xs of Inl e \<Rightarrow> Inl e | Inr ys \<Rightarrow> Inr (VList ys))"
| "json_encode hook (VDict kvs) =
     (case json_encode_items hook kvs of Inl e \<Rightarrow> Inl e | Inr kvs' \<Rightarrow> Inr (VDict kvs'))"
| "json_encode hook (VDec c e) = hook (VDec c e)"
| "json_encode hook (VBin b) = hook (VBin b)"
| "json_encode hook (VSet xs) = hook (VSet xs)"
| "json_encode hook VNone = Inr VNone"
| "json_encode hook (VBool b) = Inr (VBool b)"
| "json_encode hook (VInt n) = Inr (VInt n)"
| "json_encode hook (VFloat x) = Inr (VFloat x)"
| "json_encode hook (VStr s) = Inr (VStr s)"
| "json_encode_list hook [] = Inr []"
| "json_encode_list hook (x # xs) =
     (case json_encode hook x of
        Inl e \<Rightarrow> Inl e
      | Inr y \<Rightarrow> (case json_encode_list hook xs of
                    Inl e \<Rightarrow> Inl e
                  | Inr ys \<Rightarrow> Inr (y # ys)))"
| "json_encode_items hook [] = Inr []"
| "json_encode_items hook (kv # kvs) =
     (case json_encode hook (snd kv) of
        Inl e \<Rightarrow> Inl e
      | Inr y \<Rightarrow> (case json_encode_items hook kvs of
                    Inl e \<Rightarrow> Inl e
                  | Inr kvs' \<Rightarrow> Inr ((fst kv, y) # kvs')))"

definition json_dumps :: "(pyval \<Rightarrow> exn + pyval) \<Rightarrow> pyval \<Rightarrow> exn + json_text" where
  "json_dumps hook v = (case json_encode hook v of Inl e \<Rightarrow> Inl e | Inr j \<Rightarrow> Inr (Dumps j))"

text \<open>\<^verbatim>\<open>JSONEncoder.default\<close>: every value it is asked about is refused.\<close>

definition no_default :: "pyval \<Rightarrow> exn + pyval" where
  "no_default v =
     Inl (Exn ''TypeError'' (''Object of type '' @ class_name v @ '' is not JSON serializable''))"

text \<open>\<^verbatim>\<open>DecimalEncoder.default\<close> (API lines 11 to 15).\<close>

definition DecimalEncoder_default :: "pyval \<Rightarrow> exn + pyval" where
  "DecimalEncoder_default v =
     (case v of VDec c e \<Rightarrow> Inr (VFloat (dec_float c e)) | _ \<Rightarrow> no_default v)"

section \<open>The services the handlers call\<close>

text \<open>
  Everything outside the two source files is one record: the environment variables, the
  clock, the runtime's float parser, the DynamoDB tables, the S3 buckets and the Lambda
  service. A handler takes the world and returns it with its response.

  A table is the list of its items in the order a scan returns them. A fault, when set,
  is the exception every call to that service raises (no connection, no permission).
  Objects written by \<^verbatim>\<open>put_object\<close> are logged in \<open>s3_puts\<close>; asynchronous invocations
  are logged in \<open>lambda_invocations\<close>. The number of bytes the service counts for an item,
  when it fills a page of query or scan results, is \<open>item_bytes\<close>. The texts of the
  exceptions of the AWS client are shortened; no statement below depends on them.
\<close>

record datetime =
  isoformat :: string
  strftime_compact :: string

datatype s3_body = Utf8 string | NotUtf8 string

record put_request =
  put_bucket :: string
  put_key :: string
  put_body :: json_text
  put_content_type :: string

record world =
  environ :: "(string \<times> string) list"
  clock :: "nat \<Rightarrow> datetime"
  ticks :: nat
  float_of_str :: "string \<Rightarrow> exn + pyfloat"
  tables :: "(string \<times> item list) list"
  item_bytes :: "item \<Rightarrow> nat"
  dynamo_fault :: "exn option"
  bucket_names :: "string list"
  s3_objects :: "((string \<times> string) \<times> s3_body) list"
  s3_fault :: "exn option"
  s3_puts :: "put_request list"
  lambda_fault :: "exn option"
  lambda_request_id :: string
  lambda_invocations :: "(string \<times> json_text) list"
  stdout :: "string list"

text \<open>\<^verbatim>\<open>datetime.now()\<close>: each call reads the clock once.\<close>

definition now :: "world \<Rightarrow> datetime \<times> world" where
  "now w = (clock w (ticks w), w\<lparr>ticks := Suc (ticks w)\<rparr>)"

definition print :: "string \<Rightarrow> world \<Rightarrow> world" where
  "print line w = w\<lparr>stdout := stdout w @ [line]\<rparr>"

text \<open>\<^verbatim>\<open>dynamodb.Table(name)\<close>: the resource refuses a missing identifier.\<close>

definition dynamodb_Table :: "string option \<Rightarrow> exn + string" where
  "dynamodb_Table name =
     (case name of
        None \<Rightarrow> Inl (Exn ''ValueError'' ''Required parameter name not set'')
      | Some n \<Rightarrow> Inr n)"

definition resource_not_found :: "string \<Rightarrow> exn" where
  "resource_not_found operation =
     Exn ''ResourceNotFoundException''
       (''An error occurred (ResourceNotFoundException) when calling the '' @ operation @
        '' operation: Requested resource not found'')"

text \<open>
  One page of results. DynamoDB ends the reply to a single \<^verbatim>\<open>query\<close> or \<^verbatim>\<open>scan\<close> request
  once the items read add up to one megabyte, and returns with it a \<^verbatim>\<open>LastEvaluatedKey\<close> to
  continue from. Both handlers call the operation once and read \<^verbatim>\<open>response['Items']\<close>; they
  never ask for the continuation. The page is the longest run of items, from the first
  one on, that fits into the megabyte.
\<close>

definition page_limit :: int where
  "page_limit = 1048576"

fun first_page :: "(item \<Rightarrow> nat) \<Rightarrow> int \<Rightarrow> item list \<Rightarrow> item list" where
  "first_page bytes room [] = []"
| "first_page bytes room (it # its) =
     (if int (bytes it) \<le> room then it # first_page bytes (room - int (bytes it)) its else [])"

text \<open>
  \<^verbatim>\<open>table.scan(Limit=n)['Items']\<close>: the first page of the first \<open>n\<close> items of the table.
\<close>

definition table_scan :: "world \<Rightarrow> string \<Rightarrow> nat \<Rightarrow> exn + item list" where
  "table_scan w name limit =
     (case dynamo_fault w of
        Some e \<Rightarrow> Inl e
      | None \<Rightarrow>
          (case map_of (tables w) name of
             None \<Rightarrow> Inl (resource_not_found ''Scan'')
           | Some items \<Rightarrow> Inr (first_page (item_bytes w) page_limit (take limit items))))"

text \<open>
  The table's key schema (\<^verbatim>\<open>aws_dynamodb_setup.py\<close>, lines 62 to 68): partition key
  \<^verbatim>\<open>customer_id\<close>, a string, and sort key \<^verbatim>\<open>session_timestamp\<close>, a number.
\<close>

fun dec_value :: "pyval \<Rightarrow> rat" where
  "dec_value (VDec c e) = of_int c * (if 0 \<le> e then 10 ^ nat e else 1 / 10 ^ nat (- e))"
| "dec_value v = 0"

definition session_timestamp :: "item \<Rightarrow> rat" where
  "session_timestamp it = dec_value (dict_get it ''session_timestamp'' VNone)"

text \<open>
  \<^verbatim>\<open>table.query(KeyConditionExpression='customer_id = :cid', ...)['Items']\<close>: the first page
  of the items of one partition, which are read in ascending order of the sort key. A value
  that is not a string does not match the type of the partition key, and the request is
  refused.
\<close>

definition partition_of :: "string \<Rightarrow> item list \<Rightarrow> item list" where
  "partition_of cid items =
     sort_key session_timestamp (filter (\<lambda>it. map_of it ''customer_id'' = Some (VStr cid)) items)"

definition table_query :: "world \<Rightarrow> string \<Rightarrow> pyval \<Rightarrow> exn + item list" where
  "table_query w name cid =
     (case dynamo_fault w of
        Some e \<Rightarrow> Inl e
      | None \<Rightarrow>
          (case cid of
             VFloat x \<Rightarrow>
               Inl (Exn ''TypeError'' ''Float types are not supported. Use Decimal types instead.'')
           | VStr s \<Rightarrow>
               (case map_of (tables w) name of
                  None \<Rightarrow> Inl (resource_not_found ''Query'')
                | Some items \<Rightarrow>
                    Inr (first_page (item_bytes w) page_limit (partition_of s items)))
           | _ \<Rightarrow>
               Inl (Exn ''ClientError''
                      (''An error occurred (ValidationException) when calling the Query '' @
                       ''operation: One or more parameter values were invalid: Condition '' @
                       ''parameter type does not match schema type''))))"

text \<open>
  \<^verbatim>\<open>s3.get_object(Bucket=bucket, Key=key)['Body'].read().decode('utf-8')\<close> for a bucket
  and a key that are strings. An object is kept as the text its bytes decode to, or as
  \<open>NotUtf8\<close> with the message of the codec when they do not decode.
\<close>

definition s3_get_text :: "world \<Rightarrow> string \<Rightarrow> string \<Rightarrow> exn + string" where
  "s3_get_text w b k =
     (case s3_fault w of
        Some e \<Rightarrow> Inl e
      | None \<Rightarrow>
          if b \<notin> set (bucket_names w)
          then Inl (Exn ''NoSuchBucket''
                      (''An error occurred (NoSuchBucket) when calling the GetObject '' @
                       ''operation: The specified bucket does not exist''))
          else (case map_of (s3_objects w) (b, k) of
                  None \<Rightarrow>
                    Inl (Exn ''NoSuchKey''
                           (''An error occurred (NoSuchKey) when calling the GetObject '' @
                            ''operation: The specified key does not exist.''))
                | Some (NotUtf8 msg) \<Rightarrow> Inl (Exn ''UnicodeDecodeError'' msg)
                | Some (Utf8 data) \<Rightarrow> Inr data))"

text \<open>
  Why \<^verbatim>\<open>s3.put_object\<close> into a bucket fails, if it does: the bucket name is missing (the
  environment variable is unset), the service is at fault, or the bucket does not exist.
\<close>

definition s3_put_error :: "world \<Rightarrow> string option \<Rightarrow> exn option" where
  "s3_put_error w bucket =
     (case bucket of
        None \<Rightarrow>
          Some (Exn ''ParamValidationError''
                  ''Parameter validation failed: invalid type for parameter Bucket'')
      | Some b \<Rightarrow>
          (case s3_fault w of
             Some e \<Rightarrow> Some e
           | None \<Rightarrow>
               if b \<notin> set (bucket_names w)
               then Some (Exn ''NoSuchBucket''
                            (''An error occurred (NoSuchBucket) when calling the PutObject '' @
                             ''operation: The specified bucket does not exist''))
               else None))"

definition s3_put_object ::
  "world \<Rightarrow> string option \<Rightarrow> string \<Rightarrow> json_text \<Rightarrow> string \<Rightarrow> exn option \<times> world" where
  "s3_put_object w bucket key body content_type =
     (case s3_put_error w bucket of
        Some e \<Rightarrow> (Some e, w)
      | None \<Rightarrow>
          (None,
           w\<lparr>s3_puts := s3_puts w @
                [\<lparr>put_bucket = (case bucket of Some b \<Rightarrow> b | None \<Rightarrow> []), put_key = key,
                  put_body = body, put_content_type = content_type\<rparr>]\<rparr>))"

text \<open>
  \<^verbatim>\<open>lambda_client.invoke(FunctionName=..., InvocationType='Event', Payload=...)\<close>: the
  invocation is queued and the request id is returned.
\<close>

definition lambda_invoke :: "world \<Rightarrow> string \<Rightarrow> json_text \<Rightarrow> (exn + string) \<times> world" where
  "lambda_invoke w function_name payload =
     (case lambda_fault w of
        Some e \<Rightarrow> (Inl e, w)
      | None \<Rightarrow>
          (Inr (lambda_request_id w),
           w\<lparr>lambda_invocations := lambda_invocations w @ [(function_name, payload)]\<rparr>))"

section \<open>Responses\<close>

record response =
  statusCode :: int
  headers :: "(string \<times> string) list option"
  body :: json_text

definition json_headers :: "(string \<times> string) list option" where
  "json_headers = Some [(''Content-Type'', ''application/json'')]"

text \<open>
  The \<^verbatim>\<open>except Exception as e\<close> clause of both handlers: the message is printed and
  returned with status 500.
\<close>

definition error_response :: "exn \<Rightarrow> response" where
  "error_response e =
     \<lparr>statusCode = 500, headers = None, body = Dumps (VDict [(''error'', VStr (str_exn e))])\<rparr>"

definition catch_all :: "(exn + response) \<times> world \<Rightarrow> response \<times> world" where
  "catch_all r =
     (case r of
        (Inl e, w) \<Rightarrow> (error_response e, print (''ERROR: '' @ str_exn e) w)
      | (Inr resp, w) \<Rightarrow> (resp, w))"

definition respond ::
  "int \<Rightarrow> (string \<times> string) list option \<Rightarrow> exn + json_text \<Rightarrow> world \<Rightarrow> (exn + response) \<times> world" where
  "respond status hdrs dumped w =
     (case dumped of
        Inl e \<Rightarrow> (Inl e, w)
      | Inr text \<Rightarrow> (Inr \<lparr>statusCode = status, headers = hdrs, body = text\<rparr>, w))"

section \<open>The API handler\<close>

text \<open>The \<^verbatim>\<open>/health\<close> branch (lines 26 to 31).\<close>

definition api_health :: "world \<Rightarrow> (exn + response) \<times> world" where
  "api_health w =
     (let (t, w1) = now w
      in respond 200 json_headers
           (json_dumps no_default
              (VDict [(''status'', VStr ''healthy''), (''timestamp'', VStr (isoformat t))])) w1)"

text \<open>The \<^verbatim>\<open>/customer\<close> branch (lines 33 to 51).\<close>

definition api_customer :: "world \<Rightarrow> pyval \<Rightarrow> string \<Rightarrow> (exn + response) \<times> world" where
  "api_customer w event table =
     (case py_get event ''queryStringParameters'' (VDict []) of
        Inl e \<Rightarrow> (Inl e, w)
      | Inr p \<Rightarrow>
          (case py_get (if truthy p then p else VDict []) ''customer_id'' VNone of
             Inl e \<Rightarrow> (Inl e, w)
           | Inr customer_id \<Rightarrow>
               if \<not> truthy customer_id
               then respond 400 None
                      (json_dumps no_default
                         (VDict [(''error'', VStr ''customer_id parameter required'')])) w
               else (case table_query w table customer_id of
                       Inl e \<Rightarrow> (Inl e, w)
                     | Inr items \<Rightarrow>
                         respond 200 json_headers
                           (json_dumps DecimalEncoder_default
                              (VDict [(''customer_id'', customer_id),
                                      (''sessions'', VList (map VDict items)),
                                      (''total_sessions'', VInt (int (length items)))])) w)))"

text \<open>The \<^verbatim>\<open>/metrics\<close> branch (lines 53 to 67).\<close>

definition api_metrics_route :: "world \<Rightarrow> string \<Rightarrow> (exn + response) \<times> world" where
  "api_metrics_route w table =
     (case table_scan w table 100 of
        Inl e \<Rightarrow> (Inl e, w)
      | Inr items \<Rightarrow>
          (case revenue_sum (float_of_str w) items of
             Inl e \<Rightarrow> (Inl e, w)
           | Inr total_revenue \<Rightarrow>
               (let (t, w1) = now w
                in case api_metrics_dict (isoformat t) (int (length items))
                          (count_converted items) total_revenue of
                     Inl e \<Rightarrow> (Inl e, w1)
                   | Inr metrics \<Rightarrow>
                       respond 200 json_headers (json_dumps no_default (VDict metrics)) w1)))"

text \<open>The \<^verbatim>\<open>/trigger-processing\<close> branch (lines 69 to 76).\<close>

definition api_trigger :: "world \<Rightarrow> (exn + response) \<times> world" where
  "api_trigger w =
     (case json_dumps no_default (VDict [(''action'', VStr ''aggregate'')]) of
        Inl e \<Rightarrow> (Inl e, w)
      | Inr payload \<Rightarrow>
          (case lambda_invoke w ''customer-analytics-processor'' payload of
             (Inl e, w1) \<Rightarrow> (Inl e, w1)
           | (Inr request_id, w1) \<Rightarrow>
               respond 202 None
                 (json_dumps no_default
                    (VDict [(''message'', VStr ''Processing triggered''),
                            (''requestId'', VStr request_id)])) w1))"

text \<open>The body of the \<^verbatim>\<open>try\<close> block (lines 21 to 79).\<close>

definition api_try :: "world \<Rightarrow> pyval \<Rightarrow> (exn + response) \<times> world" where
  "api_try w event =
     (case py_get event ''httpMethod'' (VStr ''GET'') of
        Inl e \<Rightarrow> (Inl e, w)
      | Inr http_method \<Rightarrow>
          (case py_get event ''path'' (VStr ''/'') of
             Inl e \<Rightarrow> (Inl e, w)
           | Inr path \<Rightarrow>
               (case dynamodb_Table (map_of (environ w) ''DYNAMODB_TABLE'') of
                  Inl e \<Rightarrow> (Inl e, w)
                | Inr table \<Rightarrow>
                    if path = VStr ''/health'' then api_health w
                    else if path = VStr ''/customer'' \<and> http_method = VStr ''GET''
                    then api_customer w event table
                    else if path = VStr ''/metrics'' \<and> http_method = VStr ''GET''
                    then api_metrics_route w table
                    else if path = VStr ''/trigger-processing'' \<and> http_method = VStr ''POST''
                    then api_trigger w
                    else respond 404 None
                           (json_dumps no_default
                              (VDict [(''error'', VStr ''Endpoint not found'')])) w)))"

text \<open>\<^verbatim>\<open>lambda_handler\<close> of \<^verbatim>\<open>customer-analytics-api/lambda_function.py\<close>.\<close>

definition api_lambda_handler :: "world \<Rightarrow> pyval \<Rightarrow> response \<times> world" where
  "api_lambda_handler w event = catch_all (api_try w event)"

section \<open>The processor handler\<close>

text \<open>\<^verbatim>\<open>str(n)\<close> of an int, for the f-strings.\<close>

function show_nat :: "nat \<Rightarrow> string" where
  "show_nat n =
     (if n < 10 then [char_of (48 + n)]
      else show_nat (n div 10) @ [char_of (48 + n mod 10)])"
  by pat_completeness auto
termination
  by (relation "measure id") auto

declare show_nat.simps [simp del]

definition show_int :: "int \<Rightarrow> string" where
  "show_int i = (if i < 0 then CHR ''-'' # show_nat (nat (- i)) else show_nat (nat i))"

text \<open>\<^verbatim>\<open>s.split(sep)\<close> for a separator of one character.\<close>

fun split_on :: "char \<Rightarrow> string \<Rightarrow> string list" where
  "split_on sep [] = [[]]"
| "split_on sep (c # cs) =
     (if c = sep then [] # split_on sep cs
      else (case split_on sep cs of
              [] \<Rightarrow> [[c]]
            | piece # pieces \<Rightarrow> (c # piece) # pieces))"

definition bind_exn :: "exn + 'a \<Rightarrow> ('a \<Rightarrow> exn + 'b) \<Rightarrow> exn + 'b" where
  "bind_exn r f = (case r of Inl e \<Rightarrow> Inl e | Inr x \<Rightarrow> f x)"

text \<open>
  \<^verbatim>\<open>record['s3']['bucket']['name']\<close> and \<^verbatim>\<open>record['s3']['object']['key']\<close> (lines 23
  and 24), in this order.
\<close>

definition s3_location :: "pyval \<Rightarrow> exn + pyval \<times> pyval" where
  "s3_location record =
     bind_exn (py_getitem record ''s3'') (\<lambda>s3.
     bind_exn (py_getitem s3 ''bucket'') (\<lambda>b.
     bind_exn (py_getitem b ''name'') (\<lambda>bucket.
     bind_exn (py_getitem record ''s3'') (\<lambda>s3'.
     bind_exn (py_getitem s3' ''object'') (\<lambda>ob.
     bind_exn (py_getitem ob ''key'') (\<lambda>key. Inr (bucket, key)))))))"

text \<open>The body of \<^verbatim>\<open>if 's3' in record:\<close> (lines 23 to 39).\<close>

definition process_s3_record :: "world \<Rightarrow> pyval \<Rightarrow> (exn + response) \<times> world" where
  "process_s3_record w record =
     (case s3_location record of
        Inl e \<Rightarrow> (Inl e, w)
      | Inr (VStr bucket, VStr key) \<Rightarrow>
          (case s3_get_text w bucket key of
             Inl e \<Rightarrow> (Inl e, w)
           | Inr data \<Rightarrow>
               (let lines = split_on (CHR 0x0A) data;
                    record_count = int (length lines) - 1;
                    w1 = print (''Processed '' @ key @ '': '' @ show_int record_count @ '' records'') w
                in respond 200 None
                     (json_dumps no_default
                        (VDict [(''message'',
                                 VStr (''Processed '' @ show_int record_count @
                                       '' records from '' @ key))])) w1))
      | Inr _ \<Rightarrow>
          (Inl (Exn ''ParamValidationError''
                  ''Parameter validation failed: invalid type for parameter''), w))"

text \<open>
  The loop \<^verbatim>\<open>for record in event['Records']\<close> (lines 21 to 39): the first record that
  holds \<^verbatim>\<open>'s3'\<close> ends the handler; \<open>None\<close> is the loop running to its end.
\<close>

fun process_records :: "world \<Rightarrow> pyval list \<Rightarrow> (exn + response option) \<times> world" where
  "process_records w [] = (Inr None, w)"
| "process_records w (record # records) =
     (case py_contains ''s3'' record of
        Inl e \<Rightarrow> (Inl e, w)
      | Inr True \<Rightarrow>
          (case process_s3_record w record of
             (Inl e, w1) \<Rightarrow> (Inl e, w1)
           | (Inr resp, w1) \<Rightarrow> (Inr (Some resp), w1))
      | Inr False \<Rightarrow> process_records w records)"

text \<open>
  The \<^verbatim>\<open>aggregate\<close> action (lines 44 to 68). \<^verbatim>\<open>json.dumps\<close> is given \<^verbatim>\<open>default=str\<close>
  there; the hook is consulted only for values that are not of a JSON type, and the metrics
  hold a string, two ints and an int or a float, so the serialiser behaves as without it.
\<close>

definition aggregate_action :: "world \<Rightarrow> (exn + response) \<times> world" where
  "aggregate_action w =
     (case dynamodb_Table (map_of (environ w) ''DYNAMODB_TABLE'') of
        Inl e \<Rightarrow> (Inl e, w)
      | Inr table \<Rightarrow>
          (case table_scan w table 100 of
             Inl e \<Rightarrow> (Inl e, w)
           | Inr items \<Rightarrow>
               (let (t, w1) = now w
                in case processor_metrics (isoformat t) items of
                     Inl e \<Rightarrow> (Inl e, w1)
                   | Inr metrics \<Rightarrow>
                       (let (t2, w2) = now w1;
                            key = ''metrics/'' @ strftime_compact t2 @ ''_metrics.json''
                        in case json_dumps no_default (VDict metrics) of
                             Inl e \<Rightarrow> (Inl e, w2)
                           | Inr text \<Rightarrow>
                               (case s3_put_object w2 (map_of (environ w) ''S3_BUCKET'') key text
                                       ''application/json'' of
                                  (Some e, w3) \<Rightarrow> (Inl e, w3)
                                | (None, w3) \<Rightarrow>
                                    respond 200 None (json_dumps no_default (VDict metrics)) w3)))))"

definition processor_ready :: "world \<Rightarrow> (exn + response) \<times> world" where
  "processor_ready w =
     respond 200 None
       (json_dumps no_default (VDict [(''message'', VStr ''Data processor ready'')])) w"

text \<open>The direct invocation (lines 42 to 73).\<close>

definition direct_invocation :: "world \<Rightarrow> pyval \<Rightarrow> (exn + response) \<times> world" where
  "direct_invocation w event =
     (case py_contains ''action'' event of
        Inl e \<Rightarrow> (Inl e, w)
      | Inr True \<Rightarrow>
          (case py_getitem event ''action'' of
             Inl e \<Rightarrow> (Inl e, w)
           | Inr action \<Rightarrow>
               if action = VStr ''aggregate'' then aggregate_action w else processor_ready w)
      | Inr False \<Rightarrow> processor_ready w)"

text \<open>The body of the \<^verbatim>\<open>try\<close> block (lines 16 to 73).\<close>

definition processor_try :: "world \<Rightarrow> pyval \<Rightarrow> (exn + response) \<times> world" where
  "processor_try w event =
     (case py_contains ''Records'' event of
        Inl e \<Rightarrow> (Inl e, w)
      | Inr has_records \<Rightarrow>
          (case (if has_records
                 then (case py_getitem event ''Records'' of
                         Inl e \<Rightarrow> (Inl e, w)
                       | Inr rs \<Rightarrow>
                           (case py_iter rs of
                              Inl e \<Rightarrow> (Inl e, w)
                            | Inr records \<Rightarrow> process_records w records))
                 else (Inr None, w)) of
             (Inl e, w1) \<Rightarrow> (Inl e, w1)
           | (Inr (Some resp), w1) \<Rightarrow> (Inr resp, w1)
           | (Inr None, w1) \<Rightarrow> direct_invocation w1 event))"

text \<open>\<^verbatim>\<open>lambda_handler\<close> of \<^verbatim>\<open>customer-analytics-processor/lambda_function.py\<close>.\<close>

definition processor_lambda_handler :: "world \<Rightarrow> pyval \<Rightarrow> response \<times> world" where
  "processor_lambda_handler w event = catch_all (processor_try w event)"

section \<open>Reference definitions and sample data\<close>

text \<open>
  The specification's reading of \<^verbatim>\<open>total_revenue\<close>: the cart values are added as exact
  decimals and the sum is rounded once to two places (ties to even). A decimal is a pair of
  coefficient and exponent; the rounded sum is counted in hundredths and returned as the
  float that prints it.
\<close>

definition cart_decimal :: "item \<Rightarrow> int \<times> int" where
  "cart_decimal it =
     (case dict_get it ''cart_value'' (VDec 0 0) of VDec c e \<Rightarrow> (c, e) | _ \<Rightarrow> (0, 0))"

fun dec_add :: "int \<times> int \<Rightarrow> int \<times> int \<Rightarrow> int \<times> int" where
  "dec_add (c1, e1) (c2, e2) =
     (let e = min e1 e2 in (c1 * 10 ^ nat (e1 - e) + c2 * 10 ^ nat (e2 - e), e))"

fun dec_cents :: "int \<times> int \<Rightarrow> int" where
  "dec_cents (c, e) =
     (if - 2 \<le> e then c * 10 ^ nat (e + 2) else round_half_even c (10 ^ nat (- e - 2)))"

definition spec_total_revenue :: "item list \<Rightarrow> pyval" where
  "spec_total_revenue items =
     VFloat (dec_float (dec_cents (foldl dec_add (0, 0) (map cart_decimal items))) (- 2))"

text \<open>
  The real number a finite float stands for, and the floats that are finite. \<open>tiny\<close> is
  the smallest normal double and \<open>huge\<close> a power of two below the largest one.
\<close>

definition fval :: "pyfloat \<Rightarrow> real" where
  "fval x = (case x of Fin m e \<Rightarrow> of_int m * 2 powi e | _ \<Rightarrow> 0)"

definition is_fin :: "pyfloat \<Rightarrow> bool" where
  "is_fin x = (case x of Fin m e \<Rightarrow> True | _ \<Rightarrow> False)"

definition tiny :: real where "tiny = 2 powi (- 1022)"

definition huge :: real where "huge = 2 powi 1023"

text \<open>
  A float that is one rounding away from a non-negative amount \<open>v\<close>, where \<open>v\<close> is zero or at
  least one cent.
\<close>

definition near :: "pyfloat \<Rightarrow> real \<Rightarrow> bool" where
  "near x v = (is_fin x \<and> 0 \<le> v \<and> \<bar>fval x - v\<bar> \<le> v / 2 ^ 53 \<and> (v = 0 \<or> 1 / 100 \<le> v))"

text \<open>
  A record whose cart value is absent or a non-negative decimal with at most two decimal
  places (as \<^verbatim>\<open>aws_dynamodb_setup.py\<close> writes them), its cart value in cents, and the total
  of a batch in cents.
\<close>

definition whole_cents :: "item \<Rightarrow> bool" where
  "whole_cents it =
     (case dict_get it ''cart_value'' (VDec 0 0) of VDec c e \<Rightarrow> 0 \<le> c \<and> - 2 \<le> e | _ \<Rightarrow> False)"

definition cart_cents :: "item \<Rightarrow> int" where
  "cart_cents it = (case cart_decimal it of (c, e) \<Rightarrow> c * 10 ^ nat (e + 2))"

definition total_cents :: "item list \<Rightarrow> int" where
  "total_cents items = sum_list (map cart_cents items)"

text \<open>
  The number of lines of a text: every newline character ends a line, and what follows the
  last newline, if anything, is a line too.
\<close>

definition line_count :: "string \<Rightarrow> nat" where
  "line_count data =
     count_list data (CHR 0x0A) + (if data = [] \<or> last data = CHR 0x0A then 0 else 1)"

text \<open>
  The shapes of the events of the processor. The values that \<^verbatim>\<open>in\<close> and \<^verbatim>\<open>for\<close> apply to
  are the objects, arrays, sets and strings; \<open>has_member k v\<close> is what \<^verbatim>\<open>k in v\<close> gives on
  them (a key of an object, an element of an array, a part of a string), \<open>elements v\<close> what
  a loop over \<open>v\<close> visits, and \<open>entry k v\<close> the value an object holds under \<open>k\<close>. An array or
  a string has no entries: it cannot be indexed by a name.
\<close>

fun container :: "pyval \<Rightarrow> bool" where
  "container (VDict kvs) = True"
| "container (VList xs) = True"
| "container (VSet xs) = True"
| "container (VStr s) = True"
| "container v = False"

fun has_member :: "string \<Rightarrow> pyval \<Rightarrow> bool" where
  "has_member k (VDict kvs) = (map_of kvs k \<noteq> None)"
| "has_member k (VList xs) = (VStr k \<in> set xs)"
| "has_member k (VSet xs) = (VStr k \<in> set xs)"
| "has_member k (VStr s) = contains_str k s"
| "has_member k v = False"

fun elements :: "pyval \<Rightarrow> pyval list" where
  "elements (VList xs) = xs"
| "elements (VSet xs) = xs"
| "elements (VDict kvs) = map (\<lambda>kv. VStr (fst kv)) kvs"
| "elements (VStr s) = map (\<lambda>c. VStr [c]) s"
| "elements v = []"

fun entry :: "string \<Rightarrow> pyval \<Rightarrow> pyval option" where
  "entry k (VDict kvs) = map_of kvs k"
| "entry k v = None"

text \<open>
  A record without \<^verbatim>\<open>s3\<close>: an object, array, set or string in which \<^verbatim>\<open>s3\<close> does not occur.
  The records of an event are plain when \<^verbatim>\<open>Records\<close> does not occur in the event, or is an
  entry whose elements are all records without \<^verbatim>\<open>s3\<close>.
\<close>

definition no_s3 :: "pyval \<Rightarrow> bool" where
  "no_s3 r = (container r \<and> \<not> has_member ''s3'' r)"

definition plain_records :: "pyval \<Rightarrow> bool" where
  "plain_records event =
     (\<not> has_member ''Records'' event \<or>
      (case entry ''Records'' event of
         None \<Rightarrow> False
       | Some rs \<Rightarrow> container rs \<and> list_all no_s3 (elements rs)))"

text \<open>
  The events the claim is about, in three classes. An accepted event has plain records and
  no \<^verbatim>\<open>action\<close>, or an \<^verbatim>\<open>action\<close> entry other than \<^verbatim>\<open>"aggregate"\<close>. A malformed event is one
  on which a test of the handler cannot be evaluated: the event is null, a number or a
  boolean; it is an array or a string in which \<^verbatim>\<open>Records\<close> or \<^verbatim>\<open>action\<close> occurs; its
  \<^verbatim>\<open>Records\<close> entry is null, a number or a boolean; or the first element of that entry
  that is not a record without \<^verbatim>\<open>s3\<close> is null, a number or a boolean. Every other event
  holds a record in which \<^verbatim>\<open>s3\<close> occurs, or the action \<^verbatim>\<open>"aggregate"\<close>.
\<close>

definition accepted_event :: "pyval \<Rightarrow> bool" where
  "accepted_event event =
     (container event \<and> plain_records event \<and>
      (\<not> has_member ''action'' event \<or>
       (case entry ''action'' event of None \<Rightarrow> False | Some a \<Rightarrow> a \<noteq> VStr ''aggregate'')))"

definition malformed_event :: "pyval \<Rightarrow> bool" where
  "malformed_event event =
     (\<not> container event \<or>
      (has_member ''Records'' event \<and>
       (case entry ''Records'' event of
          None \<Rightarrow> True
        | Some rs \<Rightarrow>
            \<not> container rs \<or>
            (case dropWhile no_s3 (elements rs) of [] \<Rightarrow> False | r # post \<Rightarrow> \<not> container r))) \<or>
      (plain_records event \<and> has_member ''action'' event \<and> entry ''action'' event = None))"

definition holds_s3_record :: "pyval \<Rightarrow> bool" where
  "holds_s3_record event =
     (case entry ''Records'' event of
        None \<Rightarrow> False
      | Some rs \<Rightarrow> list_ex (has_member ''s3'') (elements rs))"

text \<open>
  Sample sessions, as \<^verbatim>\<open>aws_dynamodb_setup.py\<close> writes them (reduced to the attributes
  the handlers read), and a float parser for examples that hold no string to convert.
\<close>

definition reject_literal :: "string \<Rightarrow> exn + pyfloat" where
  "reject_literal s = Inl (Exn ''ValueError'' (''could not convert string to float: '' @ s))"

definition session :: "string \<Rightarrow> int \<Rightarrow> bool \<Rightarrow> int \<Rightarrow> int \<Rightarrow> item" where
  "session cid ts conv c e =
     [(''customer_id'', VStr cid), (''session_timestamp'', VDec ts 0),
      (''converted'', VBool conv), (''cart_value'', VDec c e)]"

definition unflagged_session :: "string \<Rightarrow> int \<Rightarrow> int \<Rightarrow> int \<Rightarrow> item" where
  "unflagged_session cid ts c e =
     [(''customer_id'', VStr cid), (''session_timestamp'', VDec ts 0), (''cart_value'', VDec c e)]"

definition without_timestamp :: "item \<Rightarrow> item" where
  "without_timestamp m = filter (\<lambda>kv. fst kv \<noteq> ''timestamp'') m"

definition thirds_batch :: "item list" where
  "thirds_batch =
     [session ''CUST0001'' 1700000000 True 33333 (- 3),
      session ''CUST0002'' 1700000060 True 33333 (- 3),
      session ''CUST0003'' 1700000120 True 33334 (- 3)]"

definition large_batch :: "item list" where
  "large_batch =
     [session ''CUST0001'' 1700000000 True 1 16,
      session ''CUST0002'' 1700000060 True 1 0,
      session ''CUST0003'' 1700000120 True 1 0]"

definition cents_batch :: "item list" where
  "cents_batch =
     [session ''CUST0001'' 1700000000 True 12 0,
      session ''CUST0002'' 1700000060 True 1262 (- 3),
      session ''CUST0003'' 1700000120 True 3193 (- 3)]"

definition cents_batch_permuted :: "item list" where
  "cents_batch_permuted =
     [session ''CUST0001'' 1700000000 True 12 0,
      session ''CUST0003'' 1700000120 True 3193 (- 3),
      session ''CUST0002'' 1700000060 True 1262 (- 3)]"

definition whole_cents_batch :: "item list" where
  "whole_cents_batch =
     [session ''CUST0001'' 1700000000 True 15371 (- 2),
      session ''CUST0002'' 1700000060 True 28458 (- 2),
      session ''CUST0003'' 1700000120 False 808 (- 1)]"

definition whole_cents_batch_permuted :: "item list" where
  "whole_cents_batch_permuted =
     [session ''CUST0002'' 1700000060 True 28458 (- 2),
      session ''CUST0003'' 1700000120 False 808 (- 1),
      session ''CUST0001'' 1700000000 True 15371 (- 2)]"

definition scenario_batch :: "item list" where
  "scenario_batch =
     [session ''CUST0001'' 1700000000 True 15000 (- 2),
      session ''CUST0002'' 1700000060 False 0 0,
      session ''CUST0003'' 1700000120 False 0 0]"

text \<open>A session whose cart value is the null of the store.\<close>

definition unpriced_batch :: "item list" where
  "unpriced_batch =
     [[(''customer_id'', VStr ''CUST0001''), (''session_timestamp'', VDec 1700000000 0),
       (''converted'', VBool True), (''cart_value'', VNone)]]"

definition flagged_sessions_front :: "item list" where
  "flagged_sessions_front = [session ''CUST0001'' 1700000000 True 15000 (- 2)]"

definition flagged_sessions_back :: "item list" where
  "flagged_sessions_back = [session ''CUST0002'' 1700000060 False 0 0]"

text \<open>
  The values \<^verbatim>\<open>json.dumps\<close> can produce, and the values \<^verbatim>\<open>DecimalEncoder\<close> can
  serialise (everything but a Binary or a set, at any depth).
\<close>

fun is_json :: "pyval \<Rightarrow> bool" where
  "is_json (VDec c e) = False"
| "is_json (VBin b) = False"
| "is_json (VSet xs) = False"
| "is_json (VList xs) = list_all is_json xs"
| "is_json (VDict kvs) = list_all (\<lambda>kv. is_json (snd kv)) kvs"
| "is_json v = True"

fun serialisable :: "pyval \<Rightarrow> bool" where
  "serialisable (VBin b) = False"
| "serialisable (VSet xs) = False"
| "serialisable (VList xs) = list_all serialisable xs"
| "serialisable (VDict kvs) = list_all (\<lambda>kv. serialisable (snd kv)) kvs"
| "serialisable v = True"

text \<open>
  A sample world: both environment variables set, the table \<^verbatim>\<open>customer-behavior\<close> holding
  three sessions, one bucket with one CSV object (a header and two rows, each line ended by
  a newline, as \<^verbatim>\<open>generate_sample_data.py\<close> writes its files with \<^verbatim>\<open>to_csv\<close>), every
  service reachable. The other worlds differ from it in one component.
\<close>

text \<open>
  The size accounting of the sample worlds: the bytes of the attribute names and of the
  string values, and one byte for every other value. (DynamoDB counts no less for an
  item.)
\<close>

definition attribute_bytes :: "item \<Rightarrow> nat" where
  "attribute_bytes it =
     sum_list (map (\<lambda>kv. length (fst kv) + (case snd kv of VStr s \<Rightarrow> length s | _ \<Rightarrow> 1)) it)"

definition sample_clock :: "nat \<Rightarrow> datetime" where
  "sample_clock n =
     (if n = 0
      then \<lparr>isoformat = ''2024-01-02T03:04:05'', strftime_compact = ''20240102_030405''\<rparr>
      else \<lparr>isoformat = ''2024-01-02T03:04:06'', strftime_compact = ''20240102_030406''\<rparr>)"

definition sample_world :: world where
  "sample_world =
     \<lparr>environ = [(''S3_BUCKET'', ''customer-analytics-data''),
                 (''DYNAMODB_TABLE'', ''customer-behavior'')],
      clock = sample_clock,
      ticks = 0,
      float_of_str = reject_literal,
      tables = [(''customer-behavior'', scenario_batch)],
      item_bytes = attribute_bytes,
      dynamo_fault = None,
      bucket_names = [''customer-analytics-data''],
      s3_objects =
        [((''customer-analytics-data'', ''raw/transactions.csv''),
          Utf8 (''id,amount'' @ [CHR 0x0A] @ ''1,10.00'' @ [CHR 0x0A] @ ''2,12.50'' @ [CHR 0x0A]))],
      s3_fault = None,
      s3_puts = [],
      lambda_fault = None,
      lambda_request_id = ''0b0f5a6e-7d3c-4c55-9a45-1f2f6c1f0f11'',
      lambda_invocations = [],
      stdout = []\<rparr>"

definition unconfigured_world :: world where
  "unconfigured_world = sample_world\<lparr>environ := []\<rparr>"

definition bucketless_world :: world where
  "bucketless_world = sample_world\<lparr>bucket_names := []\<rparr>"

definition no_such_bucket :: exn where
  "no_such_bucket =
     Exn ''NoSuchBucket''
       (''An error occurred (NoSuchBucket) when calling the PutObject '' @
        ''operation: The specified bucket does not exist'')"

definition history_world :: world where
  "history_world =
     sample_world\<lparr>tables :=
       [(''customer-behavior'',
         [session ''CUST0001'' 1700000120 True 15000 (- 2),
          session ''CUST0002'' 1700000060 False 0 0,
          session ''CUST0001'' 1700000000 False 0 0])]\<rparr>"

text \<open>
  A table in which a session carries its \<^verbatim>\<open>actions\<close> as a string set, and a customer
  without sessions.
\<close>

definition tagged_session :: item where
  "tagged_session =
     [(''customer_id'', VStr ''CUST0001''), (''session_timestamp'', VDec 1700000000 0),
      (''actions'', VSet [VStr ''browse'', VStr ''add_to_cart'']),
      (''converted'', VBool False), (''cart_value'', VDec 0 0)]"

definition tagged_world :: world where
  "tagged_world = sample_world\<lparr>tables := [(''customer-behavior'', [tagged_session])]\<rparr>"

text \<open>
  A table in which one customer has five sessions of some 300 kilobytes each: more than a
  page holds.
\<close>

definition bulky_session :: "int \<Rightarrow> item" where
  "bulky_session ts =
     [(''customer_id'', VStr ''CUST0001''), (''session_timestamp'', VDec ts 0),
      (''notes'', VStr (replicate 300000 (CHR ''x'')))]"

definition bulky_world :: world where
  "bulky_world =
     sample_world\<lparr>tables :=
       [(''customer-behavior'',
         [bulky_session 1700000000, bulky_session 1700000060, bulky_session 1700000120,
          bulky_session 1700000180, bulky_session 1700000240])]\<rparr>"

definition stranger_event :: pyval where
  "stranger_event =
     VDict [(''httpMethod'', VStr ''GET''), (''path'', VStr ''/customer''),
            (''queryStringParameters'', VDict [(''customer_id'', VStr ''CUST0404'')])]"

text \<open>Sample events.\<close>

definition health_event :: pyval where
  "health_event = VDict [(''httpMethod'', VStr ''GET''), (''path'', VStr ''/health'')]"

definition customer_event :: pyval where
  "customer_event =
     VDict [(''httpMethod'', VStr ''GET''), (''path'', VStr ''/customer''),
            (''queryStringParameters'', VDict [(''customer_id'', VStr ''CUST0001'')])]"

definition aggregate_event :: pyval where
  "aggregate_event = VDict [(''action'', VStr ''aggregate'')]"

definition storage_event :: pyval where
  "storage_event =
     VDict [(''Records'',
             VList [VDict [(''eventSource'', VStr ''aws:s3''),
                           (''s3'', VDict [(''bucket'', VDict [(''name'', VStr ''customer-analytics-data'')]),
                                           (''object'', VDict [(''key'', VStr ''raw/transactions.csv'')])])]])]"

definition sns_event :: pyval where
  "sns_event =
     VDict [(''Records'', VList [VDict [(''EventSource'', VStr ''aws:sns'')]]),
            (''action'', VStr ''refresh'')]"

definition null_records_event :: pyval where
  "null_records_event = VDict [(''Records'', VNone)]"

definition empty_list_event :: pyval where
  "empty_list_event = VList []"

definition text_records_event :: pyval where
  "text_records_event = VDict [(''Records'', VList [VStr ''abc''])]"

definition numbered_records_event :: pyval where
  "numbered_records_event = VDict [(''Records'', VList [VInt 1])]"

section \<open>Lemmas about the arithmetic\<close>

lemma normalize_Fin: "\<exists>m' e'. normalize m e = Fin m' e'"
proof (induction m e rule: normalize.induct)
  case (1 m e)
  show ?case
  proof (cases "m = 0")
    case True
    then show ?thesis by (simp add: normalize.simps)
  next
    case nz: False
    show ?thesis
    proof (cases "even m")
      case True
      with nz 1 show ?thesis by (subst normalize.simps) simp
    next
      case False
      with nz show ?thesis by (subst normalize.simps) simp
    qed
  qed
qed

lemma bit_length_mono: "a \<le> b \<Longrightarrow> bit_length a \<le> bit_length b"
proof (induction b arbitrary: a rule: bit_length.induct)
  case (1 n)
  show ?case
  proof (cases "a \<le> 0")
    case True
    have "0 \<le> bit_length n"
    proof (induction n rule: bit_length.induct)
      case (1 k)
      then show ?case by (subst bit_length.simps) simp
    qed
    with True show ?thesis by (subst bit_length.simps) simp
  next
    case False
    with 1 have pos: "\<not> n \<le> 0" and le: "a div 2 \<le> n div 2"
      by (auto intro: zdiv_mono1)
    from 1(1)[OF pos le] have "bit_length (a div 2) \<le> bit_length (n div 2)" .
    with False pos show ?thesis
      by (subst bit_length.simps, subst (2) bit_length.simps) simp
  qed
qed

lemma floor_log2_le: "floor_log2 a d \<le> bit_length a - bit_length d"
  by (simp add: floor_log2_def Let_def)

text \<open>A quotient of at most one never overflows.\<close>

lemma round_double_fraction:
  assumes "0 \<le> a" "a \<le> d"
  shows "\<exists>m e. round_double a d = Fin m e"
proof (cases "a = 0")
  case True
  then show ?thesis by (simp add: round_double_def)
next
  case False
  with assms have abs: "\<bar>a\<bar> = a" by simp
  have "floor_log2 a d \<le> 0"
    using floor_log2_le [of a d] bit_length_mono [OF assms(2)] by simp
  then have neg: "\<not> 0 \<le> max (floor_log2 a d - 52) (- 1074)" by simp
  show ?thesis
    using False neg normalize_Fin
    by (simp add: round_double_def Let_def abs del: max.bounded_iff)
qed

lemma hundred: "round_double 100 1 = Fin 25 2"
  by code_simp

lemma conversion_rate_total:
  assumes "0 \<le> c" "c \<le> t"
  shows "\<exists>rate. conversion_rate c t = Inr rate"
proof (cases "0 < t")
  case False
  then show ?thesis by (simp add: conversion_rate_def)
next
  case True
  then have "sgn t * c = c" "\<bar>t\<bar> = t" by simp_all
  moreover obtain m e where "round_double c t = Fin m e"
    using round_double_fraction [OF assms] by blast
  ultimately have "int_truediv c t = Inr (Fin m e)"
    using True by (simp add: int_truediv_def)
  with True show ?thesis
    by (simp add: conversion_rate_def float_mul_int_def hundred)
qed

lemma py_sum_foldl:
  "py_sum xs = (if xs = [] then NInt 0 else NFloat (foldl fadd (Fin 0 0) xs))"
  by (cases xs) simp_all

section \<open>Lemmas about the aggregation\<close>

lemma json_encode_num: "json_encode hook (num_val n) = Inr (num_val n)"
  by (cases n) simp_all

lemma count_converted_mset: "mset xs = mset ys \<Longrightarrow> count_converted xs = count_converted ys"
proof -
  assume h: "mset xs = mset ys"
  have "length (filter P zs) = size (filter_mset P (mset zs))" for P and zs :: "item list"
    by (metis mset_filter size_mset)
  with h show ?thesis by (simp add: count_converted_def)
qed

lemma count_converted_insert:
  "count_converted (xs @ r # ys) =
     count_converted (xs @ ys) + (if truthy (dict_get r ''converted'' VNone) then 1 else 0)"
  by (simp add: count_converted_def)

lemma cart_values_ok_iff:
  "isl (cart_values sf items) \<longleftrightarrow>
     (\<exists>it \<in> set items. isl (py_float sf (dict_get it ''cart_value'' (VInt 0))))"
  by (induction items) (auto split: sum.splits)

lemma cart_values_length: "cart_values sf items = Inr vs \<Longrightarrow> length vs = length items"
  by (induction items arbitrary: vs) (auto split: sum.splits)

lemma revenue_sum_isl: "isl (revenue_sum sf items) = isl (cart_values sf items)"
  by (simp add: revenue_sum_def split: sum.splits)

lemma revenue_sum_shape:
  "revenue_sum sf items = Inr r \<Longrightarrow> (items = [] \<and> r = NInt 0) \<or> (items \<noteq> [] \<and> (\<exists>x. r = NFloat x))"
  unfolding revenue_sum_def
  by (cases items) (auto split: sum.splits)

lemma avg_cart_value_isl_float:
  "isl (avg_cart_value (NFloat x) c) = isl (avg_cart_value (NFloat y) c)"
  by (simp add: avg_cart_value_def float_div_int_def split: sum.splits pyfloat.splits)

lemma cart_values_all2:
  "cart_values sf items = Inr xs \<Longrightarrow>
     list_all2 (\<lambda>it x. py_float sf (dict_get it ''cart_value'' (VInt 0)) = Inr x) items xs"
  by (induction items arbitrary: xs) (auto split: sum.splits)

text \<open>What a metrics dictionary of the API holds, whenever the aggregation returns one.\<close>

lemma api_metrics_fields:
  assumes "api_metrics sf ts items = Inr m"
  shows "map_of m ''timestamp'' = Some (VStr ts)"
    and "map_of m ''total_sessions'' = Some (VInt (int (length items)))"
    and "map_of m ''conversions'' = Some (VInt (count_converted items))"
    and "\<exists>rate. conversion_rate (count_converted items) (int (length items)) = Inr rate
           \<and> map_of m ''conversion_rate'' = Some (num_val (py_round2 rate))"
    and "\<exists>vs avg. cart_values sf items = Inr vs
           \<and> avg_cart_value (py_sum vs) (count_converted items) = Inr avg
           \<and> map_of m ''total_revenue'' = Some (num_val (py_round2 (py_sum vs)))
           \<and> map_of m ''avg_cart_value'' = Some (num_val (py_round2 avg))"
  using assms
  by (auto simp: api_metrics_def api_metrics_dict_def revenue_sum_def split: sum.splits)

text \<open>The processor's aggregation always returns its dictionary.\<close>

lemma processor_metrics_total:
  "\<exists>rate. conversion_rate (count_converted items) (int (length items)) = Inr rate \<and>
     processor_metrics ts items =
       Inr [(''timestamp'', VStr ts),
            (''total_sessions'', VInt (int (length items))),
            (''total_conversions'', VInt (count_converted items)),
            (''conversion_rate'', num_val rate)]"
proof -
  have "0 \<le> count_converted items" "count_converted items \<le> int (length items)"
    by (simp_all add: count_converted_def)
  then obtain rate where "conversion_rate (count_converted items) (int (length items)) = Inr rate"
    using conversion_rate_total by blast
  then show ?thesis by (simp add: processor_metrics_def)
qed

lemma api_metrics_dict_isl:
  assumes "0 \<le> c" "c \<le> n"
  shows "isl (api_metrics_dict ts n c r) = isl (avg_cart_value r c)"
proof -
  obtain rate where "conversion_rate c n = Inr rate"
    using conversion_rate_total [OF assms] by blast
  then show ?thesis
    by (simp add: api_metrics_dict_def split: sum.splits)
qed

text \<open>
  The API's aggregation raises exactly when a cart value does not convert, or when the
  number of conversions is too large for a float.
\<close>

lemma api_metrics_isl:
  "isl (api_metrics sf ts items) \<longleftrightarrow>
     isl (cart_values sf items) \<or>
     (items \<noteq> [] \<and> isl (avg_cart_value (NFloat (Fin 0 0)) (count_converted items)))"
proof (cases "revenue_sum sf items")
  case (Inl e)
  then have "isl (cart_values sf items)"
    using revenue_sum_isl [of sf items] by simp
  with Inl show ?thesis by (simp add: api_metrics_def)
next
  case (Inr r)
  then have ok: "\<not> isl (cart_values sf items)"
    using revenue_sum_isl [of sf items] by simp
  have dict: "isl (api_metrics sf ts items) = isl (avg_cart_value r (count_converted items))"
    using Inr api_metrics_dict_isl [of "count_converted items" "int (length items)" ts r]
    by (simp add: api_metrics_def count_converted_def)
  from revenue_sum_shape [OF Inr] show ?thesis
  proof
    assume "items = [] \<and> r = NInt 0"
    with dict ok show ?thesis by (simp add: avg_cart_value_def count_converted_def)
  next
    assume "items \<noteq> [] \<and> (\<exists>x. r = NFloat x)"
    then obtain x where "items \<noteq> []" "r = NFloat x" by blast
    with dict ok avg_cart_value_isl_float [of x "count_converted items" "Fin 0 0"]
    show ?thesis by simp
  qed
qed

subsection \<open>The sample batches, evaluated\<close>

lemma thirds_eval:
  "api_metrics strtod ts thirds_batch =
     Inr [(''timestamp'', VStr ts), (''total_sessions'', VInt 3), (''conversions'', VInt 3),
          (''conversion_rate'', VFloat (Fin 25 2)), (''total_revenue'', VFloat (Fin 25 2)),
          (''avg_cart_value'', VFloat (Fin 2345390243441541 (- 46)))]"
  by code_simp

lemma large_eval:
  "api_metrics strtod ts large_batch =
     Inr [(''timestamp'', VStr ts), (''total_sessions'', VInt 3), (''conversions'', VInt 3),
          (''conversion_rate'', VFloat (Fin 25 2)), (''total_revenue'', VFloat (Fin 152587890625 16)),
          (''avg_cart_value'', VFloat (Fin 6666666666666667 (- 1)))]"
  by code_simp

lemma large_spec: "spec_total_revenue large_batch = VFloat (Fin 5000000000000001 1)"
  by code_simp

lemma thirds_spec: "spec_total_revenue thirds_batch = VFloat (Fin 25 2)"
  by code_simp

lemma cents_eval:
  "api_metrics strtod ts cents_batch =
     Inr [(''timestamp'', VStr ts), (''total_sessions'', VInt 3), (''conversions'', VInt 3),
          (''conversion_rate'', VFloat (Fin 25 2)), (''total_revenue'', VFloat (Fin 2316539058328699 (- 47))),
          (''avg_cart_value'', VFloat (Fin 3090595244283003 (- 49)))]"
  by code_simp

lemma cents_permuted_eval:
  "api_metrics strtod ts cents_batch_permuted =
     Inr [(''timestamp'', VStr ts), (''total_sessions'', VInt 3), (''conversions'', VInt 3),
          (''conversion_rate'', VFloat (Fin 25 2)), (''total_revenue'', VFloat (Fin 4630263366890291 (- 48))),
          (''avg_cart_value'', VFloat (Fin 1542482872374395 (- 48)))]"
  by code_simp

lemma cents_perm: "mset cents_batch = mset cents_batch_permuted"
  by (simp add: cents_batch_def cents_batch_permuted_def)

text \<open>
  Cart values in whole cents, in the ranges \<^verbatim>\<open>aws_dynamodb_setup.py\<close> draws them from:
  153.71 and 284.58 converted, 80.8 not. The average is 259.54 in this order and 259.55 in
  the order 284.58, 80.8, 153.71.
\<close>

lemma whole_cents_eval:
  "api_metrics strtod ts whole_cents_batch =
     Inr [(''timestamp'', VStr ts), (''total_sessions'', VInt 3), (''conversions'', VInt 2),
          (''conversion_rate'', VFloat (Fin 4691484174324859 (- 46))),
          (''total_revenue'', VFloat (Fin 4565963926897951 (- 43))),
          (''avg_cart_value'', VFloat (Fin 4565875965967729 (- 44)))]"
  by code_simp

lemma whole_cents_permuted_eval:
  "api_metrics strtod ts whole_cents_batch_permuted =
     Inr [(''timestamp'', VStr ts), (''total_sessions'', VInt 3), (''conversions'', VInt 2),
          (''conversion_rate'', VFloat (Fin 4691484174324859 (- 46))),
          (''total_revenue'', VFloat (Fin 4565963926897951 (- 43))),
          (''avg_cart_value'', VFloat (Fin 4566051887828173 (- 44)))]"
  by code_simp

lemma whole_cents_spec:
  "spec_total_revenue whole_cents_batch = VFloat (Fin 4565963926897951 (- 43))"
  by code_simp

lemma whole_cents_sample:
  "list_all whole_cents whole_cents_batch \<and> length whole_cents_batch \<le> 100 \<and>
   total_cents whole_cents_batch \<le> 10 ^ 12"
  by (simp add: whole_cents_batch_def session_def whole_cents_def dict_get_def total_cents_def
      cart_cents_def cart_decimal_def)

lemma whole_cents_perm: "mset whole_cents_batch = mset whole_cents_batch_permuted"
  by (simp add: whole_cents_batch_def whole_cents_batch_permuted_def add_mset_commute)

lemma whole_cents_count: "count_converted whole_cents_batch = 2"
  by code_simp

lemma scenario_api:
  "api_metrics strtod ts scenario_batch =
     Inr [(''timestamp'', VStr ts), (''total_sessions'', VInt 3), (''conversions'', VInt 1),
          (''conversion_rate'', VFloat (Fin 2345390243441541 (- 46))), (''total_revenue'', VFloat (Fin 75 1)),
          (''avg_cart_value'', VFloat (Fin 75 1))]"
  by code_simp

lemma scenario_processor:
  "processor_metrics ts scenario_batch =
     Inr [(''timestamp'', VStr ts), (''total_sessions'', VInt 3), (''total_conversions'', VInt 1),
          (''conversion_rate'', VFloat (Fin 2345624805922133 (- 46)))]"
  by code_simp

lemma flagged_eval:
  "api_metrics strtod ts (flagged_sessions_front @ flagged_sessions_back) =
     Inr [(''timestamp'', VStr ts), (''total_sessions'', VInt 2), (''conversions'', VInt 1),
          (''conversion_rate'', VFloat (Fin 25 1)), (''total_revenue'', VFloat (Fin 75 1)),
          (''avg_cart_value'', VFloat (Fin 75 1))]"
  by code_simp

lemma unflagged_eval:
  "api_metrics strtod ts
     (flagged_sessions_front @ unflagged_session ''CUST0003'' 1700000120 4999 (- 2) # flagged_sessions_back) =
     Inr [(''timestamp'', VStr ts), (''total_sessions'', VInt 3), (''conversions'', VInt 1),
          (''conversion_rate'', VFloat (Fin 2345390243441541 (- 46))),
          (''total_revenue'', VFloat (Fin 879565321755689 (- 42))),
          (''avg_cart_value'', VFloat (Fin 879565321755689 (- 42)))]"
  by code_simp

lemma unflagged_absent:
  "case map_of (unflagged_session ''CUST0003'' 1700000120 4999 (- 2)) ''converted'' of
     None \<Rightarrow> True | Some v \<Rightarrow> \<not> truthy v"
  by (simp add: unflagged_session_def)

section \<open>The revenue sum on whole cents\<close>

text \<open>
  How far the float operations are from the exact values: the bounds on the leading-bit
  exponent, the error of one rounding, of one addition, and of a left-to-right sum of at
  most 100 non-negative terms.
\<close>

subsection \<open>The leading bit\<close>

lemma bit_length_pos: "0 < n \<Longrightarrow> 1 \<le> bit_length n"
proof -
  have nonneg: "0 \<le> bit_length k" for k
  proof (induction k rule: bit_length.induct)
    case (1 k)
    then show ?case by (subst bit_length.simps) simp
  qed
  assume "0 < n"
  then show ?thesis
    using nonneg [of "n div 2"] by (subst bit_length.simps) simp
qed

lemma bit_length_bounds:
  "0 < n \<Longrightarrow> 2 ^ nat (bit_length n - 1) \<le> n \<and> n < 2 ^ nat (bit_length n)"
proof (induction n rule: bit_length.induct)
  case (1 n)
  from 1(2) have step: "bit_length n = 1 + bit_length (n div 2)"
    by (subst bit_length.simps) simp
  show ?case
  proof (cases "n div 2 = 0")
    case True
    with 1(2) have "n = 1" by presburger
    moreover have "bit_length (1::int) = 1"
      by (subst bit_length.simps, subst bit_length.simps) simp
    ultimately show ?thesis by simp
  next
    case False
    with 1(2) have pos: "0 < n div 2" by presburger
    from 1(1) pos 1(2) have ih: "2 ^ nat (bit_length (n div 2) - 1) \<le> n div 2"
      "n div 2 < 2 ^ nat (bit_length (n div 2))"
      by simp_all
    have b1: "1 \<le> bit_length (n div 2)" using pos by (rule bit_length_pos)
    then have e1: "nat (bit_length n - 1) = Suc (nat (bit_length (n div 2) - 1))"
      and e2: "nat (bit_length n) = Suc (nat (bit_length (n div 2)))"
      using step by simp_all
    have "2 * (n div 2) \<le> n" "n \<le> 2 * (n div 2) + 1" by presburger+
    with ih show ?thesis unfolding e1 e2 by simp
  qed
qed

lemma floor_log2_bounds:
  assumes "0 < a" "0 < d"
  shows "2 powi (floor_log2 a d) \<le> real_of_int a / real_of_int d"
    and "real_of_int a / real_of_int d < 2 powi (floor_log2 a d + 1)"
proof -
  define i where "i = bit_length a"
  define j where "j = bit_length d"
  have i1: "1 \<le> i" and j1: "1 \<le> j"
    using assms bit_length_pos by (simp_all add: i_def j_def)
  have a_lo: "(2::real) powi (i - 1) \<le> real_of_int a" and a_hi: "real_of_int a < 2 powi i"
    and d_lo: "(2::real) powi (j - 1) \<le> real_of_int d" and d_hi: "real_of_int d < 2 powi j"
  proof -
    from bit_length_bounds [OF assms(1)] have "2 ^ nat (i - 1) \<le> a" "a < 2 ^ nat i"
      by (simp_all add: i_def)
    then have "real_of_int (2 ^ nat (i - 1)) \<le> real_of_int a" "real_of_int a < real_of_int (2 ^ nat i)"
      by linarith+
    then show "(2::real) powi (i - 1) \<le> real_of_int a" "real_of_int a < 2 powi i"
      using i1 by (simp_all add: power_int_nonneg_exp)
    from bit_length_bounds [OF assms(2)] have "2 ^ nat (j - 1) \<le> d" "d < 2 ^ nat j"
      by (simp_all add: j_def)
    then have "real_of_int (2 ^ nat (j - 1)) \<le> real_of_int d" "real_of_int d < real_of_int (2 ^ nat j)"
      by linarith+
    then show "(2::real) powi (j - 1) \<le> real_of_int d" "real_of_int d < 2 powi j"
      using j1 by (simp_all add: power_int_nonneg_exp)
  qed
  have dpos: "0 < real_of_int d" and apos: "0 < real_of_int a" using assms by simp_all
  have test: "(if 0 \<le> i - j then d * 2 ^ nat (i - j) \<le> a else d \<le> a * 2 ^ nat (- (i - j)))
      \<longleftrightarrow> (2::real) powi (i - j) \<le> real_of_int a / real_of_int d"
  proof (cases "0 \<le> i - j")
    case True
    have "d * 2 ^ nat (i - j) \<le> a \<longleftrightarrow> real_of_int (d * 2 ^ nat (i - j)) \<le> real_of_int a"
      by linarith
    also have "\<dots> \<longleftrightarrow> real_of_int d * 2 powi (i - j) \<le> real_of_int a"
      using True by (simp add: power_int_nonneg_exp)
    also have "\<dots> \<longleftrightarrow> (2::real) powi (i - j) \<le> real_of_int a / real_of_int d"
      using dpos by (simp add: field_simps)
    finally show ?thesis using True by simp
  next
    case False
    then have neg: "0 \<le> - (i - j)" by simp
    have "d \<le> a * 2 ^ nat (- (i - j)) \<longleftrightarrow> real_of_int d \<le> real_of_int (a * 2 ^ nat (- (i - j)))"
      by linarith
    also have "\<dots> \<longleftrightarrow> real_of_int d \<le> real_of_int a * 2 powi (- (i - j))"
      using neg by (simp add: power_int_nonneg_exp)
    also have "\<dots> \<longleftrightarrow> real_of_int d * 2 powi (i - j) \<le> real_of_int a"
    proof -
      have "real_of_int a * 2 powi (- (i - j)) = real_of_int a / 2 powi (i - j)"
        using power_int_minus_divide [of "2::real" "i - j"] by simp
      moreover have "0 < (2::real) powi (i - j)" by simp
      ultimately show ?thesis
        using pos_le_divide_eq [of "2 powi (i - j)" "real_of_int d" "real_of_int a"] by simp
    qed
    also have "\<dots> \<longleftrightarrow> (2::real) powi (i - j) \<le> real_of_int a / real_of_int d"
      using dpos by (simp add: field_simps)
    finally show ?thesis using False by simp
  qed
  have up: "real_of_int a / real_of_int d < 2 powi (i - j + 1)"
  proof -
    have "real_of_int a / real_of_int d < 2 powi i / 2 powi (j - 1)"
      using a_hi d_lo dpos apos by (intro frac_less) simp_all
    also have "\<dots> = 2 powi (i - (j - 1))"
      using power_int_diff [of "2::real" i "j - 1"] by simp
    also have "i - (j - 1) = i - j + 1" by simp
    finally show ?thesis .
  qed
  have low: "(2::real) powi (i - j - 1) \<le> real_of_int a / real_of_int d"
  proof -
    have "(2::real) powi (i - j - 1) = 2 powi ((i - 1) - j)"
      by (simp add: algebra_simps)
    also have "\<dots> = 2 powi (i - 1) / 2 powi j"
      by (rule power_int_diff) simp
    also have "\<dots> \<le> real_of_int a / real_of_int d"
      using a_lo d_hi dpos apos by (intro frac_le) simp_all
    finally show ?thesis .
  qed
  have "floor_log2 a d =
      (if (if 0 \<le> i - j then d * 2 ^ nat (i - j) \<le> a else d \<le> a * 2 ^ nat (- (i - j)))
       then i - j else i - j - 1)"
    unfolding floor_log2_def Let_def i_def j_def ..
  then have fl: "floor_log2 a d =
      (if (2::real) powi (i - j) \<le> real_of_int a / real_of_int d then i - j else i - j - 1)"
    by (simp only: test)
  show "2 powi (floor_log2 a d) \<le> real_of_int a / real_of_int d"
  proof (cases "(2::real) powi (i - j) \<le> real_of_int a / real_of_int d")
    case True
    with fl show ?thesis by simp
  next
    case False
    with fl low show ?thesis by simp
  qed
  show "real_of_int a / real_of_int d < 2 powi (floor_log2 a d + 1)"
  proof (cases "(2::real) powi (i - j) \<le> real_of_int a / real_of_int d")
    case True
    with fl up show ?thesis by simp
  next
    case False
    with fl show ?thesis by simp
  qed
qed

subsection \<open>Rounding to an integer and to a double\<close>

lemma round_half_even_error:
  assumes "0 < d"
  shows "\<bar>real_of_int (round_half_even n d) - real_of_int n / real_of_int d\<bar> \<le> 1 / 2"
proof -
  define k where "k = n div d"
  define r where "r = n mod d"
  have n: "n = k * d + r" by (simp add: k_def r_def)
  have r: "0 \<le> r" "r < d" using assms by (simp_all add: r_def)
  have dpos: "0 < real_of_int d" using assms by simp
  have q: "real_of_int n / real_of_int d = real_of_int k + real_of_int r / real_of_int d"
    using dpos by (simp add: n field_simps)
  have frac: "0 \<le> real_of_int r / real_of_int d" "real_of_int r / real_of_int d < 1"
    using r dpos by simp_all
  consider "2 * r < d" | "d < 2 * r" | "2 * r = d" by linarith
  then show ?thesis
  proof cases
    case 1
    then have "round_half_even n d = k"
      by (simp add: round_half_even_def Let_def k_def r_def)
    moreover from 1 have "real_of_int r / real_of_int d \<le> 1 / 2"
      using dpos by (simp add: field_simps)
    ultimately show ?thesis using q frac by simp
  next
    case 2
    then have "round_half_even n d = k + 1"
      by (simp add: round_half_even_def Let_def k_def r_def)
    moreover from 2 have "1 / 2 \<le> real_of_int r / real_of_int d"
      using dpos by (simp add: field_simps)
    ultimately show ?thesis using q frac by simp
  next
    case 3
    then have "round_half_even n d = k \<or> round_half_even n d = k + 1"
      by (simp add: round_half_even_def Let_def k_def r_def)
    moreover from 3 have "real_of_int r / real_of_int d = 1 / 2"
      using dpos by (simp add: field_simps)
    ultimately show ?thesis using q by auto
  qed
qed

lemma round_half_even_unique:
  assumes "0 < d" and "\<bar>real_of_int t - real_of_int n / real_of_int d\<bar> < 1 / 2"
  shows "round_half_even n d = t"
proof -
  have "\<bar>real_of_int (round_half_even n d) - real_of_int t\<bar> < 1"
    using round_half_even_error [OF assms(1), of n] assms(2) by linarith
  then have "\<bar>round_half_even n d - t\<bar> < 1" by linarith
  then show ?thesis by simp
qed

lemma fval_normalize: "fval (normalize m e) = real_of_int m * 2 powi e"
proof (induction m e rule: normalize.induct)
  case (1 m e)
  show ?case
  proof (cases "m = 0")
    case True
    then show ?thesis by (subst normalize.simps) (simp add: fval_def)
  next
    case nz: False
    show ?thesis
    proof (cases "even m")
      case True
      then obtain h where h: "m = 2 * h" by (elim evenE)
      have "normalize m e = normalize (m div 2) (e + 1)"
        using nz True by (subst normalize.simps) simp
      also have "fval \<dots> = real_of_int (m div 2) * 2 powi (e + 1)"
        using 1 nz True by simp
      also have "\<dots> = real_of_int m * 2 powi e"
        using h by (simp add: power_int_add)
      finally show ?thesis .
    next
      case False
      with nz show ?thesis by (subst normalize.simps) (simp add: fval_def)
    qed
  qed
qed

lemma two_powi_less_imp: "(2::real) powi a < 2 powi b \<Longrightarrow> a < b"
proof (rule ccontr)
  assume lt: "(2::real) powi a < 2 powi b" and "\<not> a < b"
  then have "b \<le> a" by simp
  then have "(2::real) powi b \<le> 2 powi a" by (intro power_int_increasing) simp_all
  with lt show False by simp
qed

lemma round_double_error:
  assumes "0 < p" "0 < d"
    and lo: "2 powi (- 1022) \<le> real_of_int p / real_of_int d"
    and hi: "real_of_int p / real_of_int d < 2 powi 1023"
  shows "\<exists>m e. round_double p d = Fin m e \<and>
     \<bar>real_of_int m * 2 powi e - real_of_int p / real_of_int d\<bar>
       \<le> (real_of_int p / real_of_int d) / 2 ^ 53"
proof -
  define v where "v = real_of_int p / real_of_int d"
  define e where "e = floor_log2 p d"
  define q where "q = e - 52"
  define P where "P = (2::real) powi q"
  have vpos: "0 < v" using assms(1,2) by (simp add: v_def)
  have ppos: "0 < real_of_int p" and dpos: "0 < real_of_int d" using assms(1,2) by simp_all
  have e_lo: "2 powi e \<le> v" and e_hi: "v < 2 powi (e + 1)"
    using floor_log2_bounds [OF assms(1,2)] by (simp_all add: v_def e_def)
  have "(2::real) powi (- 1022) < 2 powi (e + 1)"
    using lo e_hi unfolding v_def by (rule le_less_trans)
  then have "- 1022 < e + 1" by (rule two_powi_less_imp)
  then have e1: "- 1022 \<le> e" by simp
  have "(2::real) powi e < 2 powi 1023"
    using e_lo hi unfolding v_def by (rule le_less_trans)
  then have "e < 1023" by (rule two_powi_less_imp)
  then have e2: "e \<le> 1022" by simp
  have qmax: "max (e - 52) (- 1074) = q" using e1 by (simp add: q_def)
  have Ppos: "0 < P" by (simp add: P_def)
  define m where "m = (if 0 \<le> q then round_half_even p (d * 2 ^ nat q)
                        else round_half_even (p * 2 ^ nat (- q)) d)"
  have merr: "\<bar>real_of_int m - v / P\<bar> \<le> 1 / 2"
  proof (cases "0 \<le> q")
    case True
    then have Pq: "P = 2 ^ nat q" by (simp add: P_def power_int_nonneg_exp)
    have "0 < d * 2 ^ nat q" using assms(2) by simp
    from round_half_even_error [OF this, of p]
    have "\<bar>real_of_int m - real_of_int p / (real_of_int d * 2 ^ nat q)\<bar> \<le> 1 / 2"
      using True by (simp add: m_def)
    moreover have "real_of_int p / (real_of_int d * 2 ^ nat q) = v / P"
      by (simp add: v_def Pq)
    ultimately show ?thesis by simp
  next
    case False
    then have nq: "0 \<le> - q" by simp
    have "(2::real) powi (- q) = 2 ^ nat (- q)" using nq by (simp add: power_int_nonneg_exp)
    moreover have "(2::real) powi (- q) = 1 / P"
      unfolding P_def by (rule power_int_minus_divide)
    ultimately have Pq: "1 / P = 2 ^ nat (- q)" by simp
    from round_half_even_error [OF assms(2), of "p * 2 ^ nat (- q)"]
    have "\<bar>real_of_int m - real_of_int p * 2 ^ nat (- q) / real_of_int d\<bar> \<le> 1 / 2"
      using False by (simp add: m_def)
    moreover have "real_of_int p * 2 ^ nat (- q) / real_of_int d = v / P"
      using Pq [symmetric] by (simp add: v_def)
    ultimately show ?thesis by simp
  qed
  have Pe: "2 powi e = P * 2 ^ 52"
  proof -
    have "(2::real) powi (q + 52) = 2 powi q * 2 powi 52" by (rule power_int_add) simp
    moreover have "q + 52 = e" by (simp add: q_def)
    ultimately show ?thesis by (simp add: P_def)
  qed
  have Pe1: "2 powi (e + 1) = P * 2 ^ 53"
  proof -
    have "(2::real) powi (q + 53) = 2 powi q * 2 powi 53" by (rule power_int_add) simp
    moreover have "q + 53 = e + 1" by (simp add: q_def)
    ultimately show ?thesis by (simp add: P_def)
  qed
  have "v < P * 2 ^ 53" using e_hi unfolding Pe1 .
  then have y_hi: "v / P < 2 ^ 53"
    using Ppos by (simp add: pos_divide_less_eq mult.commute)
  have "P * 2 ^ 52 \<le> v" using e_lo unfolding Pe .
  then have y_lo: "2 ^ 52 \<le> v / P"
    using Ppos by (simp add: pos_le_divide_eq mult.commute)
  have "real_of_int m < 2 ^ 53 + 1" using merr y_hi by linarith
  then have "real_of_int m < real_of_int (2 ^ 53 + 1)" by simp
  then have m_hi: "m \<le> 2 ^ 53" by linarith
  have "(1::real) \<le> 2 ^ 52" by simp
  then have "0 < real_of_int m" using merr y_lo by linarith
  then have m_pos: "0 < m" by simp
  have no_overflow: "\<not> (0 \<le> q \<and> 2 ^ 1024 \<le> m * 2 ^ nat q)"
  proof
    assume a: "0 \<le> q \<and> 2 ^ 1024 \<le> m * 2 ^ nat q"
    then have "nat q \<le> 970" using e2 by (simp add: q_def)
    then have "(2::int) ^ nat q \<le> 2 ^ 970" by (intro power_increasing) simp_all
    then have "m * 2 ^ nat q \<le> 2 ^ 53 * 2 ^ 970"
      using m_hi m_pos by (intro mult_mono) simp_all
    also have "\<dots> < (2::int) ^ 1024" by simp
    finally show False using a by simp
  qed
  have "round_double p d =
      (if 0 \<le> q \<and> 2 ^ 1024 \<le> m * 2 ^ nat q then PInf else normalize m q)"
  proof -
    have nz: "(p = 0) = False" and sg: "sgn p = 1" "(0 < p) = True" "\<bar>p\<bar> = p"
      using assms(1) by simp_all
    show ?thesis
      unfolding round_double_def Let_def nz sg e_def [symmetric] qmax m_def [symmetric]
      by (simp only: if_False if_True mult_1)
  qed
  then have "round_double p d = normalize m q"
    using no_overflow by (simp only: if_False)
  moreover obtain m' e' where fin: "normalize m q = Fin m' e'"
    using normalize_Fin by blast
  moreover have "real_of_int m' * 2 powi e' = real_of_int m * P"
    using fval_normalize [of m q] fin by (simp add: fval_def P_def)
  moreover have "\<bar>real_of_int m * P - v\<bar> \<le> v / 2 ^ 53"
  proof -
    have "\<bar>real_of_int m * P - v\<bar> = P * \<bar>real_of_int m - v / P\<bar>"
      using Ppos by (simp add: abs_mult [symmetric] field_simps abs_of_pos)
    also have "\<dots> \<le> P * (1 / 2)"
      using merr Ppos by (intro mult_left_mono) simp_all
    also have "\<dots> = 2 powi e / 2 ^ 53"
      by (simp add: Pe)
    also have "\<dots> \<le> v / 2 ^ 53"
      using e_lo by (simp add: divide_right_mono)
    finally show ?thesis .
  qed
  ultimately show ?thesis by (simp add: v_def)
qed

subsection \<open>One addition\<close>

lemma is_fin_Fin [simp]: "is_fin (Fin m e)"
  by (simp add: is_fin_def)

lemma fval_Fin [simp]: "fval (Fin m e) = real_of_int m * 2 powi e"
  by (simp add: fval_def)

lemma round_double_zero [simp]: "round_double 0 d = Fin 0 0"
  by (simp add: round_double_def)

lemma round_double_approx:
  assumes "0 < p" "0 < d"
    and "tiny \<le> real_of_int p / real_of_int d" and "real_of_int p / real_of_int d < huge"
  shows "is_fin (round_double p d) \<and>
     \<bar>fval (round_double p d) - real_of_int p / real_of_int d\<bar>
       \<le> (real_of_int p / real_of_int d) / 2 ^ 53"
  using round_double_error [OF assms(1,2)] assms(3,4) unfolding tiny_def huge_def
  by auto

lemma round_dyadic_approx:
  assumes "0 < n"
    and "tiny \<le> real_of_int n * 2 powi e" and "real_of_int n * 2 powi e < huge"
  shows "is_fin (round_dyadic n e) \<and>
     \<bar>fval (round_dyadic n e) - real_of_int n * 2 powi e\<bar> \<le> (real_of_int n * 2 powi e) / 2 ^ 53"
proof (cases "0 \<le> e")
  case True
  then have v: "real_of_int (n * 2 ^ nat e) / real_of_int 1 = real_of_int n * 2 powi e"
    by (simp add: power_int_nonneg_exp)
  have "0 < n * 2 ^ nat e" using assms(1) by simp
  from round_double_approx [OF this, of 1] assms(2,3) True show ?thesis
    unfolding v by (simp add: round_dyadic_def)
next
  case False
  then have "0 \<le> - e" by simp
  then have "(2::real) powi (- e) = 2 ^ nat (- e)" by (simp add: power_int_nonneg_exp)
  moreover have "(2::real) powi (- e) = 1 / 2 powi e" by (rule power_int_minus_divide)
  ultimately have v: "real_of_int n / real_of_int (2 ^ nat (- e)) = real_of_int n * 2 powi e"
    by (simp add: field_simps)
  have "0 < (2::int) ^ nat (- e)" by simp
  from round_double_approx [OF assms(1) this] assms(2,3) False show ?thesis
    unfolding v by (simp add: round_dyadic_def)
qed

lemma fadd_value:
  "real_of_int (m1 * 2 ^ nat (e1 - min e1 e2) + m2 * 2 ^ nat (e2 - min e1 e2)) * 2 powi (min e1 e2)
     = real_of_int m1 * 2 powi e1 + real_of_int m2 * 2 powi e2"
proof -
  have shift: "real_of_int (2 ^ nat (a - b)) * 2 powi b = 2 powi a" if "b \<le> a" for a b :: int
  proof -
    have "(2::real) powi (a - b + b) = 2 powi (a - b) * 2 powi b" by (rule power_int_add) simp
    moreover have "(2::real) powi (a - b) = 2 ^ nat (a - b)"
      using that by (simp add: power_int_nonneg_exp)
    ultimately show ?thesis by simp
  qed
  have "real_of_int (m1 * 2 ^ nat (e1 - min e1 e2) + m2 * 2 ^ nat (e2 - min e1 e2)) * 2 powi (min e1 e2)
      = real_of_int m1 * (real_of_int (2 ^ nat (e1 - min e1 e2)) * 2 powi (min e1 e2))
        + real_of_int m2 * (real_of_int (2 ^ nat (e2 - min e1 e2)) * 2 powi (min e1 e2))"
    by (simp add: algebra_simps)
  also have "\<dots> = real_of_int m1 * 2 powi e1 + real_of_int m2 * 2 powi e2"
    by (simp only: shift [of "min e1 e2" e1, OF min.cobounded1]
        shift [of "min e1 e2" e2, OF min.cobounded2])
  finally show ?thesis .
qed

lemma fadd_approx:
  assumes "is_fin x" "is_fin y" "0 \<le> fval x" "0 \<le> fval y"
    and "fval x + fval y = 0 \<or> (tiny \<le> fval x + fval y \<and> fval x + fval y < huge)"
  shows "is_fin (fadd x y) \<and>
     \<bar>fval (fadd x y) - (fval x + fval y)\<bar> \<le> (fval x + fval y) / 2 ^ 53"
proof -
  from assms(1,2) obtain m1 e1 m2 e2 where x: "x = Fin m1 e1" and y: "y = Fin m2 e2"
    by (auto simp: is_fin_def split: pyfloat.splits)
  define e where "e = min e1 e2"
  define n where "n = m1 * 2 ^ nat (e1 - e) + m2 * 2 ^ nat (e2 - e)"
  have val: "real_of_int n * 2 powi e = fval x + fval y"
    unfolding n_def e_def x y fval_Fin by (rule fadd_value)
  have fa: "fadd x y = round_dyadic n e"
    by (simp add: x y Let_def n_def e_def)
  have "0 \<le> real_of_int n * 2 powi e" using assms(3,4) val by simp
  moreover have "0 < (2::real) powi e" by simp
  ultimately have "0 \<le> real_of_int n" by (simp only: zero_le_mult_iff) linarith
  then have n0: "0 \<le> n" by simp
  show ?thesis
  proof (cases "n = 0")
    case True
    then have "fadd x y = Fin 0 0" by (simp add: fa round_dyadic_def)
    moreover from True val have "fval x + fval y = 0" by simp
    ultimately show ?thesis by simp
  next
    case False
    with n0 have npos: "0 < n" by simp
    then have "0 < real_of_int n * 2 powi e" by simp
    with val assms(5) have "tiny \<le> real_of_int n * 2 powi e" "real_of_int n * 2 powi e < huge"
      by auto
    from round_dyadic_approx [OF npos this] show ?thesis
      unfolding fa val .
  qed
qed

lemma tiny_small: "tiny \<le> 1 / 256"
proof -
  have "(2::real) powi (- 1022) \<le> 2 powi (- 8)"
    by (rule power_int_increasing) simp_all
  also have "(2::real) powi (- 8) = 1 / 2 ^ 8"
    by (simp add: power_int_minus_divide)
  finally show ?thesis by (simp add: tiny_def)
qed

lemma huge_large: "2 ^ 40 \<le> huge"
proof -
  have "(2::real) powi 40 \<le> 2 powi 1023"
    by (rule power_int_increasing) simp_all
  moreover have "(2::real) powi 40 = 2 ^ 40"
    by (simp add: power_int_nonneg_exp)
  ultimately show ?thesis by (simp only: huge_def)
qed

lemma abs_bound_iff:
  "(\<bar>a::real\<bar> \<le> b / 2 ^ 53) = (a * 9007199254740992 \<le> b \<and> - (a * 9007199254740992) \<le> b)"
  by (auto simp: abs_le_iff field_simps)

lemma fadd_step:
  assumes fin: "is_fin acc" "is_fin x"
    and nonneg: "0 \<le> A" "0 \<le> v"
    and acc: "\<bar>fval acc - A\<bar> \<le> 3 * real j * A / 2 ^ 53"
    and x: "\<bar>fval x - v\<bar> \<le> v / 2 ^ 53"
    and grid: "A = 0 \<or> 1 / 100 \<le> A" "v = 0 \<or> 1 / 100 \<le> v"
    and j: "j < 100"
    and bound: "A + v \<le> 10 ^ 10"
  shows "is_fin (fadd acc x) \<and>
     \<bar>fval (fadd acc x) - (A + v)\<bar> \<le> 3 * real (Suc j) * (A + v) / 2 ^ 53"
proof -
  define J where "J = real j * A"
  define K where "K = real j * v"
  have J: "0 \<le> J" "J \<le> 99 * A"
  proof -
    show "0 \<le> J" unfolding J_def using nonneg by simp
    have "real j \<le> 99" using j by simp
    then show "J \<le> 99 * A" unfolding J_def using nonneg by (simp add: mult_right_mono)
  qed
  have K: "0 \<le> K" unfolding K_def using nonneg by simp
  have "3 * real j * A = 3 * J" by (simp add: J_def)
  with acc have acc': "\<bar>fval acc - A\<bar> \<le> 3 * J / 2 ^ 53" by simp
  have goal_eq: "3 * real (Suc j) * (A + v) = 3 * (J + K + A + v)"
    by (simp add: J_def K_def algebra_simps)
  note a1 = acc' [unfolded abs_bound_iff, THEN conjunct1]
  note a2 = acc' [unfolded abs_bound_iff, THEN conjunct2]
  note x1 = x [unfolded abs_bound_iff, THEN conjunct1]
  note x2 = x [unfolded abs_bound_iff, THEN conjunct2]
  have xa1: "0 \<le> fval acc"
    using a1 a2 J nonneg by argo
  have xa2: "0 \<le> fval x"
    using x1 x2 nonneg by argo
  have range: "fval acc + fval x = 0 \<or> (tiny \<le> fval acc + fval x \<and> fval acc + fval x < huge)"
  proof (cases "A = 0 \<and> v = 0")
    case True
    with a1 a2 J have "fval acc = 0" by argo
    moreover from True x1 x2 have "fval x = 0" by argo
    ultimately show ?thesis by simp
  next
    case False
    with grid have "1 / 100 \<le> A + v" using nonneg by auto
    moreover have "(A + v) / 2 \<le> fval acc + fval x"
      using a1 a2 x1 x2 J nonneg by argo
    ultimately have "1 / 256 \<le> fval acc + fval x" by argo
    with tiny_small have lo: "tiny \<le> fval acc + fval x" by argo
    have "fval acc + fval x \<le> 2 * (A + v)"
      using a1 a2 x1 x2 J nonneg by argo
    with bound have "fval acc + fval x < 2 ^ 40" by simp
    with huge_large have "fval acc + fval x < huge" by argo
    with lo show ?thesis by simp
  qed
  from fadd_approx [OF fin xa1 xa2 range]
  have fin': "is_fin (fadd acc x)"
    and err: "\<bar>fval (fadd acc x) - (fval acc + fval x)\<bar> \<le> (fval acc + fval x) / 2 ^ 53"
    by simp_all
  note e1 = err [unfolded abs_bound_iff, THEN conjunct1]
  note e2 = err [unfolded abs_bound_iff, THEN conjunct2]
  have "(fval (fadd acc x) - (A + v)) * 9007199254740992 \<le> 3 * (J + K + A + v)"
    using e1 e2 a1 a2 x1 x2 J K nonneg by argo
  moreover have "- ((fval (fadd acc x) - (A + v)) * 9007199254740992) \<le> 3 * (J + K + A + v)"
    using e1 e2 a1 a2 x1 x2 J K nonneg by argo
  ultimately have "\<bar>fval (fadd acc x) - (A + v)\<bar> \<le> 3 * (J + K + A + v) / 2 ^ 53"
    unfolding abs_bound_iff by (rule conjI)
  with fin' show ?thesis by (simp only: goal_eq)
qed

subsection \<open>The sum\<close>

lemma foldl_fadd_approx:
  assumes "list_all2 near xs vs"
    and "is_fin acc" "0 \<le> A" "\<bar>fval acc - A\<bar> \<le> 3 * real j * A / 2 ^ 53"
    and "A = 0 \<or> 1 / 100 \<le> A"
    and "j + length xs \<le> 100" "A + sum_list vs \<le> 10 ^ 10"
  shows "is_fin (foldl fadd acc xs) \<and>
     \<bar>fval (foldl fadd acc xs) - (A + sum_list vs)\<bar>
       \<le> 3 * real (j + length xs) * (A + sum_list vs) / 2 ^ 53"
  using assms
proof (induction xs vs arbitrary: acc A j rule: list_all2_induct)
  case Nil
  then show ?case by simp
next
  case (Cons x xs v vs)
  from Cons.hyps(1) have x: "is_fin x" "0 \<le> v" "\<bar>fval x - v\<bar> \<le> v / 2 ^ 53" "v = 0 \<or> 1 / 100 \<le> v"
    by (simp_all add: near_def)
  have vs0: "0 \<le> sum_list vs"
    using Cons.hyps(2) by (induction xs vs rule: list_all2_induct) (simp_all add: near_def)
  have j: "j < 100" using Cons.prems(5) by simp
  have b: "A + v \<le> 10 ^ 10" using Cons.prems(6) vs0 by simp
  from fadd_step [OF Cons.prems(1) x(1) Cons.prems(2) x(2) Cons.prems(3) x(3) Cons.prems(4) x(4) j b]
  have s: "is_fin (fadd acc x)" "\<bar>fval (fadd acc x) - (A + v)\<bar> \<le> 3 * real (Suc j) * (A + v) / 2 ^ 53"
    by simp_all
  have g: "A + v = 0 \<or> 1 / 100 \<le> A + v"
    using Cons.prems(2,4) x(2,4) by auto
  have "is_fin (foldl fadd (fadd acc x) xs) \<and>
     \<bar>fval (foldl fadd (fadd acc x) xs) - (A + v + sum_list vs)\<bar>
       \<le> 3 * real (Suc j + length xs) * (A + v + sum_list vs) / 2 ^ 53"
  proof (rule Cons.IH [OF s(1) _ s(2) g])
    show "0 \<le> A + v" using Cons.prems(2) x(2) by simp
    show "Suc j + length xs \<le> 100" using Cons.prems(5) by simp
    show "A + v + sum_list vs \<le> 10 ^ 10" using Cons.prems(6) by (simp add: add.assoc)
  qed
  then show ?case by (simp add: add.assoc)
qed

lemma py_sum_approx:
  assumes "list_all2 near xs vs" "xs \<noteq> []" "length xs \<le> 100" "sum_list vs \<le> 10 ^ 10"
  shows "\<exists>s. py_sum xs = NFloat s \<and> is_fin s \<and>
     \<bar>fval s - sum_list vs\<bar> \<le> 300 * sum_list vs / 2 ^ 53"
proof -
  from assms(2) obtain y ys where xs: "xs = y # ys" by (cases xs) auto
  have eq: "py_sum xs = NFloat (foldl fadd (Fin 0 0) xs)" by (simp add: xs)
  have vs0: "0 \<le> sum_list vs"
    using assms(1) by (induction xs vs rule: list_all2_induct) (simp_all add: near_def)
  from foldl_fadd_approx [OF assms(1), of "Fin 0 0" 0 0] assms(3,4)
  have f: "is_fin (foldl fadd (Fin 0 0) xs)"
    and e: "\<bar>fval (foldl fadd (Fin 0 0) xs) - sum_list vs\<bar>
       \<le> 3 * real (length xs) * sum_list vs / 2 ^ 53"
    by simp_all
  have "real (length xs) \<le> 100" using assms(3) by simp
  then have "3 * real (length xs) * sum_list vs \<le> 300 * sum_list vs"
    using vs0 by (simp add: mult_right_mono)
  then have "3 * real (length xs) * sum_list vs / 2 ^ 53 \<le> 300 * sum_list vs / 2 ^ 53"
    by (simp add: divide_right_mono)
  with e have "\<bar>fval (foldl fadd (Fin 0 0) xs) - sum_list vs\<bar> \<le> 300 * sum_list vs / 2 ^ 53"
    by (rule order_trans)
  with f eq show ?thesis by blast
qed

subsection \<open>Cart values in whole cents\<close>

lemma dec_float_zero [simp]: "dec_float 0 e = Fin 0 0"
  by (simp add: dec_float_def)

lemma near_zero: "near (Fin 0 0) 0"
  by (simp add: near_def)

lemma dec_float_near:
  assumes c: "0 \<le> c" and e: "- 2 \<le> e" and b: "c * 10 ^ nat (e + 2) \<le> 10 ^ 12"
  shows "near (dec_float c e) (real_of_int (c * 10 ^ nat (e + 2)) / 100)"
proof (cases "c = 0")
  case True
  then show ?thesis by (simp add: near_zero)
next
  case False
  with c have cpos: "0 < c" by simp
  define v where "v = real_of_int (c * 10 ^ nat (e + 2)) / 100"
  have "1 \<le> c * 10 ^ nat (e + 2)"
    using cpos by (simp add: mult_le_cancel_left1 int_one_le_iff_zero_less)
  then have "1 \<le> real_of_int (c * 10 ^ nat (e + 2))" by linarith
  then have lo: "1 / 100 \<le> v" by (simp add: v_def)
  have "real_of_int (c * 10 ^ nat (e + 2)) \<le> 10 ^ 12"
    using b by (metis of_int_le_iff of_int_numeral of_int_power)
  then have hi: "v \<le> 10 ^ 10" by (simp add: v_def)
  have t: "tiny \<le> v" using lo tiny_small by argo
  have "v < 2 ^ 40" using hi by simp
  then have h: "v < huge" using huge_large by argo
  have "\<exists>p d. 0 < p \<and> 0 < d \<and> dec_float c e = round_double p d \<and> real_of_int p / real_of_int d = v"
  proof (cases "0 \<le> e")
    case True
    then have "nat (e + 2) = nat e + 2" by simp
    then have "real_of_int (c * 10 ^ nat e) / real_of_int 1 = v"
      by (simp add: v_def power_add)
    moreover have "dec_float c e = round_double (c * 10 ^ nat e) 1"
      using True by (simp add: dec_float_def)
    moreover have "0 < c * 10 ^ nat e" using cpos by simp
    ultimately show ?thesis by (intro exI [of _ "c * 10 ^ nat e"] exI [of _ 1]) simp
  next
    case False
    with e have "e = - 1 \<or> e = - 2" by auto
    then have "real_of_int c / real_of_int (10 ^ nat (- e)) = v"
      by (auto simp: v_def)
    moreover have "dec_float c e = round_double c (10 ^ nat (- e))"
      using False by (simp add: dec_float_def)
    moreover have "0 < (10::int) ^ nat (- e)" by simp
    ultimately show ?thesis using cpos by blast
  qed
  then obtain p d where pd: "0 < p" "0 < d" "dec_float c e = round_double p d"
    "real_of_int p / real_of_int d = v" by blast
  from round_double_approx [OF pd(1,2)] t h pd(3,4)
  have "is_fin (dec_float c e)" "\<bar>fval (dec_float c e) - v\<bar> \<le> v / 2 ^ 53" by simp_all
  moreover have "0 \<le> v" using lo by simp
  ultimately show ?thesis using lo unfolding near_def v_def by blast
qed

lemma cart_value_near:
  assumes w: "whole_cents it" and b: "cart_cents it \<le> 10 ^ 12"
  shows "\<exists>x. py_float strtod (dict_get it ''cart_value'' (VInt 0)) = Inr x \<and>
     near x (real_of_int (cart_cents it) / 100)"
proof (cases "map_of it ''cart_value''")
  case None
  then have "py_float strtod (dict_get it ''cart_value'' (VInt 0)) = Inr (Fin 0 0)"
    by (simp add: dict_get_def)
  moreover from None have "cart_cents it = 0"
    by (simp add: cart_cents_def cart_decimal_def dict_get_def)
  ultimately show ?thesis by (simp add: near_zero)
next
  case (Some u)
  with w obtain c e where u: "u = VDec c e" and c: "0 \<le> c" and e: "- 2 \<le> e"
    by (auto simp: whole_cents_def dict_get_def split: pyval.splits)
  from Some u have cc: "cart_cents it = c * 10 ^ nat (e + 2)"
    by (simp add: cart_cents_def cart_decimal_def dict_get_def)
  from Some u have "py_float strtod (dict_get it ''cart_value'' (VInt 0)) = Inr (dec_float c e)"
    by (simp add: dict_get_def)
  moreover from dec_float_near [OF c e] b cc
  have "near (dec_float c e) (real_of_int (cart_cents it) / 100)" by simp
  ultimately show ?thesis by blast
qed

lemma cart_cents_nonneg: "whole_cents it \<Longrightarrow> 0 \<le> cart_cents it"
  by (auto simp: whole_cents_def cart_cents_def cart_decimal_def split: pyval.splits)

lemma total_cents_nonneg: "list_all whole_cents items \<Longrightarrow> 0 \<le> total_cents items"
  by (induction items) (simp_all add: total_cents_def cart_cents_nonneg)

lemma cart_values_near:
  assumes "list_all whole_cents items" "total_cents items \<le> 10 ^ 12"
  shows "\<exists>xs. cart_values strtod items = Inr xs \<and>
     list_all2 near xs (map (\<lambda>it. real_of_int (cart_cents it) / 100) items)"
  using assms
proof (induction items)
  case Nil
  then show ?case by simp
next
  case (Cons it items)
  from Cons.prems(1) have w: "whole_cents it" and ws: "list_all whole_cents items" by simp_all
  have t: "total_cents (it # items) = cart_cents it + total_cents items"
    by (simp add: total_cents_def)
  from cart_cents_nonneg [OF w] total_cents_nonneg [OF ws] Cons.prems(2) t
  have b1: "cart_cents it \<le> 10 ^ 12" and b2: "total_cents items \<le> 10 ^ 12" by simp_all
  from cart_value_near [OF w b1] obtain x where
    x: "py_float strtod (dict_get it ''cart_value'' (VInt 0)) = Inr x"
       "near x (real_of_int (cart_cents it) / 100)" by blast
  from Cons.IH [OF ws b2] obtain xs where
    xs: "cart_values strtod items = Inr xs"
        "list_all2 near xs (map (\<lambda>it. real_of_int (cart_cents it) / 100) items)" by blast
  from x xs show ?case by simp
qed

lemma sum_cents:
  "sum_list (map (\<lambda>it. real_of_int (cart_cents it) / 100) items) = real_of_int (total_cents items) / 100"
  by (induction items) (simp_all add: total_cents_def add_divide_distrib)

lemma round2_exact:
  assumes f: "is_fin s" and t: "0 \<le> t" "t \<le> 10 ^ 12"
    and e: "\<bar>fval s - real_of_int t / 100\<bar> \<le> 300 * (real_of_int t / 100) / 2 ^ 53"
  shows "round2 s = dec_float t (- 2)"
proof -
  from f obtain m e' where s: "s = Fin m e'" by (auto simp: is_fin_def split: pyfloat.splits)
  have tr: "0 \<le> real_of_int t" "real_of_int t \<le> 10 ^ 12"
    using t by (simp, metis of_int_le_iff of_int_numeral of_int_power)
  note e1 = e [unfolded abs_bound_iff, THEN conjunct1]
  note e2 = e [unfolded abs_bound_iff, THEN conjunct2]
  define w where "w = real_of_int t / 100"
  have w: "0 \<le> w" "w \<le> 10000000000" using tr by (simp_all add: w_def)
  have "\<bar>100 * w - 100 * fval s\<bar> < 1 / 2"
    using e1 e2 w unfolding w_def [symmetric] by argo
  then have close: "\<bar>real_of_int t - 100 * fval s\<bar> < 1 / 2"
    by (simp add: w_def)
  have "(if 0 \<le> e' then m * 2 ^ nat e' * 100 else round_half_even (m * 100) (2 ^ nat (- e'))) = t"
  proof (cases "0 \<le> e'")
    case True
    then have "fval s = real_of_int (m * 2 ^ nat e')"
      by (simp add: s power_int_nonneg_exp)
    then have "100 * fval s = real_of_int (m * 2 ^ nat e' * 100)"
      by simp
    with close have "\<bar>real_of_int t - real_of_int (m * 2 ^ nat e' * 100)\<bar> < 1 / 2"
      by (simp only:)
    then have "\<bar>real_of_int (t - m * 2 ^ nat e' * 100)\<bar> < 1" by simp
    then have "\<bar>t - m * 2 ^ nat e' * 100\<bar> < 1" by linarith
    with True show ?thesis by simp
  next
    case False
    then have "0 \<le> - e'" by simp
    then have "(2::real) powi (- e') = 2 ^ nat (- e')" by (simp add: power_int_nonneg_exp)
    moreover have "(2::real) powi (- e') = 1 / 2 powi e'" by (rule power_int_minus_divide)
    ultimately have "real_of_int (m * 100) / real_of_int (2 ^ nat (- e')) = 100 * fval s"
      by (simp add: s field_simps)
    with close have "\<bar>real_of_int t - real_of_int (m * 100) / real_of_int (2 ^ nat (- e'))\<bar> < 1 / 2"
      by simp
    moreover have "0 < (2::int) ^ nat (- e')" by simp
    ultimately have "round_half_even (m * 100) (2 ^ nat (- e')) = t"
      by (rule round_half_even_unique [rotated])
    with False show ?thesis by simp
  qed
  then have "round2 s = round_double t 100" by (simp only: s round2.simps)
  then show ?thesis by (simp add: dec_float_def)
qed

subsection \<open>The exact decimal total\<close>

lemma dec_cents_add:
  assumes "- 2 \<le> snd a" "- 2 \<le> snd b"
  shows "- 2 \<le> snd (dec_add a b) \<and> dec_cents (dec_add a b) = dec_cents a + dec_cents b"
proof -
  obtain c1 e1 c2 e2 where ab: "a = (c1, e1)" "b = (c2, e2)" by (cases a, cases b) auto
  define e where "e = min e1 e2"
  have e: "- 2 \<le> e" "e \<le> e1" "e \<le> e2" using assms by (simp_all add: ab e_def)
  have s1: "nat (e1 - e) + nat (e + 2) = nat (e1 + 2)" using e by simp
  have s2: "nat (e2 - e) + nat (e + 2) = nat (e2 + 2)" using e by simp
  have "(c1 * 10 ^ nat (e1 - e) + c2 * 10 ^ nat (e2 - e)) * 10 ^ nat (e + 2)
      = c1 * 10 ^ (nat (e1 - e) + nat (e + 2)) + c2 * 10 ^ (nat (e2 - e) + nat (e + 2))"
    by (simp add: power_add algebra_simps)
  also have "\<dots> = c1 * 10 ^ nat (e1 + 2) + c2 * 10 ^ nat (e2 + 2)"
    by (simp only: s1 s2)
  finally have "dec_cents (c1 * 10 ^ nat (e1 - e) + c2 * 10 ^ nat (e2 - e), e)
      = dec_cents (c1, e1) + dec_cents (c2, e2)"
    using e assms by (simp add: ab)
  then show ?thesis using e by (simp add: ab Let_def e_def)
qed

lemma foldl_dec_add:
  assumes "- 2 \<le> snd acc" "list_all (\<lambda>d. - 2 \<le> snd d) ds"
  shows "- 2 \<le> snd (foldl dec_add acc ds) \<and>
     dec_cents (foldl dec_add acc ds) = dec_cents acc + sum_list (map dec_cents ds)"
  using assms
proof (induction ds arbitrary: acc)
  case Nil
  then show ?case by simp
next
  case (Cons d ds)
  from Cons.prems have d: "- 2 \<le> snd d" and ds: "list_all (\<lambda>d. - 2 \<le> snd d) ds" by simp_all
  from dec_cents_add [OF Cons.prems(1) d]
  have a: "- 2 \<le> snd (dec_add acc d)" "dec_cents (dec_add acc d) = dec_cents acc + dec_cents d"
    by simp_all
  from Cons.IH [OF a(1) ds] a(2) show ?case by simp
qed

lemma whole_cents_decimal:
  assumes "whole_cents it"
  shows "- 2 \<le> snd (cart_decimal it)" and "dec_cents (cart_decimal it) = cart_cents it"
  using assms
  by (auto simp: whole_cents_def cart_decimal_def cart_cents_def split: pyval.splits)

lemma spec_total_cents:
  assumes "list_all whole_cents items"
  shows "spec_total_revenue items = VFloat (dec_float (total_cents items) (- 2))"
proof -
  have "list_all (\<lambda>d. - 2 \<le> snd d) (map cart_decimal items)"
    using assms by (induction items) (simp_all add: whole_cents_decimal)
  from foldl_dec_add [OF _ this, of "(0, 0)"]
  have "dec_cents (foldl dec_add (0, 0) (map cart_decimal items))
      = sum_list (map dec_cents (map cart_decimal items))" by simp
  also have "\<dots> = total_cents items"
    using assms by (induction items) (simp_all add: total_cents_def whole_cents_decimal)
  finally show ?thesis by (simp add: spec_total_revenue_def)
qed

lemma int_to_float_fin:
  assumes "0 < c" "c \<le> 100"
  shows "is_fin (round_double c 1)"
proof -
  have "1 \<le> real_of_int c" "real_of_int c \<le> 100" using assms by simp_all
  then have "tiny \<le> real_of_int c / real_of_int 1" "real_of_int c / real_of_int 1 < huge"
    using tiny_small huge_large by simp_all
  from round_double_approx [OF assms(1) _ this] show ?thesis by simp
qed

lemma total_revenue_whole_cents:
  assumes w: "list_all whole_cents items" and n: "length items \<le> 100"
    and b: "total_cents items \<le> 10 ^ 12"
  shows "\<exists>m. api_metrics strtod ts items = Inr m \<and>
     map_of m ''total_revenue'' = Some (if items = [] then VInt 0 else spec_total_revenue items)"
proof -
  from cart_values_near [OF w b] obtain xs where
    xs: "cart_values strtod items = Inr xs"
        "list_all2 near xs (map (\<lambda>it. real_of_int (cart_cents it) / 100) items)" by blast
  have ok: "\<not> isl (api_metrics strtod ts items)"
  proof -
    have "\<not> isl (avg_cart_value (NFloat (Fin 0 0)) (count_converted items))"
    proof (cases "0 < count_converted items")
      case True
      have "length (filter (\<lambda>item. truthy (dict_get item ''converted'' VNone)) items) \<le> 100"
        using n by (rule order_trans [OF length_filter_le])
      then have "count_converted items \<le> 100" by (simp add: count_converted_def)
      from int_to_float_fin [OF True this] obtain m e
        where "round_double (count_converted items) 1 = Fin m e"
        by (auto simp: is_fin_def split: pyfloat.splits)
      with True show ?thesis by (simp add: avg_cart_value_def float_div_int_def)
    next
      case False
      then show ?thesis by (simp add: avg_cart_value_def)
    qed
    with xs(1) show ?thesis by (simp add: api_metrics_isl)
  qed
  then obtain m where m: "api_metrics strtod ts items = Inr m"
    by (cases "api_metrics strtod ts items") simp_all
  from api_metrics_fields(5) [OF m] xs(1)
  have rev: "map_of m ''total_revenue'' = Some (num_val (py_round2 (py_sum xs)))" by auto
  have len: "length xs = length items" using xs(1) by (rule cart_values_length)
  have "map_of m ''total_revenue'' = Some (if items = [] then VInt 0 else spec_total_revenue items)"
  proof (cases "items = []")
    case True
    with len rev show ?thesis by simp
  next
    case False
    with len have ne: "xs \<noteq> []" by auto
    have tr: "real_of_int (total_cents items) \<le> 10 ^ 12"
      using b by (metis of_int_le_iff of_int_numeral of_int_power)
    then have sb: "sum_list (map (\<lambda>it. real_of_int (cart_cents it) / 100) items) \<le> 10 ^ 10"
      by (simp add: sum_cents)
    from py_sum_approx [OF xs(2) ne _ sb] len n obtain s where
      s: "py_sum xs = NFloat s" "is_fin s"
         "\<bar>fval s - real_of_int (total_cents items) / 100\<bar>
            \<le> 300 * (real_of_int (total_cents items) / 100) / 2 ^ 53"
      by (auto simp: sum_cents)
    from round2_exact [OF s(2) total_cents_nonneg [OF w] b s(3)]
    have "round2 s = dec_float (total_cents items) (- 2)" .
    with rev s(1) False show ?thesis by (simp add: spec_total_cents [OF w])
  qed
  with m show ?thesis by blast
qed

lemma total_cents_mset: "mset xs = mset ys \<Longrightarrow> total_cents xs = total_cents ys"
proof -
  assume "mset xs = mset ys"
  then have "mset (map cart_cents xs) = mset (map cart_cents ys)" by (metis mset_map)
  then have "sum_mset (mset (map cart_cents xs)) = sum_mset (mset (map cart_cents ys))" by simp
  then show ?thesis by (simp only: total_cents_def sum_mset_sum_list)
qed

lemma whole_cents_mset: "mset xs = mset ys \<Longrightarrow> list_all whole_cents xs = list_all whole_cents ys"
  by (metis list_all_iff mset_eq_setD)

subsection \<open>When the aggregation of the API raises\<close>

lemma count_to_float_fin:
  assumes "0 \<le> c" "c < 2 ^ 1023"
  shows "is_fin (round_double c 1)"
proof (cases "c = 0")
  case True
  then show ?thesis by simp
next
  case False
  with assms(1) have pos: "0 < c" by simp
  then have "1 \<le> real_of_int c" by simp
  with tiny_small have lo: "tiny \<le> real_of_int c / real_of_int 1" by simp
  have "real_of_int c < real_of_int (2 ^ 1023)"
    using assms(2) by (simp only: of_int_less_iff)
  moreover have "real_of_int (2 ^ 1023) = 2 powi 1023"
    by (simp add: power_int_nonneg_exp)
  ultimately have hi: "real_of_int c / real_of_int 1 < huge"
    by (simp add: huge_def)
  from round_double_approx [OF pos _ lo hi] show ?thesis by simp
qed

lemma avg_cart_value_raises:
  assumes "0 \<le> c"
  shows "isl (avg_cart_value (NFloat (Fin 0 0)) c) \<longleftrightarrow> \<not> is_fin (round_double c 1)"
proof (cases "c = 0")
  case True
  then show ?thesis by (simp add: avg_cart_value_def)
next
  case False
  with assms have "0 < c" by simp
  then show ?thesis
    by (simp add: avg_cart_value_def float_div_int_def is_fin_def split: pyfloat.splits)
qed

lemma api_metrics_raises:
  "isl (api_metrics sf ts items) \<longleftrightarrow>
     (\<exists>it \<in> set items. isl (py_float sf (dict_get it ''cart_value'' (VInt 0)))) \<or>
     \<not> is_fin (round_double (count_converted items) 1)"
proof -
  have c: "0 \<le> count_converted items" by (simp add: count_converted_def)
  have "items = [] \<Longrightarrow> is_fin (round_double (count_converted items) 1)"
    by (simp add: count_converted_def)
  then show ?thesis
    using avg_cart_value_raises [OF c] by (auto simp: api_metrics_isl cart_values_ok_iff)
qed

lemma unpriced_eval:
  "api_metrics strtod ts unpriced_batch =
     Inl (Exn ''TypeError''
            (''float() argument must be a string or a real number, not '' @
             [CHR 0x27] @ ''NoneType'' @ [CHR 0x27]))"
  by (simp add: api_metrics_def revenue_sum_def unpriced_batch_def dict_get_def)

lemma unpriced_processor:
  "processor_metrics ts unpriced_batch =
     Inr [(''timestamp'', VStr ts), (''total_sessions'', VInt 1), (''total_conversions'', VInt 1),
          (''conversion_rate'', VFloat (Fin 25 2))]"
  by code_simp

section \<open>Claims about the aggregation\<close>

text \<open>
  C7. Aggregating an empty batch gives a snapshot with \<^verbatim>\<open>total_sessions\<close>,
  \<^verbatim>\<open>conversions\<close>, \<^verbatim>\<open>conversion_rate\<close>, \<^verbatim>\<open>total_revenue\<close> and \<^verbatim>\<open>avg_cart_value\<close> all
  \<open>0\<close>, and raises nothing: the aggregation returns (\<open>Inr\<close>), the two guarded divisions
  are not evaluated.
\<close>

theorem empty_batch_snapshot:
  "api_metrics strtod ts [] =
     Inr [(''timestamp'', VStr ts), (''total_sessions'', VInt 0), (''conversions'', VInt 0),
          (''conversion_rate'', VInt 0), (''total_revenue'', VInt 0), (''avg_cart_value'', VInt 0)]"
  by (simp add: api_metrics_def api_metrics_dict_def revenue_sum_def count_converted_def
        conversion_rate_def avg_cart_value_def)

text \<open>
  C6. A record whose \<^verbatim>\<open>converted\<close> attribute is absent, or present and not truthy, counts
  as a session and not as a conversion: put anywhere into a batch, it raises
  \<^verbatim>\<open>total_sessions\<close> by one and leaves \<^verbatim>\<open>conversions\<close> as it was, in the API's
  aggregation and in the processor's (where the count is named \<^verbatim>\<open>total_conversions\<close>).
\<close>

theorem unconverted_record_counts_as_session_only:
  assumes "case map_of r ''converted'' of None \<Rightarrow> True | Some v \<Rightarrow> \<not> truthy v"
    and "api_metrics strtod ts (xs @ ys) = Inr m"
    and "api_metrics strtod ts' (xs @ r # ys) = Inr m'"
  shows "map_of m ''total_sessions'' = Some (VInt (int (length (xs @ ys)))) \<and>
         map_of m' ''total_sessions'' = Some (VInt (int (length (xs @ ys)) + 1)) \<and>
         map_of m ''conversions'' = Some (VInt (count_converted (xs @ ys))) \<and>
         map_of m' ''conversions'' = Some (VInt (count_converted (xs @ ys))) \<and>
         (\<exists>rate rate'.
            processor_metrics ts (xs @ ys) =
              Inr [(''timestamp'', VStr ts),
                   (''total_sessions'', VInt (int (length (xs @ ys)))),
                   (''total_conversions'', VInt (count_converted (xs @ ys))),
                   (''conversion_rate'', num_val rate)] \<and>
            processor_metrics ts' (xs @ r # ys) =
              Inr [(''timestamp'', VStr ts'),
                   (''total_sessions'', VInt (int (length (xs @ ys)) + 1)),
                   (''total_conversions'', VInt (count_converted (xs @ ys))),
                   (''conversion_rate'', num_val rate')])"
proof -
  from assms(1) have "\<not> truthy (dict_get r ''converted'' VNone)"
    by (simp add: dict_get_def split: option.splits)
  then have cnt: "count_converted (xs @ r # ys) = count_converted (xs @ ys)"
    by (simp add: count_converted_insert)
  have len: "int (length (xs @ r # ys)) = int (length (xs @ ys)) + 1"
    by simp
  have "\<exists>rate rate'.
      processor_metrics ts (xs @ ys) =
        Inr [(''timestamp'', VStr ts),
             (''total_sessions'', VInt (int (length (xs @ ys)))),
             (''total_conversions'', VInt (count_converted (xs @ ys))),
             (''conversion_rate'', num_val rate)] \<and>
      processor_metrics ts' (xs @ r # ys) =
        Inr [(''timestamp'', VStr ts'),
             (''total_sessions'', VInt (int (length (xs @ ys)) + 1)),
             (''total_conversions'', VInt (count_converted (xs @ ys))),
             (''conversion_rate'', num_val rate')]"
    using processor_metrics_total [of "xs @ ys" ts] processor_metrics_total [of "xs @ r # ys" ts']
    unfolding cnt len by blast
  with api_metrics_fields(2,3) [OF assms(2)] api_metrics_fields(2,3) [OF assms(3)] cnt
  show ?thesis by simp
qed

theorem unconverted_record_counts_as_session_only_witness:
  "(case map_of (unflagged_session ''CUST0003'' 1700000120 4999 (- 2)) ''converted'' of
      None \<Rightarrow> True | Some v \<Rightarrow> \<not> truthy v) \<and>
   api_metrics reject_literal ''2024-01-02T03:04:05'' (flagged_sessions_front @ flagged_sessions_back) =
     Inr [(''timestamp'', VStr ''2024-01-02T03:04:05''), (''total_sessions'', VInt 2),
          (''conversions'', VInt 1), (''conversion_rate'', VFloat (Fin 25 1)),
          (''total_revenue'', VFloat (Fin 75 1)), (''avg_cart_value'', VFloat (Fin 75 1))] \<and>
   api_metrics reject_literal ''2024-01-02T03:04:06''
     (flagged_sessions_front @ unflagged_session ''CUST0003'' 1700000120 4999 (- 2) # flagged_sessions_back) =
     Inr [(''timestamp'', VStr ''2024-01-02T03:04:06''), (''total_sessions'', VInt 3),
          (''conversions'', VInt 1),
          (''conversion_rate'', VFloat (Fin 2345390243441541 (- 46))),
          (''total_revenue'', VFloat (Fin 879565321755689 (- 42))),
          (''avg_cart_value'', VFloat (Fin 879565321755689 (- 42)))] \<and>
   VInt 2 = VInt (int (length (flagged_sessions_front @ flagged_sessions_back))) \<and>
   VInt 3 = VInt (int (length (flagged_sessions_front @ flagged_sessions_back)) + 1) \<and>
   VInt 1 = VInt (count_converted (flagged_sessions_front @ flagged_sessions_back)) \<and>
   (\<exists>rate'. processor_metrics ''2024-01-02T03:04:06''
       (flagged_sessions_front @ unflagged_session ''CUST0003'' 1700000120 4999 (- 2) # flagged_sessions_back) =
     Inr [(''timestamp'', VStr ''2024-01-02T03:04:06''),
          (''total_sessions'', VInt (int (length (flagged_sessions_front @ flagged_sessions_back)) + 1)),
          (''total_conversions'', VInt (count_converted (flagged_sessions_front @ flagged_sessions_back))),
          (''conversion_rate'', num_val rate')])"
proof -
  note h1 = unflagged_absent
  note h2 = flagged_eval [of reject_literal "''2024-01-02T03:04:05''"]
  note h3 = unflagged_eval [of reject_literal "''2024-01-02T03:04:06''"]
  note c = unconverted_record_counts_as_session_only [OF h1 h2 h3]
  from c have "VInt 2 = VInt (int (length (flagged_sessions_front @ flagged_sessions_back))) \<and>
        VInt 3 = VInt (int (length (flagged_sessions_front @ flagged_sessions_back)) + 1) \<and>
        VInt 1 = VInt (count_converted (flagged_sessions_front @ flagged_sessions_back))"
    by simp
  moreover from c have "\<exists>rate'. processor_metrics ''2024-01-02T03:04:06''
       (flagged_sessions_front @ unflagged_session ''CUST0003'' 1700000120 4999 (- 2) # flagged_sessions_back) =
     Inr [(''timestamp'', VStr ''2024-01-02T03:04:06''),
          (''total_sessions'', VInt (int (length (flagged_sessions_front @ flagged_sessions_back)) + 1)),
          (''total_conversions'', VInt (count_converted (flagged_sessions_front @ flagged_sessions_back))),
          (''conversion_rate'', num_val rate')]"
    by blast
  ultimately show ?thesis
    using h1 h2 h3 by blast
qed

text \<open>
  C4, as the code has it. For a batch and any permutation of it the API's aggregation
  raises on both or on neither, and when it returns, \<^verbatim>\<open>total_sessions\<close>,
  \<^verbatim>\<open>conversions\<close> and \<^verbatim>\<open>conversion_rate\<close> are the same; the processor's snapshot is the
  same in every field. \<^verbatim>\<open>total_revenue\<close> and \<^verbatim>\<open>avg_cart_value\<close> come from a float sum
  taken in batch order. For a batch of at most 100 records (the scan limit) whose cart
  values are non-negative decimals with at most two decimal places and add up to at most
  10^10, the aggregation returns for both orders with the same \<^verbatim>\<open>total_revenue\<close>; nothing
  is stated about \<^verbatim>\<open>avg_cart_value\<close>.
\<close>

theorem aggregation_counts_order_independent:
  assumes "mset xs = mset ys"
  shows "isl (api_metrics strtod ts xs) = isl (api_metrics strtod ts ys) \<and>
         (\<forall>m m'. api_metrics strtod ts xs = Inr m \<and> api_metrics strtod ts ys = Inr m' \<longrightarrow>
            map_of m ''total_sessions'' = map_of m' ''total_sessions'' \<and>
            map_of m ''conversions'' = map_of m' ''conversions'' \<and>
            map_of m ''conversion_rate'' = map_of m' ''conversion_rate'') \<and>
         (list_all whole_cents xs \<and> length xs \<le> 100 \<and> total_cents xs \<le> 10 ^ 12 \<longrightarrow>
            (\<exists>m m'. api_metrics strtod ts xs = Inr m \<and> api_metrics strtod ts ys = Inr m' \<and>
               map_of m ''total_revenue'' = map_of m' ''total_revenue'')) \<and>
         processor_metrics ts xs = processor_metrics ts ys"
proof -
  have len: "length xs = length ys"
    using assms by (rule mset_eq_length)
  have cnt: "count_converted xs = count_converted ys"
    using assms by (rule count_converted_mset)
  have set: "set xs = set ys"
    using assms by (rule mset_eq_setD)
  have nil: "xs = [] \<longleftrightarrow> ys = []"
    using len by auto
  have "isl (api_metrics strtod ts xs) = isl (api_metrics strtod ts ys)"
    by (simp add: api_metrics_isl cart_values_ok_iff set cnt nil)
  moreover have "map_of m ''total_sessions'' = map_of m' ''total_sessions'' \<and>
      map_of m ''conversions'' = map_of m' ''conversions'' \<and>
      map_of m ''conversion_rate'' = map_of m' ''conversion_rate''"
    if "api_metrics strtod ts xs = Inr m" "api_metrics strtod ts ys = Inr m'" for m m'
    using api_metrics_fields(2,3,4) [OF that(1)] api_metrics_fields(2,3,4) [OF that(2)]
    by (auto simp: len cnt)
  moreover have "\<exists>m m'. api_metrics strtod ts xs = Inr m \<and> api_metrics strtod ts ys = Inr m' \<and>
      map_of m ''total_revenue'' = map_of m' ''total_revenue''"
    if h: "list_all whole_cents xs \<and> length xs \<le> 100 \<and> total_cents xs \<le> 10 ^ 12"
  proof -
    from h have wx: "list_all whole_cents xs" and nx: "length xs \<le> 100"
      and bx: "total_cents xs \<le> 10 ^ 12" by simp_all
    have wy: "list_all whole_cents ys"
      using wx whole_cents_mset [OF assms] by simp
    have ny: "length ys \<le> 100"
      using nx len by simp
    have bd: "total_cents ys \<le> 10 ^ 12"
      using bx total_cents_mset [OF assms] by simp
    from total_revenue_whole_cents [OF wx nx bx, of strtod ts] obtain m where
      m: "api_metrics strtod ts xs = Inr m"
         "map_of m ''total_revenue'' = Some (if xs = [] then VInt 0 else spec_total_revenue xs)"
      by blast
    from total_revenue_whole_cents [OF wy ny bd, of strtod ts] obtain m' where
      m': "api_metrics strtod ts ys = Inr m'"
          "map_of m' ''total_revenue'' = Some (if ys = [] then VInt 0 else spec_total_revenue ys)"
      by blast
    have "spec_total_revenue xs = spec_total_revenue ys"
      by (simp add: spec_total_cents [OF wx] spec_total_cents [OF wy] total_cents_mset [OF assms])
    with m m' nil have "map_of m ''total_revenue'' = map_of m' ''total_revenue''"
      by simp
    with m(1) m'(1) show ?thesis by blast
  qed
  moreover have "processor_metrics ts xs = processor_metrics ts ys"
    by (simp add: processor_metrics_def len cnt)
  ultimately show ?thesis by blast
qed

theorem aggregation_counts_order_independent_witness:
  "mset whole_cents_batch = mset whole_cents_batch_permuted \<and>
   list_all whole_cents whole_cents_batch \<and> length whole_cents_batch \<le> 100 \<and>
   total_cents whole_cents_batch \<le> 10 ^ 12 \<and>
   api_metrics reject_literal ''2024-01-02T03:04:05'' whole_cents_batch =
     Inr [(''timestamp'', VStr ''2024-01-02T03:04:05''), (''total_sessions'', VInt 3),
          (''conversions'', VInt 2),
          (''conversion_rate'', VFloat (Fin 4691484174324859 (- 46))),
          (''total_revenue'', VFloat (Fin 4565963926897951 (- 43))),
          (''avg_cart_value'', VFloat (Fin 4565875965967729 (- 44)))] \<and>
   api_metrics reject_literal ''2024-01-02T03:04:05'' whole_cents_batch_permuted =
     Inr [(''timestamp'', VStr ''2024-01-02T03:04:05''), (''total_sessions'', VInt 3),
          (''conversions'', VInt 2),
          (''conversion_rate'', VFloat (Fin 4691484174324859 (- 46))),
          (''total_revenue'', VFloat (Fin 4565963926897951 (- 43))),
          (''avg_cart_value'', VFloat (Fin 4566051887828173 (- 44)))] \<and>
   isl (api_metrics reject_literal ''2024-01-02T03:04:05'' whole_cents_batch) =
     isl (api_metrics reject_literal ''2024-01-02T03:04:05'' whole_cents_batch_permuted) \<and>
   processor_metrics ''2024-01-02T03:04:05'' whole_cents_batch =
     processor_metrics ''2024-01-02T03:04:05'' whole_cents_batch_permuted"
  using aggregation_counts_order_independent
      [OF whole_cents_perm, of reject_literal "''2024-01-02T03:04:05''"]
    whole_cents_perm whole_cents_sample
    whole_cents_eval [of reject_literal "''2024-01-02T03:04:05''"]
    whole_cents_permuted_eval [of reject_literal "''2024-01-02T03:04:05''"]
  by blast

text \<open>
  C4 as stated fails: the cart values 12, 1.262, 3.193 give \<^verbatim>\<open>total_revenue\<close> 16.46 and
  \<^verbatim>\<open>avg_cart_value\<close> 5.49 in this order, and 16.45 and 5.48 in the order 12, 3.193, 1.262.
  (With amounts in whole cents the average still depends on the order: lemmas
  \<open>whole_cents_eval\<close> and \<open>whole_cents_permuted_eval\<close>.)
\<close>

theorem total_revenue_order_counterexample:
  "mset cents_batch = mset cents_batch_permuted \<and>
   api_metrics reject_literal ''2024-01-02T03:04:05'' cents_batch =
     Inr [(''timestamp'', VStr ''2024-01-02T03:04:05''), (''total_sessions'', VInt 3),
          (''conversions'', VInt 3), (''conversion_rate'', VFloat (Fin 25 2)),
          (''total_revenue'', VFloat (Fin 2316539058328699 (- 47))),
          (''avg_cart_value'', VFloat (Fin 3090595244283003 (- 49)))] \<and>
   api_metrics reject_literal ''2024-01-02T03:04:05'' cents_batch_permuted =
     Inr [(''timestamp'', VStr ''2024-01-02T03:04:05''), (''total_sessions'', VInt 3),
          (''conversions'', VInt 3), (''conversion_rate'', VFloat (Fin 25 2)),
          (''total_revenue'', VFloat (Fin 4630263366890291 (- 48))),
          (''avg_cart_value'', VFloat (Fin 1542482872374395 (- 48)))] \<and>
   api_metrics reject_literal ''2024-01-02T03:04:05'' cents_batch \<noteq>
     api_metrics reject_literal ''2024-01-02T03:04:05'' cents_batch_permuted"
  using cents_perm cents_eval [of reject_literal "''2024-01-02T03:04:05''"]
    cents_permuted_eval [of reject_literal "''2024-01-02T03:04:05''"]
  by simp

text \<open>
  C3, as the code has it. Each cart value is converted with \<^verbatim>\<open>float\<close> and the floats are
  added from left to right in double arithmetic; \<^verbatim>\<open>total_revenue\<close> is that sum rounded
  once to two places, and \<^verbatim>\<open>avg_cart_value\<close> is the unrounded sum divided by the number
  of conversions, then rounded. For a batch of at most 100 records (the scan limit) whose
  cart values are non-negative decimals with at most two decimal places and add up to at
  most 10^10, the aggregation returns and \<^verbatim>\<open>total_revenue\<close> is the exact decimal sum (the
  double nearest to it). For the cart values 33.333, 33.333, 33.334, all converted,
  \<^verbatim>\<open>total_revenue\<close> is 100.0 (the exact decimal reading gives the same there, lemma
  \<open>thirds_spec\<close>).
\<close>

theorem revenue_accumulates_in_doubles:
  "(\<forall>m. api_metrics strtod ts items = Inr m \<longrightarrow>
      (\<exists>xs. list_all2 (\<lambda>it x. py_float strtod (dict_get it ''cart_value'' (VInt 0)) = Inr x) items xs \<and>
         map_of m ''total_revenue'' =
           Some (if items = [] then VInt 0 else VFloat (round2 (foldl fadd (Fin 0 0) xs))) \<and>
         (0 < count_converted items \<longrightarrow>
            (\<exists>q. float_div_int (foldl fadd (Fin 0 0) xs) (count_converted items) = Inr q \<and>
               map_of m ''avg_cart_value'' = Some (VFloat (round2 q)))))) \<and>
   (list_all whole_cents items \<and> length items \<le> 100 \<and> total_cents items \<le> 10 ^ 12 \<longrightarrow>
      (\<exists>m. api_metrics strtod ts items = Inr m \<and>
         map_of m ''total_revenue'' =
           Some (if items = [] then VInt 0 else spec_total_revenue items))) \<and>
   api_metrics strtod ts thirds_batch =
     Inr [(''timestamp'', VStr ts), (''total_sessions'', VInt 3), (''conversions'', VInt 3),
          (''conversion_rate'', VFloat (Fin 25 2)), (''total_revenue'', VFloat (Fin 25 2)),
          (''avg_cart_value'', VFloat (Fin 2345390243441541 (- 46)))]"
proof (intro conjI allI impI)
  fix m
  assume m: "api_metrics strtod ts items = Inr m"
  from api_metrics_fields(5) [OF m] obtain vs avg where
    vs: "cart_values strtod items = Inr vs" and
    avg: "avg_cart_value (py_sum vs) (count_converted items) = Inr avg" and
    rev: "map_of m ''total_revenue'' = Some (num_val (py_round2 (py_sum vs)))" and
    avgf: "map_of m ''avg_cart_value'' = Some (num_val (py_round2 avg))"
    by blast
  have nil: "vs = [] \<longleftrightarrow> items = []"
    using cart_values_length [OF vs] by auto
  have "map_of m ''total_revenue'' =
      Some (if items = [] then VInt 0 else VFloat (round2 (foldl fadd (Fin 0 0) vs)))"
    using rev nil by (simp add: py_sum_foldl)
  moreover have "\<exists>q. float_div_int (foldl fadd (Fin 0 0) vs) (count_converted items) = Inr q \<and>
      map_of m ''avg_cart_value'' = Some (VFloat (round2 q))"
    if pos: "0 < count_converted items"
  proof -
    from pos have "items \<noteq> []" by (auto simp: count_converted_def)
    with nil have "py_sum vs = NFloat (foldl fadd (Fin 0 0) vs)" by (simp add: py_sum_foldl)
    with avg pos avgf show ?thesis
      by (auto simp: avg_cart_value_def split: sum.splits)
  qed
  ultimately show "\<exists>xs. list_all2 (\<lambda>it x. py_float strtod (dict_get it ''cart_value'' (VInt 0)) = Inr x) items xs \<and>
         map_of m ''total_revenue'' =
           Some (if items = [] then VInt 0 else VFloat (round2 (foldl fadd (Fin 0 0) xs))) \<and>
         (0 < count_converted items \<longrightarrow>
            (\<exists>q. float_div_int (foldl fadd (Fin 0 0) xs) (count_converted items) = Inr q \<and>
               map_of m ''avg_cart_value'' = Some (VFloat (round2 q))))"
    using cart_values_all2 [OF vs] by blast
next
  assume "list_all whole_cents items \<and> length items \<le> 100 \<and> total_cents items \<le> 10 ^ 12"
  then have "list_all whole_cents items" "length items \<le> 100" "total_cents items \<le> 10 ^ 12"
    by simp_all
  then show "\<exists>m. api_metrics strtod ts items = Inr m \<and>
         map_of m ''total_revenue'' =
           Some (if items = [] then VInt 0 else spec_total_revenue items)"
    by (rule total_revenue_whole_cents)
next
  show "api_metrics strtod ts thirds_batch =
     Inr [(''timestamp'', VStr ts), (''total_sessions'', VInt 3), (''conversions'', VInt 3),
          (''conversion_rate'', VFloat (Fin 25 2)), (''total_revenue'', VFloat (Fin 25 2)),
          (''avg_cart_value'', VFloat (Fin 2345390243441541 (- 46)))]"
    by (rule thirds_eval)
qed

theorem revenue_accumulates_in_doubles_witness:
  "api_metrics reject_literal ''2024-01-02T03:04:05'' whole_cents_batch =
     Inr [(''timestamp'', VStr ''2024-01-02T03:04:05''), (''total_sessions'', VInt 3),
          (''conversions'', VInt 2),
          (''conversion_rate'', VFloat (Fin 4691484174324859 (- 46))),
          (''total_revenue'', VFloat (Fin 4565963926897951 (- 43))),
          (''avg_cart_value'', VFloat (Fin 4565875965967729 (- 44)))] \<and>
   0 < count_converted whole_cents_batch \<and>
   list_all whole_cents whole_cents_batch \<and> length whole_cents_batch \<le> 100 \<and>
   total_cents whole_cents_batch \<le> 10 ^ 12 \<and>
   (\<exists>xs. list_all2 (\<lambda>it x. py_float reject_literal (dict_get it ''cart_value'' (VInt 0)) = Inr x)
            whole_cents_batch xs \<and>
      VFloat (Fin 4565963926897951 (- 43)) = VFloat (round2 (foldl fadd (Fin 0 0) xs)) \<and>
      (\<exists>q. float_div_int (foldl fadd (Fin 0 0) xs) (count_converted whole_cents_batch) = Inr q \<and>
         VFloat (Fin 4565875965967729 (- 44)) = VFloat (round2 q))) \<and>
   VFloat (Fin 4565963926897951 (- 43)) = spec_total_revenue whole_cents_batch \<and>
   api_metrics reject_literal ''2024-01-02T03:04:05'' thirds_batch =
     Inr [(''timestamp'', VStr ''2024-01-02T03:04:05''), (''total_sessions'', VInt 3),
          (''conversions'', VInt 3), (''conversion_rate'', VFloat (Fin 25 2)),
          (''total_revenue'', VFloat (Fin 25 2)),
          (''avg_cart_value'', VFloat (Fin 2345390243441541 (- 46)))]"
proof -
  let ?M = "[(''timestamp'', VStr ''2024-01-02T03:04:05''), (''total_sessions'', VInt 3),
          (''conversions'', VInt 2),
          (''conversion_rate'', VFloat (Fin 4691484174324859 (- 46))),
          (''total_revenue'', VFloat (Fin 4565963926897951 (- 43))),
          (''avg_cart_value'', VFloat (Fin 4565875965967729 (- 44)))]"
  have ev: "api_metrics reject_literal ''2024-01-02T03:04:05'' whole_cents_batch = Inr ?M"
    by (rule whole_cents_eval)
  have pos: "0 < count_converted whole_cents_batch"
    by (simp add: whole_cents_count)
  have ne: "whole_cents_batch \<noteq> []"
    by (simp add: whole_cents_batch_def)
  note c = revenue_accumulates_in_doubles
    [of reject_literal "''2024-01-02T03:04:05''" whole_cents_batch]
  from c have "\<exists>xs. list_all2 (\<lambda>it x. py_float reject_literal (dict_get it ''cart_value'' (VInt 0)) = Inr x) whole_cents_batch xs \<and>
         map_of ?M ''total_revenue'' =
           Some (if whole_cents_batch = [] then VInt 0 else VFloat (round2 (foldl fadd (Fin 0 0) xs))) \<and>
         (0 < count_converted whole_cents_batch \<longrightarrow>
            (\<exists>q. float_div_int (foldl fadd (Fin 0 0) xs) (count_converted whole_cents_batch) = Inr q \<and>
               map_of ?M ''avg_cart_value'' = Some (VFloat (round2 q))))"
    using ev by blast
  then have first: "\<exists>xs. list_all2 (\<lambda>it x. py_float reject_literal (dict_get it ''cart_value'' (VInt 0)) = Inr x)
            whole_cents_batch xs \<and>
      VFloat (Fin 4565963926897951 (- 43)) = VFloat (round2 (foldl fadd (Fin 0 0) xs)) \<and>
      (\<exists>q. float_div_int (foldl fadd (Fin 0 0) xs) (count_converted whole_cents_batch) = Inr q \<and>
         VFloat (Fin 4565875965967729 (- 44)) = VFloat (round2 q))"
    using pos ne by simp
  from c whole_cents_sample have "\<exists>m. api_metrics reject_literal ''2024-01-02T03:04:05'' whole_cents_batch = Inr m \<and>
         map_of m ''total_revenue'' =
           Some (if whole_cents_batch = [] then VInt 0 else spec_total_revenue whole_cents_batch)"
    by blast
  then have second: "VFloat (Fin 4565963926897951 (- 43)) = spec_total_revenue whole_cents_batch"
    using ev ne by auto
  from c have third: "api_metrics reject_literal ''2024-01-02T03:04:05'' thirds_batch =
     Inr [(''timestamp'', VStr ''2024-01-02T03:04:05''), (''total_sessions'', VInt 3),
          (''conversions'', VInt 3), (''conversion_rate'', VFloat (Fin 25 2)),
          (''total_revenue'', VFloat (Fin 25 2)),
          (''avg_cart_value'', VFloat (Fin 2345390243441541 (- 46)))]"
    by blast
  from ev pos whole_cents_sample first second third show ?thesis
    by blast
qed

text \<open>
  C3 as stated fails: for the cart values 1E+16, 1, 1 the exact decimal sum is
  10000000000000002, and the code returns 1e16 (each addition of 1 is rounded away).
\<close>

theorem decimal_accumulation_counterexample:
  "api_metrics reject_literal ''2024-01-02T03:04:05'' large_batch =
     Inr [(''timestamp'', VStr ''2024-01-02T03:04:05''), (''total_sessions'', VInt 3),
          (''conversions'', VInt 3), (''conversion_rate'', VFloat (Fin 25 2)),
          (''total_revenue'', VFloat (Fin 152587890625 16)),
          (''avg_cart_value'', VFloat (Fin 6666666666666667 (- 1)))] \<and>
   spec_total_revenue large_batch = VFloat (Fin 5000000000000001 1) \<and>
   VFloat (Fin 152587890625 16) \<noteq> spec_total_revenue large_batch"
  using large_eval [of reject_literal "''2024-01-02T03:04:05''"] large_spec
  by simp

text \<open>
  C2, as the code has it. On every batch the processor's aggregation returns its snapshot.
  The API's aggregation raises exactly when \<^verbatim>\<open>float\<close> raises on the cart value of some
  record, or the number of conversions is too large for a float (no batch of fewer than
  2^1023 records is). Whenever it returns, the two handlers count the same
  \<^verbatim>\<open>total_sessions\<close> and the same conversions (\<^verbatim>\<open>conversions\<close> in the API,
  \<^verbatim>\<open>total_conversions\<close> in the processor), and the API's \<^verbatim>\<open>conversion_rate\<close> is the
  processor's rounded to two places.
\<close>

theorem api_and_processor_agree_on_counts:
  "\<exists>rate. processor_metrics ts' items =
       Inr [(''timestamp'', VStr ts'),
            (''total_sessions'', VInt (int (length items))),
            (''total_conversions'', VInt (count_converted items)),
            (''conversion_rate'', num_val rate)] \<and>
     (\<forall>m. api_metrics strtod ts items = Inr m \<longrightarrow>
        map_of m ''total_sessions'' = Some (VInt (int (length items))) \<and>
        map_of m ''conversions'' = Some (VInt (count_converted items)) \<and>
        map_of m ''conversion_rate'' = Some (num_val (py_round2 rate))) \<and>
     (isl (api_metrics strtod ts items) \<longleftrightarrow>
        (\<exists>it \<in> set items. isl (py_float strtod (dict_get it ''cart_value'' (VInt 0)))) \<or>
        \<not> is_fin (round_double (count_converted items) 1)) \<and>
     (length items < 2 ^ 1023 \<longrightarrow> is_fin (round_double (count_converted items) 1))"
proof -
  obtain rate where
    rate: "conversion_rate (count_converted items) (int (length items)) = Inr rate" and
    pm: "processor_metrics ts' items =
       Inr [(''timestamp'', VStr ts'),
            (''total_sessions'', VInt (int (length items))),
            (''total_conversions'', VInt (count_converted items)),
            (''conversion_rate'', num_val rate)]"
    using processor_metrics_total [of items ts'] by blast
  have "map_of m ''total_sessions'' = Some (VInt (int (length items))) \<and>
        map_of m ''conversions'' = Some (VInt (count_converted items)) \<and>
        map_of m ''conversion_rate'' = Some (num_val (py_round2 rate))"
    if "api_metrics strtod ts items = Inr m" for m
    using api_metrics_fields(2,3,4) [OF that] rate by auto
  moreover have "is_fin (round_double (count_converted items) 1)" if n: "length items < 2 ^ 1023"
  proof -
    have "length (filter (\<lambda>item. truthy (dict_get item ''converted'' VNone)) items) < 2 ^ 1023"
      using n by (rule le_less_trans [OF length_filter_le])
    then have "int (length (filter (\<lambda>item. truthy (dict_get item ''converted'' VNone)) items))
        < int (2 ^ 1023)"
      by (simp only: of_nat_less_iff)
    then have "count_converted items < 2 ^ 1023"
      by (simp add: count_converted_def)
    moreover have "0 \<le> count_converted items"
      by (simp add: count_converted_def)
    ultimately show ?thesis by (intro count_to_float_fin)
  qed
  ultimately show ?thesis
    using pm api_metrics_raises [of strtod ts items] by blast
qed

theorem api_and_processor_agree_on_counts_witness:
  "api_metrics reject_literal ''2024-01-02T03:04:05'' scenario_batch =
     Inr [(''timestamp'', VStr ''2024-01-02T03:04:05''), (''total_sessions'', VInt 3),
          (''conversions'', VInt 1),
          (''conversion_rate'', VFloat (Fin 2345390243441541 (- 46))),
          (''total_revenue'', VFloat (Fin 75 1)), (''avg_cart_value'', VFloat (Fin 75 1))] \<and>
   processor_metrics ''2024-01-02T03:04:06'' scenario_batch =
     Inr [(''timestamp'', VStr ''2024-01-02T03:04:06''), (''total_sessions'', VInt 3),
          (''total_conversions'', VInt 1),
          (''conversion_rate'', VFloat (Fin 2345624805922133 (- 46)))] \<and>
   VFloat (Fin 2345390243441541 (- 46)) = num_val (py_round2 (NFloat (Fin 2345624805922133 (- 46)))) \<and>
   length scenario_batch < 2 ^ 1023 \<and>
   is_fin (round_double (count_converted scenario_batch) 1) \<and>
   \<not> isl (api_metrics reject_literal ''2024-01-02T03:04:05'' scenario_batch) \<and>
   isl (py_float reject_literal (dict_get (hd unpriced_batch) ''cart_value'' (VInt 0))) \<and>
   isl (api_metrics reject_literal ''2024-01-02T03:04:05'' unpriced_batch) \<and>
   (\<exists>rate. processor_metrics ''2024-01-02T03:04:06'' unpriced_batch =
      Inr [(''timestamp'', VStr ''2024-01-02T03:04:06''),
           (''total_sessions'', VInt (int (length unpriced_batch))),
           (''total_conversions'', VInt (count_converted unpriced_batch)),
           (''conversion_rate'', num_val rate)])"
proof -
  let ?M = "[(''timestamp'', VStr ''2024-01-02T03:04:05''), (''total_sessions'', VInt 3),
          (''conversions'', VInt 1),
          (''conversion_rate'', VFloat (Fin 2345390243441541 (- 46))),
          (''total_revenue'', VFloat (Fin 75 1)), (''avg_cart_value'', VFloat (Fin 75 1))]"
  have ev: "api_metrics reject_literal ''2024-01-02T03:04:05'' scenario_batch = Inr ?M"
    by (rule scenario_api)
  have pv: "processor_metrics ''2024-01-02T03:04:06'' scenario_batch =
     Inr [(''timestamp'', VStr ''2024-01-02T03:04:06''), (''total_sessions'', VInt 3),
          (''total_conversions'', VInt 1),
          (''conversion_rate'', VFloat (Fin 2345624805922133 (- 46)))]"
    by (rule scenario_processor)
  have len: "length scenario_batch < 2 ^ 1023"
    by (simp add: scenario_batch_def)
  have bad: "\<exists>it \<in> set unpriced_batch.
      isl (py_float reject_literal (dict_get it ''cart_value'' (VInt 0)))"
    by (simp add: unpriced_batch_def dict_get_def)
  note c = api_and_processor_agree_on_counts
    [of "''2024-01-02T03:04:06''" scenario_batch reject_literal "''2024-01-02T03:04:05''"]
  note c' = api_and_processor_agree_on_counts
    [of "''2024-01-02T03:04:06''" unpriced_batch reject_literal "''2024-01-02T03:04:05''"]
  from c obtain rate where
    "processor_metrics ''2024-01-02T03:04:06'' scenario_batch =
       Inr [(''timestamp'', VStr ''2024-01-02T03:04:06''),
            (''total_sessions'', VInt (int (length scenario_batch))),
            (''total_conversions'', VInt (count_converted scenario_batch)),
            (''conversion_rate'', num_val rate)]"
    and "map_of ?M ''conversion_rate'' = Some (num_val (py_round2 rate))"
    using ev by blast
  with pv have r1: "VFloat (Fin 2345390243441541 (- 46)) =
      num_val (py_round2 (NFloat (Fin 2345624805922133 (- 46))))"
    by (cases rate) auto
  from c len have r2: "is_fin (round_double (count_converted scenario_batch) 1)"
    by blast
  from ev have r3: "\<not> isl (api_metrics reject_literal ''2024-01-02T03:04:05'' scenario_batch)"
    by simp
  have bad': "isl (py_float reject_literal (dict_get (hd unpriced_batch) ''cart_value'' (VInt 0)))"
    by (simp add: unpriced_batch_def dict_get_def)
  from c' bad have r4: "isl (api_metrics reject_literal ''2024-01-02T03:04:05'' unpriced_batch)"
    by blast
  from c' have r5: "\<exists>rate. processor_metrics ''2024-01-02T03:04:06'' unpriced_batch =
      Inr [(''timestamp'', VStr ''2024-01-02T03:04:06''),
           (''total_sessions'', VInt (int (length unpriced_batch))),
           (''total_conversions'', VInt (count_converted unpriced_batch)),
           (''conversion_rate'', num_val rate)]"
    by blast
  from ev pv r1 len r2 r3 bad' r4 r5 show ?thesis by blast
qed

text \<open>
  C2 as stated fails: for three sessions of which one converted with cart value 150.00, the
  API's snapshot has the fields \<^verbatim>\<open>conversions\<close>, \<^verbatim>\<open>total_revenue\<close> and
  \<^verbatim>\<open>avg_cart_value\<close> and the rate 33.33; the processor's has \<^verbatim>\<open>total_conversions\<close>, no
  revenue, and the rate 33.33333333333333. (On a session whose cart value is null the API's
  aggregation raises and the processor's returns: lemmas \<open>unpriced_eval\<close> and
  \<open>unpriced_processor\<close>.)
\<close>

theorem snapshot_shapes_differ_counterexample:
  "api_metrics reject_literal ''2024-01-02T03:04:05'' scenario_batch =
     Inr [(''timestamp'', VStr ''2024-01-02T03:04:05''), (''total_sessions'', VInt 3),
          (''conversions'', VInt 1),
          (''conversion_rate'', VFloat (Fin 2345390243441541 (- 46))),
          (''total_revenue'', VFloat (Fin 75 1)), (''avg_cart_value'', VFloat (Fin 75 1))] \<and>
   processor_metrics ''2024-01-02T03:04:05'' scenario_batch =
     Inr [(''timestamp'', VStr ''2024-01-02T03:04:05''), (''total_sessions'', VInt 3),
          (''total_conversions'', VInt 1),
          (''conversion_rate'', VFloat (Fin 2345624805922133 (- 46)))] \<and>
   map_sum id without_timestamp (api_metrics reject_literal ''2024-01-02T03:04:05'' scenario_batch) \<noteq>
   map_sum id without_timestamp (processor_metrics ''2024-01-02T03:04:05'' scenario_batch)"
  using scenario_api [of reject_literal "''2024-01-02T03:04:05''"]
    scenario_processor [of "''2024-01-02T03:04:05''"]
  by (simp add: without_timestamp_def)

section \<open>Lemmas about serialisation\<close>

lemma json_encode_is_json:
  shows "\<forall>u j. hook u = Inr j \<longrightarrow> is_json j \<Longrightarrow> json_encode hook v = Inr j \<Longrightarrow> is_json j"
    and "\<forall>u j. hook u = Inr j \<longrightarrow> is_json j \<Longrightarrow> json_encode_list hook vs = Inr js \<Longrightarrow>
           list_all is_json js"
    and "\<forall>u j. hook u = Inr j \<longrightarrow> is_json j \<Longrightarrow> json_encode_items hook kvs = Inr kjs \<Longrightarrow>
           list_all (\<lambda>kv. is_json (snd kv)) kjs"
proof (induction hook v and hook vs and hook kvs arbitrary: j and js and kjs
    rule: json_encode_json_encode_list_json_encode_items.induct)
qed (auto split: sum.splits)

lemma no_default_is_json: "no_default u = Inr j \<Longrightarrow> is_json j"
  by (simp add: no_default_def)

lemma DecimalEncoder_default_is_json: "DecimalEncoder_default u = Inr j \<Longrightarrow> is_json j"
  by (auto simp: DecimalEncoder_default_def no_default_def split: pyval.splits)

lemma json_encode_serialisable:
  shows "serialisable v \<Longrightarrow> \<exists>j. json_encode DecimalEncoder_default v = Inr j"
    and "list_all serialisable vs \<Longrightarrow> \<exists>js. json_encode_list DecimalEncoder_default vs = Inr js"
    and "list_all (\<lambda>kv. serialisable (snd kv)) kvs \<Longrightarrow>
           \<exists>kjs. json_encode_items DecimalEncoder_default kvs = Inr kjs"
proof (induction DecimalEncoder_default v and DecimalEncoder_default vs and DecimalEncoder_default kvs
    rule: json_encode_json_encode_list_json_encode_items.induct)
qed (auto simp: DecimalEncoder_default_def)

lemma json_encode_refuses:
  shows "json_encode DecimalEncoder_default v = Inr j \<Longrightarrow> serialisable v"
    and "json_encode_list DecimalEncoder_default vs = Inr js \<Longrightarrow> list_all serialisable vs"
    and "json_encode_items DecimalEncoder_default kvs = Inr kjs \<Longrightarrow>
           list_all (\<lambda>kv. serialisable (snd kv)) kvs"
proof (induction DecimalEncoder_default v and DecimalEncoder_default vs and DecimalEncoder_default kvs
    arbitrary: j and js and kjs
    rule: json_encode_json_encode_list_json_encode_items.induct)
qed (auto simp: DecimalEncoder_default_def no_default_def split: sum.splits)

lemma json_encode_list_all2:
  "json_encode_list hook vs = Inr js \<Longrightarrow> list_all2 (\<lambda>v j. json_encode hook v = Inr j) vs js"
  by (induction vs arbitrary: js) (auto split: sum.splits)

lemma no_default_hook: "\<forall>u j. no_default u = Inr j \<longrightarrow> is_json j"
  by (simp add: no_default_def)

lemma decimal_hook: "\<forall>u j. DecimalEncoder_default u = Inr j \<longrightarrow> is_json j"
  using DecimalEncoder_default_is_json by blast

lemma json_dumps_metrics:
  "json_dumps no_default
     (VDict [(''timestamp'', VStr ts), (''total_sessions'', VInt n),
             (''total_conversions'', VInt c), (''conversion_rate'', num_val rate)]) =
   Inr (Dumps (VDict [(''timestamp'', VStr ts), (''total_sessions'', VInt n),
             (''total_conversions'', VInt c), (''conversion_rate'', num_val rate)]))"
  by (simp add: json_dumps_def json_encode_num)

lemma json_dumps_api_metrics:
  "api_metrics_dict ts n c r = Inr m \<Longrightarrow> json_dumps no_default (VDict m) = Inr (Dumps (VDict m))"
  by (auto simp: api_metrics_dict_def json_dumps_def json_encode_num split: sum.splits)

text \<open>A response built from \<^verbatim>\<open>json.dumps\<close> has the status asked for and a JSON body.\<close>

lemma respond_ok:
  assumes "respond st h (json_dumps hook v) w = (Inr r, w')"
    and "\<forall>u j. hook u = Inr j \<longrightarrow> is_json j"
  shows "statusCode r = st \<and> (\<exists>j. body r = Dumps j \<and> is_json j)"
proof -
  from assms(1) obtain j where j: "json_encode hook v = Inr j"
    and r: "r = \<lparr>statusCode = st, headers = h, body = Dumps j\<rparr>"
    by (auto simp: respond_def json_dumps_def split: sum.splits)
  from json_encode_is_json(1) [OF assms(2) j] r show ?thesis by simp
qed

section \<open>Lemmas about the API handler\<close>

lemma api_health_ok:
  "api_health w = (Inr r, w') \<Longrightarrow> statusCode r = 200 \<and> (\<exists>j. body r = Dumps j \<and> is_json j)"
  unfolding api_health_def Let_def
  by (auto split: prod.splits dest: respond_ok [OF _ no_default_hook])

lemma api_customer_ok:
  "api_customer w event table = (Inr r, w') \<Longrightarrow>
     statusCode r \<in> {200, 400} \<and> (\<exists>j. body r = Dumps j \<and> is_json j)"
  unfolding api_customer_def
  by (auto split: sum.splits if_splits
      dest: respond_ok [OF _ no_default_hook] respond_ok [OF _ decimal_hook])

lemma api_metrics_route_ok:
  "api_metrics_route w table = (Inr r, w') \<Longrightarrow>
     statusCode r = 200 \<and> (\<exists>j. body r = Dumps j \<and> is_json j)"
  unfolding api_metrics_route_def Let_def
  by (auto split: sum.splits prod.splits dest: respond_ok [OF _ no_default_hook])

lemma api_trigger_ok:
  "api_trigger w = (Inr r, w') \<Longrightarrow>
     statusCode r = 202 \<and> (\<exists>j. body r = Dumps j \<and> is_json j)"
  unfolding api_trigger_def
  by (auto split: sum.splits prod.splits dest: respond_ok [OF _ no_default_hook])

lemma api_try_ok:
  assumes "api_try w event = (Inr r, w')"
  shows "statusCode r \<in> {200, 202, 400, 404} \<and> (\<exists>j. body r = Dumps j \<and> is_json j)"
proof -
  from assms consider
      "api_health w = (Inr r, w')"
    | table where "api_customer w event table = (Inr r, w')"
    | table where "api_metrics_route w table = (Inr r, w')"
    | "api_trigger w = (Inr r, w')"
    | "respond 404 None (json_dumps no_default (VDict [(''error'', VStr ''Endpoint not found'')])) w
         = (Inr r, w')"
    unfolding api_try_def by (auto split: sum.splits if_splits)
  then show ?thesis
  proof cases
    case 1 then show ?thesis using api_health_ok by blast
  next
    case 2 then show ?thesis using api_customer_ok by blast
  next
    case 3 then show ?thesis using api_metrics_route_ok by blast
  next
    case 4 then show ?thesis using api_trigger_ok by blast
  next
    case 5 then show ?thesis using respond_ok [OF _ no_default_hook] by blast
  qed
qed

text \<open>
  On \<^verbatim>\<open>GET /metrics\<close> the handler answers with the aggregation of the items the scan
  returns (the first page of the first 100 items).
\<close>

lemma metrics_route_aggregates_scan:
  assumes "event = VDict ev"
    and "map_of ev ''path'' = Some (VStr ''/metrics'')"
    and "dict_get ev ''httpMethod'' (VStr ''GET'') = VStr ''GET''"
    and "map_of (environ w) ''DYNAMODB_TABLE'' = Some t"
    and "table_scan w t 100 = Inr items"
  shows "fst (api_lambda_handler w event) =
     (case api_metrics (float_of_str w) (isoformat (clock w (ticks w))) items of
        Inl e \<Rightarrow> error_response e
      | Inr m \<Rightarrow> \<lparr>statusCode = 200, headers = json_headers, body = Dumps (VDict m)\<rparr>)"
proof -
  have route: "api_try w event = api_metrics_route w t"
    using assms(1-4)
    by (simp add: api_try_def dict_get_def dynamodb_Table_def split: option.splits)
  show ?thesis
  proof (cases "revenue_sum (float_of_str w) items")
    case (Inl e)
    with assms(5) route show ?thesis
      by (simp add: api_lambda_handler_def catch_all_def api_metrics_route_def api_metrics_def)
  next
    case (Inr r)
    show ?thesis
    proof (cases "api_metrics_dict (isoformat (clock w (ticks w))) (int (length items))
        (count_converted items) r")
      case (Inl e)
      with Inr assms(5) route show ?thesis
        by (simp add: api_lambda_handler_def catch_all_def api_metrics_route_def api_metrics_def
            now_def)
    next
      case m: (Inr m)
      with Inr assms(5) route json_dumps_api_metrics [OF m] show ?thesis
        by (simp add: api_lambda_handler_def catch_all_def api_metrics_route_def api_metrics_def
            now_def respond_def)
    qed
  qed
qed

lemma first_page_fits:
  "int (sum_list (map bytes xs)) \<le> room \<Longrightarrow> first_page bytes room xs = xs"
  by (induction xs arbitrary: room) simp_all

lemma first_page_prefix: "\<exists>rest. xs = first_page bytes room xs @ rest"
  by (induction xs arbitrary: room) simp_all

lemma table_query_page:
  assumes "dynamo_fault w = None" and "map_of (tables w) t = Some items"
  shows "table_query w t (VStr cid) =
     Inr (first_page (item_bytes w) page_limit (partition_of cid items))"
  using assms by (simp add: table_query_def)

lemma partition_of_all:
  "mset (partition_of cid items) =
     filter_mset (\<lambda>it. map_of it ''customer_id'' = Some (VStr cid)) (mset items)"
  by (simp add: partition_of_def)

lemma partition_of_sorted: "sorted (map session_timestamp (partition_of cid items))"
  by (simp add: partition_of_def)

text \<open>
  A partition of five sessions of 300042 bytes each: the page ends after the third, and the
  handler answers with three sessions.
\<close>

lemma bulky_bytes: "attribute_bytes (bulky_session ts) = 300042"
  by (simp add: attribute_bytes_def bulky_session_def)

lemma bulky_partition:
  "partition_of ''CUST0001''
     [bulky_session 1700000000, bulky_session 1700000060, bulky_session 1700000120,
      bulky_session 1700000180, bulky_session 1700000240] =
     [bulky_session 1700000000, bulky_session 1700000060, bulky_session 1700000120,
      bulky_session 1700000180, bulky_session 1700000240]"
  by (simp add: partition_of_def bulky_session_def session_timestamp_def dict_get_def)

lemma bulky_page:
  "first_page attribute_bytes page_limit
     [bulky_session 1700000000, bulky_session 1700000060, bulky_session 1700000120,
      bulky_session 1700000180, bulky_session 1700000240] =
     [bulky_session 1700000000, bulky_session 1700000060, bulky_session 1700000120]"
  unfolding first_page.simps bulky_bytes page_limit_def by simp

lemma bulky_query:
  "table_query bulky_world ''customer-behavior'' (VStr ''CUST0001'') =
     Inr [bulky_session 1700000000, bulky_session 1700000060, bulky_session 1700000120]"
  by (simp add: table_query_def bulky_world_def sample_world_def bulky_partition bulky_page
      del: first_page.simps)

lemma bulky_response:
  "api_lambda_handler bulky_world customer_event =
     (\<lparr>statusCode = 200, headers = json_headers,
       body = Dumps (VDict
         [(''customer_id'', VStr ''CUST0001''),
          (''sessions'',
           VList [VDict [(''customer_id'', VStr ''CUST0001''),
                         (''session_timestamp'', VFloat (dec_float 1700000000 0)),
                         (''notes'', VStr (replicate 300000 (CHR ''x'')))],
                  VDict [(''customer_id'', VStr ''CUST0001''),
                         (''session_timestamp'', VFloat (dec_float 1700000060 0)),
                         (''notes'', VStr (replicate 300000 (CHR ''x'')))],
                  VDict [(''customer_id'', VStr ''CUST0001''),
                         (''session_timestamp'', VFloat (dec_float 1700000120 0)),
                         (''notes'', VStr (replicate 300000 (CHR ''x'')))]]),
          (''total_sessions'', VInt 3)])\<rparr>, bulky_world)"
proof -
  have env: "map_of (environ bulky_world) ''DYNAMODB_TABLE'' = Some ''customer-behavior''"
    by (simp add: bulky_world_def sample_world_def)
  show ?thesis
    using bulky_query env
    by (simp add: customer_event_def api_lambda_handler_def api_try_def api_customer_def
        dict_get_def dynamodb_Table_def respond_def json_dumps_def
        DecimalEncoder_default_def catch_all_def bulky_session_def)
qed

lemma unconfigured_health:
  "api_try unconfigured_world health_event =
     (Inl (Exn ''ValueError'' ''Required parameter name not set''), unconfigured_world)"
  by (simp add: api_try_def health_event_def unconfigured_world_def sample_world_def
      dict_get_def dynamodb_Table_def)

lemma history_response:
  "fst (api_lambda_handler history_world customer_event) =
     \<lparr>statusCode = 200, headers = json_headers,
      body = Dumps (VDict
        [(''customer_id'', VStr ''CUST0001''),
         (''sessions'',
          VList [VDict [(''customer_id'', VStr ''CUST0001''),
                        (''session_timestamp'', VFloat (Fin 6640625 8)),
                        (''converted'', VBool False), (''cart_value'', VFloat (Fin 0 0))],
                 VDict [(''customer_id'', VStr ''CUST0001''),
                        (''session_timestamp'', VFloat (Fin 212500015 3)),
                        (''converted'', VBool True), (''cart_value'', VFloat (Fin 75 1))]]),
         (''total_sessions'', VInt 2)])\<rparr>"
  by code_simp

section \<open>Lemmas about the processor handler\<close>

lemma ready_eq:
  "processor_ready w =
     (Inr \<lparr>statusCode = 200, headers = None,
           body = Dumps (VDict [(''message'', VStr ''Data processor ready'')])\<rparr>, w)"
  by (simp add: processor_ready_def respond_def json_dumps_def)

lemma process_records_first_s3:
  assumes "\<forall>r \<in> set pre. \<exists>kv. r = VDict kv \<and> map_of kv ''s3'' = None"
    and "py_contains ''s3'' r = Inr True"
  shows "process_records w (pre @ r # post) =
     (case process_s3_record w r of
        (Inl e, w1) \<Rightarrow> (Inl e, w1)
      | (Inr resp, w1) \<Rightarrow> (Inr (Some resp), w1))"
  using assms by (induction pre) auto

text \<open>The tests of the processor, by the shape of the value.\<close>

lemma py_contains_shape:
  "py_contains k v =
     (if container v then Inr (has_member k v)
      else Inl (Exn ''TypeError''
             (''argument of type '' @ [CHR 0x27] @ type_name v @ [CHR 0x27] @ '' is not iterable'')))"
  by (cases v) simp_all

lemma py_iter_shape:
  "py_iter v =
     (if container v then Inr (elements v)
      else Inl (Exn ''TypeError''
             ([CHR 0x27] @ type_name v @ [CHR 0x27] @ '' object is not iterable'')))"
  by (cases v) simp_all

lemma py_getitem_entry:
  "has_member k v \<Longrightarrow> py_getitem v k = (case entry k v of Some x \<Rightarrow> Inr x | None \<Rightarrow> py_getitem v k)"
  by (cases v) (auto split: option.splits)

lemma py_getitem_type_error:
  "container v \<Longrightarrow> entry k v = None \<Longrightarrow> has_member k v \<Longrightarrow> \<exists>msg. py_getitem v k = Inl (Exn ''TypeError'' msg)"
  by (cases v) auto

lemma process_records_scan:
  "process_records w rs =
     (case dropWhile no_s3 rs of
        [] \<Rightarrow> (Inr None, w)
      | r # post \<Rightarrow>
          (if container r
           then (case process_s3_record w r of
                   (Inl e, w1) \<Rightarrow> (Inl e, w1)
                 | (Inr resp, w1) \<Rightarrow> (Inr (Some resp), w1))
           else (Inl (Exn ''TypeError''
                   (''argument of type '' @ [CHR 0x27] @ type_name r @ [CHR 0x27] @
                    '' is not iterable'')), w)))"
  by (induction rs) (auto simp: py_contains_shape no_s3_def)

lemma dropWhile_all: "list_all P xs \<Longrightarrow> dropWhile P xs = []"
  by (induction xs) simp_all


lemma accepted_ready:
  assumes "accepted_event event"
  shows "processor_try w event = processor_ready w"
proof -
  from assms have c: "container event" by (simp add: accepted_event_def)
  have loop: "(if has_member ''Records'' event
                 then (case py_getitem event ''Records'' of
                         Inl e \<Rightarrow> (Inl e, w)
                       | Inr rs \<Rightarrow>
                           (case py_iter rs of
                              Inl e \<Rightarrow> (Inl e, w)
                            | Inr records \<Rightarrow> process_records w records))
                 else (Inr None, w)) = (Inr None, w)"
  proof (cases "has_member ''Records'' event")
    case False
    then show ?thesis by simp
  next
    case True
    with assms obtain rs where rs: "entry ''Records'' event = Some rs" "container rs"
      "list_all no_s3 (elements rs)"
      by (auto simp: accepted_event_def plain_records_def split: option.splits)
    from rs(1) have "py_getitem event ''Records'' = Inr rs"
      by (cases event) simp_all
    with True rs(2,3) show ?thesis
      by (simp add: py_iter_shape process_records_scan dropWhile_all)
  qed
  have direct: "direct_invocation w event = processor_ready w"
  proof (cases "has_member ''action'' event")
    case False
    with c show ?thesis by (simp add: direct_invocation_def py_contains_shape)
  next
    case True
    with assms obtain a where a: "entry ''action'' event = Some a" "a \<noteq> VStr ''aggregate''"
      by (auto simp: accepted_event_def split: option.splits)
    from a(1) have "py_getitem event ''action'' = Inr a"
      by (cases event) simp_all
    with True c a(2) show ?thesis by (simp add: direct_invocation_def py_contains_shape)
  qed
  show ?thesis
    using c loop direct by (simp add: processor_try_def py_contains_shape)
qed

lemma malformed_type_error:
  assumes "malformed_event event"
  shows "\<exists>msg. processor_try w event = (Inl (Exn ''TypeError'' msg), w)"
proof (cases "container event")
  case False
  then show ?thesis by (simp add: processor_try_def py_contains_shape)
next
  case c: True
  show ?thesis
  proof (cases "has_member ''Records'' event")
    case True
    show ?thesis
    proof (cases "entry ''Records'' event")
      case None
      from py_getitem_type_error [OF c None True] obtain msg where
        "py_getitem event ''Records'' = Inl (Exn ''TypeError'' msg)" by blast
      with c True show ?thesis by (simp add: processor_try_def py_contains_shape)
    next
      case (Some rs)
      then have g: "py_getitem event ''Records'' = Inr rs"
        by (cases event) simp_all
      have np: "\<not> plain_records event \<or> \<not> (has_member ''action'' event \<and> entry ''action'' event = None)"
        using Some by (cases event) (auto split: option.splits)
      show ?thesis
      proof (cases "container rs")
        case False
        with c True g show ?thesis
          by (simp add: processor_try_def py_contains_shape py_iter_shape)
      next
        case crs: True
        from assms c True Some crs np obtain r post where
          d: "dropWhile no_s3 (elements rs) = r # post" "\<not> container r"
          by (auto simp: malformed_event_def split: list.splits)
        with c True g crs show ?thesis
          by (simp add: processor_try_def py_contains_shape py_iter_shape process_records_scan)
      qed
    qed
  next
    case False
    with assms c have a: "has_member ''action'' event" "entry ''action'' event = None"
      by (auto simp: malformed_event_def)
    from py_getitem_type_error [OF c a(2) a(1)] obtain msg where
      "py_getitem event ''action'' = Inl (Exn ''TypeError'' msg)" by blast
    with c False a(1) show ?thesis
      by (simp add: processor_try_def direct_invocation_def py_contains_shape)
  qed
qed

lemma outside_domain:
  assumes "\<not> accepted_event event" "\<not> malformed_event event"
  shows "holds_s3_record event \<or> entry ''action'' event = Some (VStr ''aggregate'')"
proof -
  from assms(2) have c: "container event" by (auto simp: malformed_event_def)
  show ?thesis
  proof (cases "plain_records event")
    case True
    with assms c show ?thesis
      by (auto simp: accepted_event_def malformed_event_def split: option.splits)
  next
    case False
    then have hr: "has_member ''Records'' event" by (simp add: plain_records_def)
    with assms(2) obtain rs where rs: "entry ''Records'' event = Some rs" "container rs"
      by (auto simp: malformed_event_def split: option.splits)
    from False hr rs have "\<not> list_all no_s3 (elements rs)" by (simp add: plain_records_def)
    then have ne: "dropWhile no_s3 (elements rs) \<noteq> []"
      by (simp add: list_all_iff dropWhile_eq_Nil_conv)
    then obtain r post where d: "dropWhile no_s3 (elements rs) = r # post"
      by (cases "dropWhile no_s3 (elements rs)") auto
    with assms(2) hr rs have cr: "container r" by (auto simp: malformed_event_def)
    from d have "\<not> no_s3 r" by (metis hd_dropWhile list.distinct(1) list.sel(1))
    with cr have "has_member ''s3'' r" by (simp add: no_s3_def)
    moreover from d have "r \<in> set (elements rs)"
      by (metis list.set_intros(1) set_dropWhileD)
    ultimately show ?thesis using rs(1) by (auto simp: holds_s3_record_def list_ex_iff)
  qed
qed

lemma split_on_nonempty: "split_on c s \<noteq> []"
  by (induction s) (auto split: list.splits)

lemma split_on_length: "length (split_on c s) = Suc (count_list s c)"
proof (induction s)
  case Nil
  show ?case by simp
next
  case (Cons x xs)
  with split_on_nonempty [of c xs] show ?case
    by (cases "split_on c xs") auto
qed

lemma s3_location_named:
  assumes "map_of r ''s3'' = Some (VDict s3)"
    and "map_of s3 ''bucket'' = Some (VDict b)" and "map_of b ''name'' = Some bucket"
    and "map_of s3 ''object'' = Some (VDict ob)" and "map_of ob ''key'' = Some key"
  shows "s3_location (VDict r) = Inr (bucket, key)"
  using assms by (simp add: s3_location_def bind_exn_def)

lemma s3_put_error_ticks [simp]: "s3_put_error (w\<lparr>ticks := n\<rparr>) b = s3_put_error w b"
  by (simp add: s3_put_error_def split: option.splits)

text \<open>
  On \<^verbatim>\<open>{action: "aggregate"}\<close>, when the scan and the upload succeed, the handler answers
  with the aggregation of the items the scan returns and has put the same text into the
  bucket, under a key made from the second reading of the clock.
\<close>

lemma aggregate_action_publishes:
  assumes "event = VDict ev"
    and "map_of ev ''Records'' = None"
    and "map_of ev ''action'' = Some (VStr ''aggregate'')"
    and "map_of (environ w) ''DYNAMODB_TABLE'' = Some t"
    and "table_scan w t 100 = Inr items"
    and "map_of (environ w) ''S3_BUCKET'' = Some b"
    and "s3_put_error w (Some b) = None"
  shows "\<exists>m. processor_metrics (isoformat (clock w (ticks w))) items = Inr m \<and>
     processor_lambda_handler w event =
       (\<lparr>statusCode = 200, headers = None, body = Dumps (VDict m)\<rparr>,
        w\<lparr>ticks := Suc (Suc (ticks w)),
          s3_puts := s3_puts w @
            [\<lparr>put_bucket = b,
              put_key = ''metrics/'' @ strftime_compact (clock w (Suc (ticks w))) @ ''_metrics.json'',
              put_body = Dumps (VDict m), put_content_type = ''application/json''\<rparr>]\<rparr>)"
proof -
  obtain rate where
    pm: "processor_metrics (isoformat (clock w (ticks w))) items =
       Inr [(''timestamp'', VStr (isoformat (clock w (ticks w)))),
            (''total_sessions'', VInt (int (length items))),
            (''total_conversions'', VInt (count_converted items)),
            (''conversion_rate'', num_val rate)]"
    using processor_metrics_total [of items "isoformat (clock w (ticks w))"] by blast
  have "processor_try w event = aggregate_action w"
    using assms(1-3) by (simp add: processor_try_def direct_invocation_def)
  then show ?thesis
    using assms(4-7) pm
    by (simp add: processor_lambda_handler_def catch_all_def aggregate_action_def
        dynamodb_Table_def now_def Let_def json_dumps_metrics s3_put_object_def respond_def)
qed

lemma sample_object:
  "s3_get_text sample_world ''customer-analytics-data'' ''raw/transactions.csv'' =
     Inr (''id,amount'' @ [CHR 0x0A] @ ''1,10.00'' @ [CHR 0x0A] @ ''2,12.50'' @ [CHR 0x0A])"
  by (simp add: s3_get_text_def sample_world_def)

lemma show_int_three: "show_int 3 = ''3''"
  by code_simp

lemma scenario_take: "take 100 scenario_batch = scenario_batch"
  by (simp add: scenario_batch_def)

lemma scenario_page: "first_page attribute_bytes page_limit scenario_batch = scenario_batch"
  by (simp add: scenario_batch_def session_def attribute_bytes_def page_limit_def)

lemma bucketless_scan:
  "table_scan bucketless_world ''customer-behavior'' 100 = Inr scenario_batch"
  by (simp add: table_scan_def bucketless_world_def sample_world_def scenario_take scenario_page)

lemma bucketless_put:
  "s3_put_error bucketless_world (map_of (environ bucketless_world) ''S3_BUCKET'') =
     Some no_such_bucket"
  by (simp add: s3_put_error_def bucketless_world_def sample_world_def no_such_bucket_def)

lemma bucketless_table:
  "map_of (environ bucketless_world) ''DYNAMODB_TABLE'' = Some ''customer-behavior''"
  by (simp add: bucketless_world_def sample_world_def)

lemma bucketless_clock:
  "isoformat (clock bucketless_world (ticks bucketless_world)) = ''2024-01-02T03:04:05''"
  by (simp add: bucketless_world_def sample_world_def sample_clock_def)

section \<open>Claims about the API handler\<close>

text \<open>
  C9. For every world and every event the API handler returns a response whose status is
  one of 200, 202, 400, 404, 500 and whose body is JSON text, and every exception raised
  in the \<^verbatim>\<open>try\<close> block becomes the response 500 with body \<^verbatim>\<open>{"error": str(e)}\<close>. (The
  handler is a total function onto responses: no exception leaves it.)
\<close>

theorem api_handler_always_responds:
  "statusCode (fst (api_lambda_handler w event)) \<in> {200, 202, 400, 404, 500} \<and>
   (\<exists>j. body (fst (api_lambda_handler w event)) = Dumps j \<and> is_json j) \<and>
   (\<forall>e w'. api_try w event = (Inl e, w') \<longrightarrow>
      fst (api_lambda_handler w event) =
        \<lparr>statusCode = 500, headers = None,
         body = Dumps (VDict [(''error'', VStr (str_exn e))])\<rparr>)"
proof (cases "api_try w event")
  case (Pair res w')
  show ?thesis
  proof (cases res)
    case (Inl e)
    with Pair show ?thesis
      by (simp add: api_lambda_handler_def catch_all_def error_response_def)
  next
    case (Inr r)
    with Pair api_try_ok [of w event r w'] show ?thesis
      by (auto simp: api_lambda_handler_def catch_all_def)
  qed
qed

theorem api_handler_always_responds_witness:
  "api_try unconfigured_world health_event =
     (Inl (Exn ''ValueError'' ''Required parameter name not set''), unconfigured_world) \<and>
   fst (api_lambda_handler unconfigured_world health_event) =
     \<lparr>statusCode = 500, headers = None,
      body = Dumps (VDict [(''error'', VStr (str_exn (Exn ''ValueError'' ''Required parameter name not set'')))])\<rparr> \<and>
   statusCode (fst (api_lambda_handler unconfigured_world health_event)) \<in> {200, 202, 400, 404, 500}"
  using api_handler_always_responds [of unconfigured_world health_event] unconfigured_health
  by blast

text \<open>
  C8, as the code has it. On \<^verbatim>\<open>GET /customer\<close> with a non-empty \<^verbatim>\<open>customer_id\<close>, with the
  table configured and reachable, the handler issues one query and works on its first
  page: the records of that customer and of no other, in ascending order of
  \<^verbatim>\<open>session_timestamp\<close>, up to the first record that no longer fits into the megabyte of a
  page (all of them when together they fit). When no record of the page holds a Binary or
  a set, the answer is 200 with one JSON object for each record of the page, in that order,
  and the world is left as it was; when the customer has no records it is 200 with an
  empty list. When a record of the page holds a Binary or a set at any depth, the encoder
  raises and the answer is 500 with the message of the exception.
\<close>

theorem sessions_for_customer:
  assumes "event = VDict ev"
    and "map_of ev ''path'' = Some (VStr ''/customer'')"
    and "dict_get ev ''httpMethod'' (VStr ''GET'') = VStr ''GET''"
    and "map_of ev ''queryStringParameters'' = Some (VDict q)"
    and "map_of q ''customer_id'' = Some (VStr cid)" and "cid \<noteq> []"
    and "map_of (environ w) ''DYNAMODB_TABLE'' = Some t"
    and "dynamo_fault w = None" and "map_of (tables w) t = Some items"
  shows "\<exists>part page.
     part = partition_of cid items \<and>
     mset part = filter_mset (\<lambda>it. map_of it ''customer_id'' = Some (VStr cid)) (mset items) \<and>
     sorted (map session_timestamp part) \<and>
     page = first_page (item_bytes w) page_limit part \<and>
     (\<exists>rest. part = page @ rest) \<and>
     (int (sum_list (map (item_bytes w) part)) \<le> page_limit \<longrightarrow> page = part) \<and>
     (list_all (\<lambda>it. serialisable (VDict it)) page \<longrightarrow>
        (\<exists>js. list_all2 (\<lambda>it j. json_encode DecimalEncoder_default (VDict it) = Inr j) page js \<and>
           api_lambda_handler w event =
             (\<lparr>statusCode = 200, headers = json_headers,
               body = Dumps (VDict [(''customer_id'', VStr cid), (''sessions'', VList js),
                                    (''total_sessions'', VInt (int (length page)))])\<rparr>, w))) \<and>
     (filter (\<lambda>it. map_of it ''customer_id'' = Some (VStr cid)) items = [] \<longrightarrow>
        api_lambda_handler w event =
          (\<lparr>statusCode = 200, headers = json_headers,
            body = Dumps (VDict [(''customer_id'', VStr cid), (''sessions'', VList []),
                                 (''total_sessions'', VInt 0)])\<rparr>, w)) \<and>
     (\<not> list_all (\<lambda>it. serialisable (VDict it)) page \<longrightarrow>
        (\<exists>msg. api_lambda_handler w event =
           (\<lparr>statusCode = 500, headers = None,
             body = Dumps (VDict [(''error'', VStr msg)])\<rparr>,
            print (''ERROR: '' @ msg) w)))"
proof -
  let ?part = "partition_of cid items"
  let ?page = "first_page (item_bytes w) page_limit ?part"
  let ?body = "VDict [(''customer_id'', VStr cid), (''sessions'', VList (map VDict ?page)),
                      (''total_sessions'', VInt (int (length ?page)))]"
  have q: "q \<noteq> []"
    using assms(5) by auto
  have customer: "api_customer w event t =
      respond 200 json_headers (json_dumps DecimalEncoder_default ?body) w"
    using assms(1,4,5,6) q table_query_page [OF assms(8,9), of cid]
    by (simp add: api_customer_def dict_get_def)
  have route: "api_try w event = api_customer w event t"
    using assms(1,2,3,7)
    by (simp add: api_try_def dict_get_def dynamodb_Table_def split: option.splits)
  have good: "\<exists>js. list_all2 (\<lambda>it j. json_encode DecimalEncoder_default (VDict it) = Inr j) ?page js \<and>
      api_lambda_handler w event =
        (\<lparr>statusCode = 200, headers = json_headers,
          body = Dumps (VDict [(''customer_id'', VStr cid), (''sessions'', VList js),
                               (''total_sessions'', VInt (int (length ?page)))])\<rparr>, w)"
    if ser: "list_all (\<lambda>it. serialisable (VDict it)) ?page"
  proof -
    from ser have "list_all serialisable (map VDict ?page)"
      by (simp add: list_all_iff)
    then obtain js where js: "json_encode_list DecimalEncoder_default (map VDict ?page) = Inr js"
      using json_encode_serialisable(2) by blast
    have all2: "list_all2 (\<lambda>it j. json_encode DecimalEncoder_default (VDict it) = Inr j) ?page js"
      using json_encode_list_all2 [OF js] by (simp add: list_all2_map1)
    have "api_lambda_handler w event =
        (\<lparr>statusCode = 200, headers = json_headers,
          body = Dumps (VDict [(''customer_id'', VStr cid), (''sessions'', VList js),
                               (''total_sessions'', VInt (int (length ?page)))])\<rparr>, w)"
      using route customer js
      by (simp add: api_lambda_handler_def catch_all_def respond_def json_dumps_def)
    with all2 show ?thesis by blast
  qed
  have none: "api_lambda_handler w event =
        (\<lparr>statusCode = 200, headers = json_headers,
          body = Dumps (VDict [(''customer_id'', VStr cid), (''sessions'', VList []),
                               (''total_sessions'', VInt 0)])\<rparr>, w)"
    if "filter (\<lambda>it. map_of it ''customer_id'' = Some (VStr cid)) items = []"
  proof -
    from that have "?page = []" by (simp add: partition_of_def)
    with route customer show ?thesis
      by (simp add: api_lambda_handler_def catch_all_def respond_def json_dumps_def)
  qed
  have bad: "\<exists>msg. api_lambda_handler w event =
           (\<lparr>statusCode = 500, headers = None,
             body = Dumps (VDict [(''error'', VStr msg)])\<rparr>,
            print (''ERROR: '' @ msg) w)"
    if nser: "\<not> list_all (\<lambda>it. serialisable (VDict it)) ?page"
  proof -
    from nser have "\<not> list_all serialisable (map VDict ?page)"
      by (simp add: list_all_iff)
    then obtain e where "json_encode_list DecimalEncoder_default (map VDict ?page) = Inl e"
      using json_encode_refuses(2) [of "map VDict ?page"]
      by (cases "json_encode_list DecimalEncoder_default (map VDict ?page)") auto
    with route customer have "api_lambda_handler w event =
        (error_response e, print (''ERROR: '' @ str_exn e) w)"
      by (simp add: api_lambda_handler_def catch_all_def respond_def json_dumps_def)
    then show ?thesis by (auto simp: error_response_def)
  qed
  have fits: "?page = ?part" if "int (sum_list (map (item_bytes w) ?part)) \<le> page_limit"
    using that by (rule first_page_fits)
  from partition_of_all [of cid items] partition_of_sorted [of cid items]
    first_page_prefix [of ?part "item_bytes w" page_limit] good none bad fits
  show ?thesis by blast
qed

theorem sessions_for_customer_witness:
  "map_of (tables history_world) ''customer-behavior'' =
     Some [session ''CUST0001'' 1700000120 True 15000 (- 2),
           session ''CUST0002'' 1700000060 False 0 0,
           session ''CUST0001'' 1700000000 False 0 0] \<and>
   api_lambda_handler history_world customer_event =
     (\<lparr>statusCode = 200, headers = json_headers,
       body = Dumps (VDict
         [(''customer_id'', VStr ''CUST0001''),
          (''sessions'',
           VList [VDict [(''customer_id'', VStr ''CUST0001''),
                         (''session_timestamp'', VFloat (Fin 6640625 8)),
                         (''converted'', VBool False), (''cart_value'', VFloat (Fin 0 0))],
                  VDict [(''customer_id'', VStr ''CUST0001''),
                         (''session_timestamp'', VFloat (Fin 212500015 3)),
                         (''converted'', VBool True), (''cart_value'', VFloat (Fin 75 1))]]),
          (''total_sessions'', VInt 2)])\<rparr>, history_world) \<and>
   api_lambda_handler history_world stranger_event =
     (\<lparr>statusCode = 200, headers = json_headers,
       body = Dumps (VDict [(''customer_id'', VStr ''CUST0404''), (''sessions'', VList []),
                            (''total_sessions'', VInt 0)])\<rparr>, history_world) \<and>
   map_of (tables tagged_world) ''customer-behavior'' = Some [tagged_session] \<and>
   (\<exists>msg. api_lambda_handler tagged_world customer_event =
      (\<lparr>statusCode = 500, headers = None, body = Dumps (VDict [(''error'', VStr msg)])\<rparr>,
       print (''ERROR: '' @ msg) tagged_world))"
proof -
  let ?items = "[session ''CUST0001'' 1700000120 True 15000 (- 2),
           session ''CUST0002'' 1700000060 False 0 0,
           session ''CUST0001'' 1700000000 False 0 0]"
  let ?part = "[session ''CUST0001'' 1700000000 False 0 0,
           session ''CUST0001'' 1700000120 True 15000 (- 2)]"
  let ?ev = "[(''httpMethod'', VStr ''GET''), (''path'', VStr ''/customer''),
            (''queryStringParameters'', VDict [(''customer_id'', VStr ''CUST0001'')])]"
  let ?ev' = "[(''httpMethod'', VStr ''GET''), (''path'', VStr ''/customer''),
            (''queryStringParameters'', VDict [(''customer_id'', VStr ''CUST0404'')])]"
  have h2: "map_of ?ev ''path'' = Some (VStr ''/customer'')" by simp
  have h3: "dict_get ?ev ''httpMethod'' (VStr ''GET'') = VStr ''GET''" by (simp add: dict_get_def)
  have h4: "map_of ?ev ''queryStringParameters'' = Some (VDict [(''customer_id'', VStr ''CUST0001'')])"
    by simp
  have h5: "map_of [(''customer_id'', VStr ''CUST0001'')] ''customer_id'' = Some (VStr ''CUST0001'')"
    by simp
  have h6: "''CUST0001'' \<noteq> []" by simp
  have k2: "map_of ?ev' ''path'' = Some (VStr ''/customer'')" by simp
  have k3: "dict_get ?ev' ''httpMethod'' (VStr ''GET'') = VStr ''GET''" by (simp add: dict_get_def)
  have k4: "map_of ?ev' ''queryStringParameters'' = Some (VDict [(''customer_id'', VStr ''CUST0404'')])"
    by simp
  have k5: "map_of [(''customer_id'', VStr ''CUST0404'')] ''customer_id'' = Some (VStr ''CUST0404'')"
    by simp
  have k6: "''CUST0404'' \<noteq> []" by simp
  have h7: "map_of (environ history_world) ''DYNAMODB_TABLE'' = Some ''customer-behavior''"
    by (simp add: history_world_def sample_world_def)
  have h8: "dynamo_fault history_world = None"
    by (simp add: history_world_def sample_world_def)
  have h9: "map_of (tables history_world) ''customer-behavior'' = Some ?items"
    by (simp add: history_world_def)
  have t7: "map_of (environ tagged_world) ''DYNAMODB_TABLE'' = Some ''customer-behavior''"
    by (simp add: tagged_world_def sample_world_def)
  have t8: "dynamo_fault tagged_world = None"
    by (simp add: tagged_world_def sample_world_def)
  have t9: "map_of (tables tagged_world) ''customer-behavior'' = Some [tagged_session]"
    by (simp add: tagged_world_def)
  have bytes: "item_bytes history_world = attribute_bytes" "item_bytes tagged_world = attribute_bytes"
    by (simp_all add: history_world_def tagged_world_def sample_world_def)
  have part: "partition_of ''CUST0001'' ?items = ?part"
    by (simp add: partition_of_def session_def session_timestamp_def dict_get_def)
  have page: "first_page attribute_bytes page_limit ?part = ?part"
    by (simp add: session_def attribute_bytes_def page_limit_def)
  have ser: "list_all (\<lambda>it. serialisable (VDict it)) ?part"
    by (simp add: session_def)
  have enc: "json_encode DecimalEncoder_default (VDict (session cid ts conv c e)) =
      Inr (VDict [(''customer_id'', VStr cid), (''session_timestamp'', VFloat (dec_float ts 0)),
                  (''converted'', VBool conv), (''cart_value'', VFloat (dec_float c e))])"
    for cid ts conv c e
    by (simp add: session_def DecimalEncoder_default_def)
  have d1: "dec_float 1700000000 0 = Fin 6640625 8" by code_simp
  have d2: "dec_float 1700000120 0 = Fin 212500015 3" by code_simp
  have d3: "dec_float 0 0 = Fin 0 0" by code_simp
  have d4: "dec_float 15000 (- 2) = Fin 75 1" by code_simp
  have stranger: "filter (\<lambda>it. map_of it ''customer_id'' = Some (VStr ''CUST0404'')) ?items = []"
    by (simp add: session_def)
  have tagged_part: "partition_of ''CUST0001'' [tagged_session] = [tagged_session]"
    by (simp add: partition_of_def tagged_session_def)
  have tagged_page: "first_page attribute_bytes page_limit [tagged_session] = [tagged_session]"
    by (simp add: tagged_session_def attribute_bytes_def page_limit_def)
  have tagged_ser: "\<not> list_all (\<lambda>it. serialisable (VDict it)) [tagged_session]"
    by (simp add: tagged_session_def)
  from sessions_for_customer [OF customer_event_def h2 h3 h4 h5 h6 h7 h8 h9]
  obtain part page where
    p0: "part = partition_of ''CUST0001'' ?items"
    and p3: "page = first_page (item_bytes history_world) page_limit part"
    and p4: "list_all (\<lambda>it. serialisable (VDict it)) page \<longrightarrow>
        (\<exists>js. list_all2 (\<lambda>it j. json_encode DecimalEncoder_default (VDict it) = Inr j) page js \<and>
           api_lambda_handler history_world customer_event =
             (\<lparr>statusCode = 200, headers = json_headers,
               body = Dumps (VDict [(''customer_id'', VStr ''CUST0001''), (''sessions'', VList js),
                                    (''total_sessions'', VInt (int (length page)))])\<rparr>, history_world))"
    by blast
  have "page = ?part"
    by (simp only: p3 p0 part bytes page)
  with p4 ser obtain js where
    js: "list_all2 (\<lambda>it j. json_encode DecimalEncoder_default (VDict it) = Inr j) ?part js"
    and r: "api_lambda_handler history_world customer_event =
             (\<lparr>statusCode = 200, headers = json_headers,
               body = Dumps (VDict [(''customer_id'', VStr ''CUST0001''), (''sessions'', VList js),
                                    (''total_sessions'', VInt (int (length ?part)))])\<rparr>, history_world)"
    by blast
  from js have "js =
      [VDict [(''customer_id'', VStr ''CUST0001''),
              (''session_timestamp'', VFloat (Fin 6640625 8)),
              (''converted'', VBool False), (''cart_value'', VFloat (Fin 0 0))],
       VDict [(''customer_id'', VStr ''CUST0001''),
              (''session_timestamp'', VFloat (Fin 212500015 3)),
              (''converted'', VBool True), (''cart_value'', VFloat (Fin 75 1))]]"
    by (auto simp: list_all2_Cons1 enc d1 d2 d3 d4 simp del: json_encode.simps)
  with r have first: "api_lambda_handler history_world customer_event =
     (\<lparr>statusCode = 200, headers = json_headers,
       body = Dumps (VDict
         [(''customer_id'', VStr ''CUST0001''),
          (''sessions'',
           VList [VDict [(''customer_id'', VStr ''CUST0001''),
                         (''session_timestamp'', VFloat (Fin 6640625 8)),
                         (''converted'', VBool False), (''cart_value'', VFloat (Fin 0 0))],
                  VDict [(''customer_id'', VStr ''CUST0001''),
                         (''session_timestamp'', VFloat (Fin 212500015 3)),
                         (''converted'', VBool True), (''cart_value'', VFloat (Fin 75 1))]]),
          (''total_sessions'', VInt 2)])\<rparr>, history_world)"
    by simp
  from sessions_for_customer [OF stranger_event_def k2 k3 k4 k5 k6 h7 h8 h9] stranger
  have second: "api_lambda_handler history_world stranger_event =
     (\<lparr>statusCode = 200, headers = json_headers,
       body = Dumps (VDict [(''customer_id'', VStr ''CUST0404''), (''sessions'', VList []),
                            (''total_sessions'', VInt 0)])\<rparr>, history_world)"
    by blast
  from sessions_for_customer [OF customer_event_def h2 h3 h4 h5 h6 t7 t8 t9]
  obtain part' page' where
    q0: "part' = partition_of ''CUST0001'' [tagged_session]"
    and q3: "page' = first_page (item_bytes tagged_world) page_limit part'"
    and q4: "\<not> list_all (\<lambda>it. serialisable (VDict it)) page' \<longrightarrow>
        (\<exists>msg. api_lambda_handler tagged_world customer_event =
           (\<lparr>statusCode = 500, headers = None,
             body = Dumps (VDict [(''error'', VStr msg)])\<rparr>,
            print (''ERROR: '' @ msg) tagged_world))"
    by blast
  have "page' = [tagged_session]"
    by (simp only: q3 q0 tagged_part bytes tagged_page)
  with q4 tagged_ser have third: "\<exists>msg. api_lambda_handler tagged_world customer_event =
      (\<lparr>statusCode = 500, headers = None, body = Dumps (VDict [(''error'', VStr msg)])\<rparr>,
       print (''ERROR: '' @ msg) tagged_world)"
    by blast
  from h9 first second t9 third show ?thesis by blast
qed

text \<open>
  C8 as stated fails: the customer's one session carries its \<^verbatim>\<open>actions\<close> as a string set
  (the type the record has in the specification), the encoder has no case for a set, and
  the answer is 500 instead of the session.
\<close>

theorem set_attribute_counterexample:
  "map_of (tables tagged_world) ''customer-behavior'' =
     Some [[(''customer_id'', VStr ''CUST0001''), (''session_timestamp'', VDec 1700000000 0),
            (''actions'', VSet [VStr ''browse'', VStr ''add_to_cart'']),
            (''converted'', VBool False), (''cart_value'', VDec 0 0)]] \<and>
   api_lambda_handler tagged_world customer_event =
     (\<lparr>statusCode = 500, headers = None,
       body = Dumps (VDict [(''error'', VStr ''Object of type set is not JSON serializable'')])\<rparr>,
      print ''ERROR: Object of type set is not JSON serializable'' tagged_world)"
  by (simp add: tagged_world_def tagged_session_def sample_world_def customer_event_def
      api_lambda_handler_def api_try_def api_customer_def dict_get_def dynamodb_Table_def
      table_query_def partition_of_def page_limit_def attribute_bytes_def
      respond_def json_dumps_def DecimalEncoder_default_def no_default_def
      catch_all_def error_response_def print_def)

section \<open>Claims about the processor handler\<close>

text \<open>
  What the storage-event path does. For an event whose first record holding \<^verbatim>\<open>'s3'\<close> names
  a bucket and a key, and an object there whose content can be read and decoded, the
  processor answers 200 with the message \<^verbatim>\<open>Processed n records from key\<close>, where \<open>n\<close> is the
  number of pieces \<^verbatim>\<open>split('\n')\<close> cuts the content into, less one: the number of newline
  characters. The tables are not written, and nothing is put into S3.
\<close>

lemma storage_event_record_count:
  assumes "event = VDict ev"
    and "map_of ev ''Records'' = Some (VList (pre @ VDict r # post))"
    and "\<forall>p \<in> set pre. \<exists>kv. p = VDict kv \<and> map_of kv ''s3'' = None"
    and "map_of r ''s3'' = Some (VDict s3)"
    and "map_of s3 ''bucket'' = Some (VDict b)" and "map_of b ''name'' = Some (VStr bucket)"
    and "map_of s3 ''object'' = Some (VDict ob)" and "map_of ob ''key'' = Some (VStr key)"
    and "s3_get_text w bucket key = Inr data"
  shows "processor_lambda_handler w event =
     (\<lparr>statusCode = 200, headers = None,
       body = Dumps (VDict [(''message'',
                VStr (''Processed '' @ show_int (int (length (split_on (CHR 0x0A) data)) - 1) @
                      '' records from '' @ key))])\<rparr>,
      print (''Processed '' @ key @ '': '' @
             show_int (int (length (split_on (CHR 0x0A) data)) - 1) @ '' records'') w) \<and>
     int (length (split_on (CHR 0x0A) data)) - 1 = int (count_list data (CHR 0x0A)) \<and>
     tables (snd (processor_lambda_handler w event)) = tables w \<and>
     s3_puts (snd (processor_lambda_handler w event)) = s3_puts w"
proof -
  let ?n = "int (length (split_on (CHR 0x0A) data)) - 1"
  let ?resp = "\<lparr>statusCode = 200, headers = None,
       body = Dumps (VDict [(''message'',
                VStr (''Processed '' @ show_int ?n @ '' records from '' @ key))])\<rparr>"
  let ?w1 = "print (''Processed '' @ key @ '': '' @ show_int ?n @ '' records'') w"
  have loc: "s3_location (VDict r) = Inr (VStr bucket, VStr key)"
    using assms(4-8) by (rule s3_location_named)
  have rec: "process_s3_record w (VDict r) = (Inr ?resp, ?w1)"
    using loc assms(9)
    by (simp add: process_s3_record_def Let_def respond_def json_dumps_def)
  have has: "py_contains ''s3'' (VDict r) = Inr True"
    using assms(4) by simp
  have "process_records w (pre @ VDict r # post) = (Inr (Some ?resp), ?w1)"
    using process_records_first_s3 [OF assms(3) has, of w post] rec by simp
  then have "processor_try w event = (Inr ?resp, ?w1)"
    using assms(1,2) by (simp add: processor_try_def)
  then have eq: "processor_lambda_handler w event = (?resp, ?w1)"
    by (simp add: processor_lambda_handler_def catch_all_def)
  moreover have "?n = int (count_list data (CHR 0x0A))"
    by (simp add: split_on_length)
  ultimately show ?thesis by (simp add: print_def)
qed


text \<open>
  Against the number of lines: the count excludes one line only when the content does not
  end with a newline. When it does, every line is counted, the header too.
\<close>

lemma record_count_lines:
  "int (length (split_on (CHR 0x0A) data)) - 1 =
     int (line_count data) - (if data = [] \<or> last data = CHR 0x0A then 0 else 1)"
  by (simp add: split_on_length line_count_def)

lemma sample_lines:
  "line_count (''id,amount'' @ [CHR 0x0A] @ ''1,10.00'' @ [CHR 0x0A] @ ''2,12.50'' @ [CHR 0x0A]) = 3"
  by (simp add: line_count_def)

text \<open>
  C5. The claim is that the record count is the line count of the content less one header
  line, and that this path does not write to the record store. The second part holds
  (lemma \<open>storage_event_record_count\<close>). The first fails on a file that ends with a newline:
  the sample object has three lines, a header and two rows, and the processor reports three
  records, although line 30 of the source reads \<^verbatim>\<open>len(lines) - 1  # Exclude header\<close>.
\<close>

theorem storage_event_counts_header:
  "s3_get_text sample_world ''customer-analytics-data'' ''raw/transactions.csv'' =
     Inr (''id,amount'' @ [CHR 0x0A] @ ''1,10.00'' @ [CHR 0x0A] @ ''2,12.50'' @ [CHR 0x0A]) \<and>
   line_count (''id,amount'' @ [CHR 0x0A] @ ''1,10.00'' @ [CHR 0x0A] @ ''2,12.50'' @ [CHR 0x0A]) = 3 \<and>
   processor_lambda_handler sample_world storage_event =
     (\<lparr>statusCode = 200, headers = None,
       body = Dumps (VDict [(''message'',
                VStr ''Processed 3 records from raw/transactions.csv'')])\<rparr>,
      print ''Processed raw/transactions.csv: 3 records'' sample_world) \<and>
   tables (snd (processor_lambda_handler sample_world storage_event)) = tables sample_world"
proof -
  have h3: "\<forall>p \<in> set []. \<exists>kv. p = VDict kv \<and> map_of kv ''s3'' = None"
    by simp
  have h2: "map_of
      [(''Records'',
        VList [VDict [(''eventSource'', VStr ''aws:s3''),
                      (''s3'', VDict [(''bucket'', VDict [(''name'', VStr ''customer-analytics-data'')]),
                                      (''object'', VDict [(''key'', VStr ''raw/transactions.csv'')])])]])]
      ''Records'' =
    Some (VList ([] @
      VDict [(''eventSource'', VStr ''aws:s3''),
             (''s3'', VDict [(''bucket'', VDict [(''name'', VStr ''customer-analytics-data'')]),
                             (''object'', VDict [(''key'', VStr ''raw/transactions.csv'')])])] # []))"
    by simp
  from storage_event_record_count
    [OF storage_event_def h2 h3 _ _ _ _ _ sample_object,
      of "[(''bucket'', VDict [(''name'', VStr ''customer-analytics-data'')]),
           (''object'', VDict [(''key'', VStr ''raw/transactions.csv'')])]"
         "[(''name'', VStr ''customer-analytics-data'')]"
         "[(''key'', VStr ''raw/transactions.csv'')]"]
  show ?thesis
    using sample_object sample_lines by (simp add: show_int_three print_def)
qed

text \<open>
  C10, as the code has it. Every event that holds neither a record in which \<^verbatim>\<open>s3\<close> occurs
  nor the action \<^verbatim>\<open>"aggregate"\<close> is accepted or malformed. On an accepted event the
  processor answers 200 with \<^verbatim>\<open>{"message": "Data processor ready"}\<close> and leaves the world
  as it was: unrecognised actions and records without \<^verbatim>\<open>s3\<close> are passed over in silence.
  On a malformed event a test of the handler raises a \<^verbatim>\<open>TypeError\<close>, and the processor
  answers 500 with the message of the exception and prints it.
\<close>

theorem unrecognised_event_is_accepted:
  "(accepted_event event \<longrightarrow>
      processor_lambda_handler w event =
        (\<lparr>statusCode = 200, headers = None,
          body = Dumps (VDict [(''message'', VStr ''Data processor ready'')])\<rparr>, w)) \<and>
   (malformed_event event \<longrightarrow>
      (\<exists>msg. processor_try w event = (Inl (Exn ''TypeError'' msg), w) \<and>
         processor_lambda_handler w event =
           (\<lparr>statusCode = 500, headers = None,
             body = Dumps (VDict [(''error'', VStr msg)])\<rparr>,
            print (''ERROR: '' @ msg) w))) \<and>
   (\<not> accepted_event event \<and> \<not> malformed_event event \<longrightarrow>
      holds_s3_record event \<or> entry ''action'' event = Some (VStr ''aggregate''))"
proof (intro conjI impI)
  assume "accepted_event event"
  then have "processor_try w event = processor_ready w"
    by (rule accepted_ready)
  then show "processor_lambda_handler w event =
        (\<lparr>statusCode = 200, headers = None,
          body = Dumps (VDict [(''message'', VStr ''Data processor ready'')])\<rparr>, w)"
    by (simp add: processor_lambda_handler_def catch_all_def ready_eq)
next
  assume "malformed_event event"
  then obtain msg where msg: "processor_try w event = (Inl (Exn ''TypeError'' msg), w)"
    using malformed_type_error by blast
  then have "processor_lambda_handler w event =
           (\<lparr>statusCode = 500, headers = None,
             body = Dumps (VDict [(''error'', VStr msg)])\<rparr>,
            print (''ERROR: '' @ msg) w)"
    by (simp add: processor_lambda_handler_def catch_all_def error_response_def)
  with msg show "\<exists>msg. processor_try w event = (Inl (Exn ''TypeError'' msg), w) \<and>
         processor_lambda_handler w event =
           (\<lparr>statusCode = 500, headers = None,
             body = Dumps (VDict [(''error'', VStr msg)])\<rparr>,
            print (''ERROR: '' @ msg) w)"
    by blast
next
  assume "\<not> accepted_event event \<and> \<not> malformed_event event"
  then show "holds_s3_record event \<or> entry ''action'' event = Some (VStr ''aggregate'')"
    using outside_domain by blast
qed

theorem unrecognised_event_is_accepted_witness:
  "accepted_event sns_event \<and>
   processor_lambda_handler sample_world sns_event =
     (\<lparr>statusCode = 200, headers = None,
       body = Dumps (VDict [(''message'', VStr ''Data processor ready'')])\<rparr>, sample_world) \<and>
   accepted_event empty_list_event \<and>
   processor_lambda_handler sample_world empty_list_event =
     (\<lparr>statusCode = 200, headers = None,
       body = Dumps (VDict [(''message'', VStr ''Data processor ready'')])\<rparr>, sample_world) \<and>
   accepted_event text_records_event \<and>
   processor_lambda_handler sample_world text_records_event =
     (\<lparr>statusCode = 200, headers = None,
       body = Dumps (VDict [(''message'', VStr ''Data processor ready'')])\<rparr>, sample_world) \<and>
   malformed_event numbered_records_event \<and>
   (\<exists>msg. processor_lambda_handler sample_world numbered_records_event =
      (\<lparr>statusCode = 500, headers = None, body = Dumps (VDict [(''error'', VStr msg)])\<rparr>,
       print (''ERROR: '' @ msg) sample_world)) \<and>
   \<not> accepted_event aggregate_event \<and> \<not> malformed_event aggregate_event \<and>
   entry ''action'' aggregate_event = Some (VStr ''aggregate'') \<and>
   \<not> accepted_event storage_event \<and> \<not> malformed_event storage_event \<and>
   holds_s3_record storage_event"
proof -
  have a1: "accepted_event sns_event"
    by (simp add: accepted_event_def plain_records_def no_s3_def sns_event_def)
  have a2: "accepted_event empty_list_event"
    by (simp add: accepted_event_def plain_records_def empty_list_event_def)
  have a3: "accepted_event text_records_event"
    by (simp add: accepted_event_def plain_records_def no_s3_def text_records_event_def)
  have m1: "malformed_event numbered_records_event"
    by (simp add: malformed_event_def no_s3_def numbered_records_event_def)
  have o1: "\<not> accepted_event aggregate_event" "\<not> malformed_event aggregate_event"
    by (simp_all add: accepted_event_def malformed_event_def plain_records_def aggregate_event_def)
  have o2: "\<not> accepted_event storage_event" "\<not> malformed_event storage_event"
    by (simp_all add: accepted_event_def malformed_event_def plain_records_def no_s3_def
        storage_event_def)
  have o3: "entry ''action'' storage_event \<noteq> Some (VStr ''aggregate'')"
    by (simp add: storage_event_def)
  note c1 = unrecognised_event_is_accepted [of sns_event sample_world]
  note c2 = unrecognised_event_is_accepted [of empty_list_event sample_world]
  note c3 = unrecognised_event_is_accepted [of text_records_event sample_world]
  note c4 = unrecognised_event_is_accepted [of numbered_records_event sample_world]
  note c5 = unrecognised_event_is_accepted [of aggregate_event sample_world]
  note c6 = unrecognised_event_is_accepted [of storage_event sample_world]
  from c1 a1 have r1: "processor_lambda_handler sample_world sns_event =
     (\<lparr>statusCode = 200, headers = None,
       body = Dumps (VDict [(''message'', VStr ''Data processor ready'')])\<rparr>, sample_world)"
    by blast
  from c2 a2 have r2: "processor_lambda_handler sample_world empty_list_event =
     (\<lparr>statusCode = 200, headers = None,
       body = Dumps (VDict [(''message'', VStr ''Data processor ready'')])\<rparr>, sample_world)"
    by blast
  from c3 a3 have r3: "processor_lambda_handler sample_world text_records_event =
     (\<lparr>statusCode = 200, headers = None,
       body = Dumps (VDict [(''message'', VStr ''Data processor ready'')])\<rparr>, sample_world)"
    by blast
  from c4 m1 have r4: "\<exists>msg. processor_lambda_handler sample_world numbered_records_event =
      (\<lparr>statusCode = 500, headers = None, body = Dumps (VDict [(''error'', VStr msg)])\<rparr>,
       print (''ERROR: '' @ msg) sample_world)"
    by blast
  from c5 o1 have r5: "holds_s3_record aggregate_event \<or>
      entry ''action'' aggregate_event = Some (VStr ''aggregate'')"
    by blast
  then have r5': "entry ''action'' aggregate_event = Some (VStr ''aggregate'')"
    by (simp add: holds_s3_record_def aggregate_event_def)
  from c6 o2 o3 have r6: "holds_s3_record storage_event"
    by blast
  from a1 r1 a2 r2 a3 r3 m1 r4 o1 r5' o2 r6 show ?thesis
    by blast
qed

text \<open>
  C10 as stated fails: the event \<^verbatim>\<open>{"Records": null}\<close> holds no \<^verbatim>\<open>s3\<close> record and no
  \<^verbatim>\<open>action\<close>, and the loop over \<^verbatim>\<open>event['Records']\<close> raises a \<^verbatim>\<open>TypeError\<close>, which the
  handler reports with status 500. (The event is malformed, in the sense above.)
\<close>

theorem null_records_counterexample:
  "py_getitem null_records_event ''Records'' = Inr VNone \<and>
   py_contains ''action'' null_records_event = Inr False \<and>
   fst (processor_lambda_handler sample_world null_records_event) =
     \<lparr>statusCode = 500, headers = None,
      body = Dumps (VDict [(''error'',
               VStr ([CHR 0x27] @ ''NoneType'' @ [CHR 0x27] @ '' object is not iterable''))])\<rparr>"
  by (simp add: null_records_event_def processor_lambda_handler_def processor_try_def
      catch_all_def error_response_def)

text \<open>
  C1, as the code has it. On \<^verbatim>\<open>{action: "aggregate"}\<close>, when the scan has succeeded (so that
  the snapshot is computed) and the upload of the snapshot fails, the handler reports the
  failure: it answers 500 with body \<^verbatim>\<open>{"error": str(e)}\<close> for the exception of the upload,
  and nothing is stored. The snapshot is not part of that answer.
\<close>

theorem publish_failure_returns_error_only:
  assumes "event = VDict ev"
    and "map_of ev ''Records'' = None"
    and "map_of ev ''action'' = Some (VStr ''aggregate'')"
    and "map_of (environ w) ''DYNAMODB_TABLE'' = Some t"
    and "table_scan w t 100 = Inr items"
    and "s3_put_error w (map_of (environ w) ''S3_BUCKET'') = Some e"
  shows "(\<exists>m. processor_metrics (isoformat (clock w (ticks w))) items = Inr m) \<and>
     fst (processor_lambda_handler w event) =
       \<lparr>statusCode = 500, headers = None,
        body = Dumps (VDict [(''error'', VStr (str_exn e))])\<rparr> \<and>
     s3_puts (snd (processor_lambda_handler w event)) = s3_puts w"
proof -
  obtain rate where
    pm: "processor_metrics (isoformat (clock w (ticks w))) items =
       Inr [(''timestamp'', VStr (isoformat (clock w (ticks w)))),
            (''total_sessions'', VInt (int (length items))),
            (''total_conversions'', VInt (count_converted items)),
            (''conversion_rate'', num_val rate)]"
    using processor_metrics_total [of items "isoformat (clock w (ticks w))"] by blast
  have "aggregate_action w =
      (Inl e, w\<lparr>ticks := Suc (Suc (ticks w))\<rparr>)"
    using assms(4-6) pm
    by (simp add: aggregate_action_def dynamodb_Table_def now_def Let_def json_dumps_metrics
        s3_put_object_def)
  then have "processor_try w event = (Inl e, w\<lparr>ticks := Suc (Suc (ticks w))\<rparr>)"
    using assms(1-3) by (simp add: processor_try_def direct_invocation_def)
  then have "processor_lambda_handler w event =
      (error_response e, print (''ERROR: '' @ str_exn e) (w\<lparr>ticks := Suc (Suc (ticks w))\<rparr>))"
    by (simp add: processor_lambda_handler_def catch_all_def)
  with pm show ?thesis
    by (simp add: error_response_def print_def)
qed

theorem publish_failure_returns_error_only_witness:
  "table_scan bucketless_world ''customer-behavior'' 100 = Inr scenario_batch \<and>
   s3_put_error bucketless_world (map_of (environ bucketless_world) ''S3_BUCKET'') =
     Some no_such_bucket \<and>
   fst (processor_lambda_handler bucketless_world aggregate_event) =
     \<lparr>statusCode = 500, headers = None,
      body = Dumps (VDict [(''error'', VStr (str_exn no_such_bucket))])\<rparr> \<and>
   s3_puts (snd (processor_lambda_handler bucketless_world aggregate_event)) =
     s3_puts bucketless_world"
proof -
  have h2: "map_of [(''action'', VStr ''aggregate'')] ''Records'' = None"
    by simp
  have h3: "map_of [(''action'', VStr ''aggregate'')] ''action'' = Some (VStr ''aggregate'')"
    by simp
  from publish_failure_returns_error_only
    [OF aggregate_event_def h2 h3 bucketless_table bucketless_scan bucketless_put]
  show ?thesis
    using bucketless_scan bucketless_put by blast
qed

text \<open>
  C1 as stated fails: with the bucket missing, the snapshot of the three sample sessions
  is computed, and the answer of the handler is the error of the upload alone.
\<close>

theorem publish_failure_discards_snapshot_counterexample:
  "processor_metrics ''2024-01-02T03:04:05'' scenario_batch =
     Inr [(''timestamp'', VStr ''2024-01-02T03:04:05''), (''total_sessions'', VInt 3),
          (''total_conversions'', VInt 1),
          (''conversion_rate'', VFloat (Fin 2345624805922133 (- 46)))] \<and>
   fst (processor_lambda_handler bucketless_world aggregate_event) =
     \<lparr>statusCode = 500, headers = None,
      body = Dumps (VDict [(''error'',
               VStr (''An error occurred (NoSuchBucket) when calling the PutObject '' @
                     ''operation: The specified bucket does not exist''))])\<rparr> \<and>
   body (fst (processor_lambda_handler bucketless_world aggregate_event)) \<noteq>
     Dumps (VDict [(''timestamp'', VStr ''2024-01-02T03:04:05''), (''total_sessions'', VInt 3),
                   (''total_conversions'', VInt 1),
                   (''conversion_rate'', VFloat (Fin 2345624805922133 (- 46)))])"
proof -
  note pm = scenario_processor [of "''2024-01-02T03:04:05''"]
  have "aggregate_action bucketless_world =
      (Inl no_such_bucket, bucketless_world\<lparr>ticks := Suc (Suc (ticks bucketless_world))\<rparr>)"
    using bucketless_table bucketless_scan bucketless_put bucketless_clock pm
    by (simp add: aggregate_action_def dynamodb_Table_def now_def Let_def json_dumps_def
        s3_put_object_def)
  then have "fst (processor_lambda_handler bucketless_world aggregate_event) =
      error_response no_such_bucket"
    by (simp add: processor_lambda_handler_def processor_try_def direct_invocation_def
        aggregate_event_def catch_all_def)
  with pm show ?thesis
    by (simp add: error_response_def no_such_bucket_def)
qed

end
